(* ===== verification/Notes_Prelude.thy ===== *)
theory Notes_Prelude
  imports Main "HOL-Library.Sublist"
begin

text \<open>
  Shared vocabulary of the development: the names of the model's base types, the
  collections of definitional facts that the component theories fill and that their
  proofs unfold as a group, and the list lemmas that more than one component needs
  (contiguous sublists under \<open>map\<close>, trimming with \<open>dropWhile\<close>, filtering lists
  whose keys are distinct, removal of one position of a list).
\<close>

section \<open>Types of the model\<close>

type_synonym ident = string
  \<comment> \<open>a note identifier as a template literal renders it: \<open>`${note.id}`\<close>\<close>
type_synonym url = string
type_synonym millis = nat
  \<comment> \<open>time in milliseconds, as \<open>setTimeout\<close> counts it\<close>

section \<open>Fact collections\<close>

named_theorems js_defs "definitions of the JavaScript string operations"
named_theorems model_defs "definitions over notes and note lists"
named_theorems toast_defs "definitions of the notification presenter"
named_theorems view_defs "definitions of the rendered views"
named_theorems handler_defs "definitions of the controller's handlers and continuations"
named_theorems inv_defs "definitions of the invariants"
named_theorems store_defs "definitions of the note store"

section \<open>Contiguous sublists\<close>

lemma sublist_take_drop:
  "sublist xs ys \<longleftrightarrow> (\<exists>k. k + length xs \<le> length ys \<and> take (length xs) (drop k ys) = xs)"
proof
  assume "sublist xs ys"
  then obtain ps ss where "ys = ps @ xs @ ss" by (auto simp: sublist_def)
  then have "length ps + length xs \<le> length ys \<and> take (length xs) (drop (length ps) ys) = xs"
    by simp
  then show "\<exists>k. k + length xs \<le> length ys \<and> take (length xs) (drop k ys) = xs" ..
next
  assume "\<exists>k. k + length xs \<le> length ys \<and> take (length xs) (drop k ys) = xs"
  then obtain k where k: "take (length xs) (drop k ys) = xs" by blast
  have "ys = take k ys @ take (length xs) (drop k ys) @ drop (length xs) (drop k ys)"
    by (metis append_take_drop_id)
  with k have "ys = take k ys @ xs @ drop (length xs) (drop k ys)" by simp
  then show "sublist xs ys" unfolding sublist_def by blast
qed

section \<open>Trimming\<close>

lemma dropWhile_idem [simp]: "dropWhile P (dropWhile P xs) = dropWhile P xs"
  by (induction xs) auto

lemma hd_dropWhile_not: "dropWhile P xs \<noteq> [] \<Longrightarrow> \<not> P (hd (dropWhile P xs))"
  by (induction xs) auto

section \<open>Lists with distinct keys\<close>

lemma distinct_key_filter: "distinct (map f xs) \<Longrightarrow> distinct (map f (filter P xs))"
  by (rule distinct_map_filter)

lemma key_notin_filter_neq [simp]: "k \<notin> f ` set (filter (\<lambda>x. f x \<noteq> k) xs)"
  by auto

lemma filter_neq_absent: "k \<notin> f ` set xs \<Longrightarrow> filter (\<lambda>x. f x \<noteq> k) xs = xs"
  by (induction xs) auto

lemma length_filter_neq_distinct:
  "distinct (map f xs) \<Longrightarrow> k \<in> f ` set xs \<Longrightarrow>
     Suc (length (filter (\<lambda>x. f x \<noteq> k) xs)) = length xs"
proof (induction xs)
  case Nil
  then show ?case by simp
next
  case (Cons x xs)
  show ?case
  proof (cases "f x = k")
    case True
    with Cons.prems have "k \<notin> f ` set xs" by auto
    with True show ?thesis by (simp add: filter_neq_absent)
  next
    case False
    with Cons show ?thesis by auto
  qed
qed

section \<open>Removing one position\<close>

lemma length_take_drop_Suc:
  "i < length xs \<Longrightarrow> Suc (length (take i xs @ drop (Suc i) xs)) = length xs"
  by simp

lemma set_take_drop_Suc_subset: "set (take i xs @ drop (Suc i) xs) \<subseteq> set xs"
  using set_take_subset [of i xs] set_drop_subset [of "Suc i" xs] by auto

end
