(* ===== verification/JS_String.thy ===== *)
theory JS_String
  imports Notes_Prelude
begin

text \<open>
  The JavaScript string operations that \<^verbatim>\<open>src/src/App.js\<close> calls:
  \<^verbatim>\<open>toLowerCase\<close> and \<^verbatim>\<open>includes\<close> (the search filter), \<^verbatim>\<open>trim\<close> and the truthiness
  of a string (the editor's save guard), and the \<^verbatim>\<open>||\<close> default of the editor's
  initial fields.

  A string of the model is a \<open>char list\<close>; each \<open>char\<close> stands for one UTF-16 code
  unit below 256 (the Basic Latin and Latin-1 blocks). On that range the model is exact:
  the upper-case letters are U+0041..U+005A and U+00C0..U+00DE without U+00D7, each
  mapped to the code unit 32 above it, and the white space and line terminators that
  \<^verbatim>\<open>trim\<close> strips are U+0009..U+000D, U+0020 and U+00A0. Code units from 256 on
  (where \<^verbatim>\<open>toLowerCase\<close> is no longer a map over code units) are outside the model.

  \<^verbatim>\<open>toLowerCase\<close>, \<^verbatim>\<open>includes\<close> and \<^verbatim>\<open>trim\<close> are functions of the JavaScript
  engine: the definitions follow ECMAScript, and the lemmas of this theory are the facts
  about them that the proofs of the search filter and of the save guard need. What the
  program does with them is stated in the theories \<open>Note_Model\<close> and \<open>Note_Editor\<close>.
\<close>

section \<open>toLowerCase\<close>

definition is_upper :: "char \<Rightarrow> bool" where
  "is_upper c =
     (let n = of_char c :: nat
      in (65 \<le> n \<and> n \<le> 90) \<or> (192 \<le> n \<and> n \<le> 222 \<and> n \<noteq> 215))"

definition lower_unit :: "char \<Rightarrow> char" where
  "lower_unit c = (if is_upper c then char_of (of_char c + 32 :: nat) else c)"

definition toLowerCase :: "string \<Rightarrow> string" where
  "toLowerCase s = map lower_unit s"

lemmas [js_defs] = is_upper_def lower_unit_def toLowerCase_def char_of_def bit_Suc_0_iff

lemma of_char_lower_unit:
  "(of_char (lower_unit c) :: nat) = (if is_upper c then of_char c + 32 else of_char c)"
  by (simp add: lower_unit_def is_upper_def Let_def)

lemma not_upper_lower_unit [simp]: "\<not> is_upper (lower_unit c)"
  using of_char_lower_unit [of c] by (auto simp: is_upper_def Let_def)

lemma lower_unit_idem [simp]: "lower_unit (lower_unit c) = lower_unit c"
  by (simp add: lower_unit_def [of "lower_unit c"])

text \<open>
  Two code units have the same lower-case form exactly when they are equal or one is
  the upper-case letter 32 below the other.
\<close>

lemma lower_unit_eq_iff:
  "lower_unit a = lower_unit b \<longleftrightarrow>
     a = b \<or> (is_upper a \<and> (of_char b :: nat) = of_char a + 32) \<or>
     (is_upper b \<and> (of_char a :: nat) = of_char b + 32)"
proof -
  have "lower_unit a = lower_unit b \<longleftrightarrow>
      (of_char (lower_unit a) :: nat) = of_char (lower_unit b)"
    by simp
  also have "\<dots> \<longleftrightarrow> (of_char a :: nat) = of_char b \<or>
      (is_upper a \<and> (of_char b :: nat) = of_char a + 32) \<or>
      (is_upper b \<and> (of_char a :: nat) = of_char b + 32)"
    unfolding of_char_lower_unit by (auto simp: is_upper_def Let_def)
  finally show ?thesis by simp
qed

lemma toLowerCase_Nil [simp]: "toLowerCase [] = []"
  by (simp add: toLowerCase_def)

lemma toLowerCase_Cons [simp]: "toLowerCase (c # s) = lower_unit c # toLowerCase s"
  by (simp add: toLowerCase_def)

lemma toLowerCase_append [simp]: "toLowerCase (s @ t) = toLowerCase s @ toLowerCase t"
  by (simp add: toLowerCase_def)

lemma length_toLowerCase [simp]: "length (toLowerCase s) = length s"
  by (simp add: toLowerCase_def)

lemma toLowerCase_idem [simp]: "toLowerCase (toLowerCase s) = toLowerCase s"
  by (induction s) simp_all

lemma toLowerCase_eq_Nil [simp]: "toLowerCase s = [] \<longleftrightarrow> s = []"
  by (simp add: toLowerCase_def)

section \<open>includes\<close>

text \<open>
  \<^verbatim>\<open>s.includes(t)\<close> searches from position 0. The executable definition tries \<open>t\<close> as
  a prefix at each position of \<open>s\<close> in turn; the reference definition is the one of
  ECMAScript: some index \<open>k\<close> with \<open>k + |t| \<le> |s|\<close> at which the code units of \<open>t\<close>
  match those of \<open>s\<close>.
\<close>

fun includes_str :: "string \<Rightarrow> string \<Rightarrow> bool" where
  "includes_str [] t = (t = [])"
| "includes_str (c # s) t = (prefix t (c # s) \<or> includes_str s t)"

definition includes_spec :: "string \<Rightarrow> string \<Rightarrow> bool" where
  "includes_spec s t \<longleftrightarrow>
     (\<exists>k. k + length t \<le> length s \<and> (\<forall>j < length t. s ! (k + j) = t ! j))"

lemma includes_str_sublist: "includes_str s t \<longleftrightarrow> sublist t s"
  by (induction s) (auto simp: sublist_Cons_right)

lemma includes_spec_sublist: "includes_spec s t \<longleftrightarrow> sublist t s"
proof -
  have "take (length t) (drop k s) = t \<longleftrightarrow> (\<forall>j < length t. s ! (k + j) = t ! j)"
    if "k + length t \<le> length s" for k
    using that by (auto simp: list_eq_iff_nth_eq)
  then show ?thesis
    unfolding includes_spec_def sublist_take_drop by blast
qed

lemma includes_str_Nil [simp]: "includes_str s []"
  by (simp add: includes_str_sublist)

lemma includes_str_refl [simp]: "includes_str s s"
  by (simp add: includes_str_sublist)

section \<open>trim and truthiness\<close>

definition is_white_space :: "char \<Rightarrow> bool" where
  "is_white_space c =
     (let n = of_char c :: nat in (9 \<le> n \<and> n \<le> 13) \<or> n = 32 \<or> n = 160)"

definition trimStart :: "string \<Rightarrow> string" where
  "trimStart s = dropWhile is_white_space s"

definition trimEnd :: "string \<Rightarrow> string" where
  "trimEnd s = rev (dropWhile is_white_space (rev s))"

definition trim :: "string \<Rightarrow> string" where
  "trim s = trimEnd (trimStart s)"

definition truthy :: "string \<Rightarrow> bool" where
  "truthy s \<longleftrightarrow> s \<noteq> []"

definition or_else :: "string option \<Rightarrow> string \<Rightarrow> string" where
  "or_else v d = (case v of None \<Rightarrow> d | Some s \<Rightarrow> if truthy s then s else d)"

lemmas [js_defs] =
  is_white_space_def trimStart_def trimEnd_def trim_def truthy_def or_else_def

lemma trim_Nil [simp]: "trim [] = []"
  by (simp add: trim_def trimStart_def trimEnd_def)

lemma trimStart_eq_Nil: "trimStart s = [] \<longleftrightarrow> (\<forall>c \<in> set s. is_white_space c)"
  by (simp add: trimStart_def dropWhile_eq_Nil_conv)

lemma trimEnd_eq_Nil: "trimEnd s = [] \<longleftrightarrow> (\<forall>c \<in> set s. is_white_space c)"
  by (simp add: trimEnd_def dropWhile_eq_Nil_conv)

lemma trim_eq_Nil: "trim s = [] \<longleftrightarrow> (\<forall>c \<in> set s. is_white_space c)"
proof
  assume "trim s = []"
  then have "\<forall>c \<in> set (dropWhile is_white_space s). is_white_space c"
    by (simp add: trim_def trimEnd_eq_Nil trimStart_def)
  then have "dropWhile is_white_space s = []"
    using hd_dropWhile_not [of is_white_space s] hd_in_set by blast
  then show "\<forall>c \<in> set s. is_white_space c"
    by (simp add: dropWhile_eq_Nil_conv)
next
  assume "\<forall>c \<in> set s. is_white_space c"
  then have "trimStart s = []" by (simp add: trimStart_eq_Nil)
  then show "trim s = []" by (simp add: trim_def trimEnd_def)
qed

lemma or_else_simps [simp]:
  "or_else None d = d"
  "or_else (Some []) d = d"
  "or_else (Some (c # s)) d = c # s"
  by (simp_all add: or_else_def truthy_def)

end
