(* ===== verification/Note_Model.thy ===== *)
theory Note_Model
  imports JS_String
begin

text \<open>
  The data that \<^verbatim>\<open>src/src/App.js\<close> passes around. A note is the JSON object that the
  store returns; the client reads its fields \<^verbatim>\<open>id\<close>, \<^verbatim>\<open>title\<close>, \<^verbatim>\<open>content\<close>,
  \<^verbatim>\<open>isPublic\<close> and \<^verbatim>\<open>createdAt\<close> and never writes them. The object
  \<^verbatim>\<open>{ title, content, isPublic }\<close> that the editor emits and that \<^verbatim>\<open>saveNote\<close> sends
  is the record \<open>noteData\<close>; a \<open>Note\<close> extends it, so the field selectors are shared.
  The field \<^verbatim>\<open>id\<close> is \<open>note_id\<close> here (\<open>id\<close> is the identity function of HOL); it
  holds the identifier as a template literal renders it, so that \<^verbatim>\<open>!==\<close> on two
  identifiers of the same JSON type is inequality of the renderings.

  The theory also holds the two list operations of the controller that do not depend on
  its state: the predicate of the search filter and the removal of a note by identifier,
  with the invariant of the specification that identifiers are unique in a list.

  Three definitions are not translations of code but vocabulary of the statements:
  \<open>lookup_note\<close> reads a note list as a finite map from identifiers to notes (the
  client itself never looks a note up by identifier), and \<open>same_letter\<close> and
  \<open>occurs_up_to_case\<close> say what a search that ignores case has to find, without
  reference to the string operations the code calls.
\<close>

section \<open>Notes\<close>

record noteData =
  title :: string
  content :: string
  isPublic :: bool

record Note = noteData +
  note_id :: ident
  createdAt :: string

definition data_of :: "Note \<Rightarrow> noteData" where
  "data_of n = \<lparr>title = title n, content = content n, isPublic = isPublic n\<rparr>"

lemma noteData_eta [simp]:
  "\<lparr>title = title d, content = content d, isPublic = isPublic d\<rparr> = (d :: noteData)"
  by (cases d) simp

definition note_ids :: "Note list \<Rightarrow> ident list" where
  "note_ids ns = map note_id ns"

definition unique_ids :: "Note list \<Rightarrow> bool" where
  "unique_ids ns \<longleftrightarrow> distinct (note_ids ns)"

text \<open>
  The note that a list holds under an identifier, if any. This is a specification
  function: statements use it to say what a list means as a table of notes.
\<close>

definition lookup_note :: "Note list \<Rightarrow> ident \<Rightarrow> Note option" where
  "lookup_note ns i = find (\<lambda>n. note_id n = i) ns"

section \<open>The search predicate\<close>

text \<open>
  The callback of \<^verbatim>\<open>notes.filter\<close> in the definition of \<^verbatim>\<open>filteredNotes\<close>: the
  lower-cased title or the lower-cased content contains the lower-cased search term.
\<close>

definition matches :: "string \<Rightarrow> 'a noteData_scheme \<Rightarrow> bool" where
  "matches searchTerm n \<longleftrightarrow>
     includes_str (toLowerCase (title n)) (toLowerCase searchTerm) \<or>
     includes_str (toLowerCase (content n)) (toLowerCase searchTerm)"

definition filter_notes :: "string \<Rightarrow> Note list \<Rightarrow> Note list" where
  "filter_notes searchTerm ns = filter (matches searchTerm) ns"

text \<open>
  What the search is to find. Two code units are the same letter when they are equal or
  one is the capital of the other (the capital is 32 below the small letter); a term
  occurs in a text up to case when at some position of the text every code unit of the
  term meets the same letter.
\<close>

definition same_letter :: "char \<Rightarrow> char \<Rightarrow> bool" where
  "same_letter a b \<longleftrightarrow>
     a = b \<or> (is_upper a \<and> (of_char b :: nat) = of_char a + 32) \<or>
     (is_upper b \<and> (of_char a :: nat) = of_char b + 32)"

definition occurs_up_to_case :: "string \<Rightarrow> string \<Rightarrow> bool" where
  "occurs_up_to_case t s \<longleftrightarrow>
     (\<exists>k. k + length t \<le> length s \<and> (\<forall>j < length t. same_letter (s ! (k + j)) (t ! j)))"

section \<open>Removal by identifier\<close>

text \<open>The list that \<^verbatim>\<open>deleteNote\<close> stores: \<^verbatim>\<open>notes.filter(note => note.id !== id)\<close>.\<close>

definition without_id :: "ident \<Rightarrow> Note list \<Rightarrow> Note list" where
  "without_id i ns = filter (\<lambda>note. note_id note \<noteq> i) ns"

lemmas [model_defs] =
  data_of_def note_ids_def unique_ids_def lookup_note_def matches_def filter_notes_def
  without_id_def

section \<open>Properties of the search\<close>

lemma matches_empty [simp]: "matches [] n"
  by (simp add: matches_def)

lemma filter_notes_empty [simp]: "filter_notes [] ns = ns"
  by (simp add: filter_notes_def)

lemma matches_case_term [simp]: "matches (toLowerCase t) n = matches t n"
  by (simp add: matches_def)

lemma matches_case_title [simp]: "matches t (n\<lparr>title := toLowerCase (title n)\<rparr>) = matches t n"
  by (simp add: matches_def)

lemma matches_title_self [simp]: "matches (title n) n"
  by (simp add: matches_def)

lemma matches_content_self [simp]: "matches (content n) n"
  by (simp add: matches_def)

lemma matches_sublist:
  "matches t n \<longleftrightarrow>
     sublist (toLowerCase t) (toLowerCase (title n)) \<or>
     sublist (toLowerCase t) (toLowerCase (content n))"
  by (simp add: matches_def includes_str_sublist)

lemma occurs_up_to_case_Nil [simp]: "occurs_up_to_case t [] \<longleftrightarrow> t = []"
  by (auto simp: occurs_up_to_case_def)

lemma includes_lower_iff:
  "includes_str (toLowerCase s) (toLowerCase t) \<longleftrightarrow> occurs_up_to_case t s"
proof -
  have "toLowerCase s ! (k + j) = toLowerCase t ! j \<longleftrightarrow> same_letter (s ! (k + j)) (t ! j)"
    if "k + length t \<le> length s" and "j < length t" for k j
    using that by (simp add: toLowerCase_def lower_unit_eq_iff same_letter_def)
  then show ?thesis
    unfolding includes_str_sublist includes_spec_sublist [symmetric]
      includes_spec_def occurs_up_to_case_def length_toLowerCase
    by blast
qed

lemma set_filter_notes [simp]: "set (filter_notes t ns) = {n \<in> set ns. matches t n}"
  by (simp add: filter_notes_def)

lemma sublist_filter_notes: "subseq (filter_notes t ns) ns"
  by (simp add: filter_notes_def)

lemma filter_notes_idem [simp]: "filter_notes t (filter_notes t ns) = filter_notes t ns"
  by (simp add: filter_notes_def)

lemma filter_notes_append [simp]:
  "filter_notes t (ns @ ms) = filter_notes t ns @ filter_notes t ms"
  by (simp add: filter_notes_def)

lemma filter_notes_spec:
  "filter_notes t ns =
     filter (\<lambda>n. includes_spec (toLowerCase (title n)) (toLowerCase t) \<or>
                 includes_spec (toLowerCase (content n)) (toLowerCase t)) ns"
  unfolding filter_notes_def
  by (rule filter_cong) (simp_all add: matches_def includes_str_sublist includes_spec_sublist)

lemma without_id_remove1:
  "unique_ids ns \<Longrightarrow> n \<in> set ns \<Longrightarrow> without_id (note_id n) ns = remove1 n ns"
proof (induction ns)
  case Nil
  then show ?case by simp
next
  case (Cons m ns)
  show ?case
  proof (cases "m = n")
    case True
    with Cons.prems(1) have "note_id n \<notin> note_id ` set ns"
      by (simp add: unique_ids_def note_ids_def)
    with True show ?thesis by (simp add: without_id_def filter_neq_absent)
  next
    case False
    with Cons.prems have "note_id m \<noteq> note_id n" and "unique_ids ns" and "n \<in> set ns"
      by (auto simp: unique_ids_def note_ids_def)
    with False Cons.IH show ?thesis by (simp add: without_id_def)
  qed
qed

lemma unique_ids_filter_notes: "unique_ids ns \<Longrightarrow> unique_ids (filter_notes t ns)"
  by (simp add: unique_ids_def note_ids_def filter_notes_def distinct_key_filter)

section \<open>Properties of the removal\<close>

lemma note_ids_without_id: "note_ids (without_id i ns) = removeAll i (note_ids ns)"
  by (induction ns) (auto simp: note_ids_def without_id_def)

lemma id_notin_without_id [simp]: "i \<notin> set (note_ids (without_id i ns))"
  by (simp add: note_ids_without_id)

lemma set_without_id [simp]: "set (without_id i ns) = {n \<in> set ns. note_id n \<noteq> i}"
  by (simp add: without_id_def)

lemma without_id_absent: "i \<notin> set (note_ids ns) \<Longrightarrow> without_id i ns = ns"
  unfolding note_ids_def without_id_def set_map by (rule filter_neq_absent)

lemma without_id_idem [simp]: "without_id i (without_id i ns) = without_id i ns"
  by (simp add: without_id_def)

lemma without_id_commute: "without_id i (without_id j ns) = without_id j (without_id i ns)"
  by (auto simp: without_id_def intro: filter_cong)

lemma unique_ids_without_id: "unique_ids ns \<Longrightarrow> unique_ids (without_id i ns)"
  by (simp add: unique_ids_def note_ids_def without_id_def distinct_key_filter)

lemma length_without_id:
  "unique_ids ns \<Longrightarrow> i \<in> set (note_ids ns) \<Longrightarrow> Suc (length (without_id i ns)) = length ns"
  unfolding unique_ids_def note_ids_def without_id_def set_map
  by (rule length_filter_neq_distinct)

lemma filter_notes_without_id:
  "filter_notes t (without_id i ns) = without_id i (filter_notes t ns)"
  by (auto simp: filter_notes_def without_id_def intro: filter_cong)

section \<open>A note list as a table\<close>

lemma lookup_note_Some: "lookup_note ns i = Some n \<Longrightarrow> n \<in> set ns \<and> note_id n = i"
  by (auto simp: lookup_note_def find_Some_iff)

lemma lookup_note_None: "lookup_note ns i = None \<longleftrightarrow> i \<notin> set (note_ids ns)"
  by (auto simp: lookup_note_def note_ids_def find_None_iff)

lemma lookup_note_unique:
  "unique_ids ns \<Longrightarrow> n \<in> set ns \<Longrightarrow> lookup_note ns (note_id n) = Some n"
proof (induction ns)
  case Nil
  then show ?case by simp
next
  case (Cons m ns)
  then show ?case
    by (auto simp: lookup_note_def unique_ids_def note_ids_def)
qed

section \<open>Main properties\<close>

text \<open>
  C36 (functional). The search ignores case on both sides: lower-casing the search term,
  or the title and the content of the note, does not change whether the note matches.
  The empty term matches every note, and a note matches its own title and content.
\<close>

theorem search_case_insensitive:
  "matches (toLowerCase t) n = matches t n \<and>
   matches t (n\<lparr>title := toLowerCase (title n), content := toLowerCase (content n)\<rparr>) = matches t n \<and>
   matches [] n \<and> matches (title n) n \<and> matches (content n) n"
  by (simp add: matches_def)

text \<open>
  C35 (functional). The list that \<^verbatim>\<open>deleteNote\<close> stores,
  \<^verbatim>\<open>notes.filter(note => note.id !== id)\<close>: no note with the identifier is left,
  every other note is kept as it is and in its place, and when identifiers are unique
  the list gets shorter by exactly one.
\<close>

theorem without_id_spec:
  "i \<notin> set (note_ids (without_id i ns)) \<and>
   set (without_id i ns) = {n \<in> set ns. note_id n \<noteq> i} \<and>
   subseq (without_id i ns) ns \<and>
   (unique_ids ns \<and> i \<in> set (note_ids ns) \<longrightarrow> Suc (length (without_id i ns)) = length ns)"
  by (simp add: length_without_id) (simp add: without_id_def)

theorem without_id_spec_witness:
  "without_id ''1'' [\<lparr>title = ''a'', content = ''x'', isPublic = False, note_id = ''1'', createdAt = ''t''\<rparr>,
                     \<lparr>title = ''b'', content = ''y'', isPublic = True, note_id = ''2'', createdAt = ''u''\<rparr>]
     = [\<lparr>title = ''b'', content = ''y'', isPublic = True, note_id = ''2'', createdAt = ''u''\<rparr>] \<and>
   Suc (length (without_id ''1''
     [\<lparr>title = ''a'', content = ''x'', isPublic = False, note_id = ''1'', createdAt = ''t''\<rparr>,
      \<lparr>title = ''b'', content = ''y'', isPublic = True, note_id = ''2'', createdAt = ''u''\<rparr>])) = 2"
  using without_id_spec [of "''1''"
      "[\<lparr>title = ''a'', content = ''x'', isPublic = False, note_id = ''1'', createdAt = ''t''\<rparr>,
        \<lparr>title = ''b'', content = ''y'', isPublic = True, note_id = ''2'', createdAt = ''u''\<rparr>]"]
  by (simp add: without_id_def unique_ids_def note_ids_def)

text \<open>
  C23 (equivalence). The search of \<^verbatim>\<open>filteredNotes\<close> finds what a search that
  ignores case has to find, and nothing else: a note matches a term exactly when the
  term occurs in its title or in its content at some position, code unit by code unit,
  where a capital letter and its small letter count as the same. The right-hand side
  does not mention \<^verbatim>\<open>toLowerCase\<close> or \<^verbatim>\<open>includes\<close>; a filter that lower-cases
  only one side, or that looks at the title alone, does not satisfy the equation.
\<close>

theorem search_matches_up_to_case:
  "matches t n \<longleftrightarrow> occurs_up_to_case t (title n) \<or> occurs_up_to_case t (content n)"
  by (simp add: matches_def includes_lower_iff)

theorem search_matches_up_to_case_witness:
  "occurs_up_to_case ''MILK'' ''Buy milk'' \<and>
   \<not> occurs_up_to_case ''bread'' ''Buy milk'' \<and>
   occurs_up_to_case ''EGGS'' ''two Eggs''"
  using
    search_matches_up_to_case [of "''MILK''" "\<lparr>title = ''Buy milk'', content = [], isPublic = False\<rparr>"]
    search_matches_up_to_case [of "''bread''" "\<lparr>title = ''Buy milk'', content = ''Buy milk'', isPublic = False\<rparr>"]
    search_matches_up_to_case [of "''EGGS''" "\<lparr>title = [], content = ''two Eggs'', isPublic = False\<rparr>"]
  by (simp add: matches_def js_defs)

end
