(* ===== verification/Notification.thy ===== *)
theory Notification
  imports Note_Model
begin

text \<open>
  The notification presenter of \<^verbatim>\<open>src/src/App.js\<close>: the state variable
  \<^verbatim>\<open>notification\<close>, the function \<^verbatim>\<open>showNotification\<close> and the toast at the end of
  the rendered tree. \<^verbatim>\<open>showNotification\<close> stores the message and starts a timer of
  3000 ms whose callback stores \<^verbatim>\<open>null\<close>; the timers already running are left alone.

  The browser's timer queue is part of the state: \<open>now\<close> is the clock in milliseconds
  and \<open>timers\<close> holds the deadline of every timer that has been started and has not
  fired, in the order they were started. Time passes by \<open>elapse\<close>, which moves the clock
  and runs the callback of each timer whose deadline has been reached: timers are ideal,
  they fire at their deadline and before anything that happens later. The record is
  extensible, so the operations here act on the controller's state unchanged.
\<close>

section \<open>State\<close>

datatype kind = Success | Error

record toast =
  message :: string
  type :: kind

record toast_state =
  notification :: "toast option"
  timers :: "millis list"
  now :: millis

definition timeout_ms :: millis where
  "timeout_ms = 3000"

section \<open>Operations\<close>

text \<open>
  \<^verbatim>\<open>showNotification(message, type = 'success')\<close>: the second argument is optional,
  \<open>None\<close> is the call that leaves it out.
\<close>

definition setNotification :: "toast option \<Rightarrow> 'a toast_state_scheme \<Rightarrow> 'a toast_state_scheme" where
  "setNotification v s = s\<lparr>notification := v\<rparr>"

definition setTimeout :: "millis \<Rightarrow> 'a toast_state_scheme \<Rightarrow> 'a toast_state_scheme" where
  "setTimeout delay s = s\<lparr>timers := timers s @ [now s + delay]\<rparr>"

definition showNotification ::
  "string \<Rightarrow> kind option \<Rightarrow> 'a toast_state_scheme \<Rightarrow> 'a toast_state_scheme" where
  "showNotification msg type_arg s =
     setTimeout timeout_ms
       (setNotification
          (Some \<lparr>message = msg, type = (case type_arg of None \<Rightarrow> Success | Some k \<Rightarrow> k)\<rparr>) s)"

text \<open>The callback of a timer, and the passing of \<open>d\<close> milliseconds.\<close>

definition timer_fired :: "'a toast_state_scheme \<Rightarrow> 'a toast_state_scheme" where
  "timer_fired s = setNotification None s"

definition due :: "millis \<Rightarrow> 'a toast_state_scheme \<Rightarrow> millis list" where
  "due t s = filter (\<lambda>deadline. deadline \<le> t) (timers s)"

definition elapse :: "millis \<Rightarrow> 'a toast_state_scheme \<Rightarrow> 'a toast_state_scheme" where
  "elapse d s =
     (let t = now s + d
      in (fold (\<lambda>_. timer_fired) (due t s) s)
           \<lparr>timers := filter (\<lambda>deadline. t < deadline) (timers s), now := t\<rparr>)"

section \<open>The rendered toast\<close>

text \<open>
  \<^verbatim>\<open>{notification && <div className={`notification ${notification.type}`}> ...\<close>: the
  class name and the text, when a notification is set.
\<close>

definition kind_name :: "kind \<Rightarrow> string" where
  "kind_name k = (case k of Success \<Rightarrow> ''success'' | Error \<Rightarrow> ''error'')"

definition toast_view :: "'a toast_state_scheme \<Rightarrow> (string \<times> string) option" where
  "toast_view s =
     (case notification s of
        None \<Rightarrow> None
      | Some n \<Rightarrow> Some (''notification '' @ kind_name (type n), message n))"

lemmas [toast_defs] =
  timeout_ms_def setNotification_def setTimeout_def showNotification_def timer_fired_def
  due_def elapse_def kind_name_def toast_view_def

section \<open>Invariant of the timer queue\<close>

text \<open>
  Deadlines are in the future, at most one timeout away, and in the order the timers
  were started; a visible notification has a timer that will clear it.
\<close>

definition timers_ok :: "'a toast_state_scheme \<Rightarrow> bool" where
  "timers_ok s \<longleftrightarrow>
     sorted (timers s) \<and>
     (\<forall>t \<in> set (timers s). now s < t \<and> t \<le> now s + timeout_ms) \<and>
     (notification s \<noteq> None \<longrightarrow> timers s \<noteq> [])"

lemmas [inv_defs] = timers_ok_def

section \<open>Effect of the operations\<close>

lemma fold_timer_fired:
  "fold (\<lambda>_. timer_fired) ds s = (if ds = [] then s else setNotification None s)"
  by (induction ds arbitrary: s) (auto simp: timer_fired_def setNotification_def)

lemma notification_show [simp]:
  "notification (showNotification msg k s) =
     Some \<lparr>message = msg, type = (case k of None \<Rightarrow> Success | Some k' \<Rightarrow> k')\<rparr>"
  by (simp add: showNotification_def setTimeout_def setNotification_def)

lemma timers_show [simp]:
  "timers (showNotification msg k s) = timers s @ [now s + timeout_ms]"
  by (simp add: showNotification_def setTimeout_def setNotification_def)

lemma now_show [simp]: "now (showNotification msg k s) = now s"
  by (simp add: showNotification_def setTimeout_def setNotification_def)

lemma more_show [simp]:
  "toast_state.more (showNotification msg k s) = toast_state.more s"
  by (simp add: showNotification_def setTimeout_def setNotification_def)

lemma show_supersedes [simp]:
  "notification (showNotification m2 k2 (showNotification m1 k1 s)) =
     notification (showNotification m2 k2 s)"
  by simp

lemma notification_elapse:
  "notification (elapse d s) = (if due (now s + d) s = [] then notification s else None)"
  by (simp add: elapse_def Let_def fold_timer_fired setNotification_def)

lemma timers_elapse [simp]:
  "timers (elapse d s) = filter (\<lambda>deadline. now s + d < deadline) (timers s)"
  by (simp add: elapse_def Let_def)

lemma now_elapse [simp]: "now (elapse d s) = now s + d"
  by (simp add: elapse_def Let_def)

lemma more_elapse [simp]: "toast_state.more (elapse d s) = toast_state.more s"
  by (simp add: elapse_def Let_def fold_timer_fired setNotification_def)

lemma elapse_zero: "timers_ok s \<Longrightarrow> elapse 0 s = s"
proof -
  assume ok: "timers_ok s"
  then have "due (now s) s = []"
    by (auto simp: due_def timers_ok_def filter_empty_conv)
  moreover from ok have "filter (\<lambda>deadline. now s < deadline) (timers s) = timers s"
    by (auto simp: timers_ok_def filter_id_conv)
  ultimately show ?thesis
    by (simp add: elapse_def)
qed

lemma elapse_add: "elapse e (elapse d s) = elapse (d + e) s"
proof -
  have n: "notification (elapse e (elapse d s)) = notification (elapse (d + e) s)"
    by (auto simp: notification_elapse due_def filter_empty_conv add.assoc)
  have t: "timers (elapse e (elapse d s)) = timers (elapse (d + e) s)"
    by (auto simp: add.assoc intro: filter_cong)
  have "now (elapse e (elapse d s)) = now (elapse (d + e) s)"
    by simp
  with n t show ?thesis
    by (intro toast_state.equality) simp_all
qed

section \<open>Preservation of the invariant\<close>

lemma timers_ok_show: "timers_ok s \<Longrightarrow> timers_ok (showNotification msg k s)"
  by (auto simp: timers_ok_def timeout_ms_def sorted_append)

lemma timers_ok_elapse: "timers_ok s \<Longrightarrow> timers_ok (elapse d s)"
  unfolding timers_ok_def
  by (auto simp: notification_elapse due_def filter_empty_conv sorted_wrt_filter not_le ex_in_conv)

lemma timers_ok_setNotification_None: "timers_ok s \<Longrightarrow> timers_ok (setNotification None s)"
  by (simp add: timers_ok_def setNotification_def)

section \<open>Dismissal\<close>

lemma elapse_timeout_clears:
  "timers_ok s \<Longrightarrow> notification (elapse timeout_ms s) = None \<and> timers (elapse timeout_ms s) = []"
  by (auto simp: timers_ok_def notification_elapse due_def filter_empty_conv)

lemma elapse_late_clears:
  assumes "timers_ok s" and "timeout_ms \<le> d"
  shows "notification (elapse d s) = None \<and> timers (elapse d s) = []"
proof -
  from assms have all: "\<forall>t\<in>set (timers s). t \<le> now s + d" by (auto simp: timers_ok_def)
  then have "due (now s + d) s = timers s" by (simp add: due_def)
  moreover from all have "timers (elapse d s) = []" by (auto simp: filter_empty_conv)
  ultimately show ?thesis using assms(1) by (auto simp: notification_elapse timers_ok_def)
qed

lemma fresh_visible:
  assumes "timers s = []" and "d < timeout_ms"
  shows "notification (elapse d (showNotification msg k s)) =
           notification (showNotification msg k s)"
  using assms by (simp add: notification_elapse due_def)

lemma fresh_dismissed:
  assumes "timers s = []" and "timeout_ms \<le> d"
  shows "notification (elapse d (showNotification msg k s)) = None"
  using assms by (simp add: notification_elapse due_def)

section \<open>Main properties\<close>

text \<open>
  C33 (bounds). A notification that is shown while no timer is running stays on screen
  for exactly 3000 ms: it is still there after any shorter time, and gone after 3000 ms
  or more. The message and the type are the ones passed, the type \<^verbatim>\<open>'success'\<close> when
  the call leaves it out.
\<close>

theorem notification_lifetime:
  assumes "timers s = []"
  shows "(d < timeout_ms \<longrightarrow>
            notification (elapse d (showNotification msg k s)) =
              Some \<lparr>message = msg, type = (case k of None \<Rightarrow> Success | Some k' \<Rightarrow> k')\<rparr>) \<and>
         (timeout_ms \<le> d \<longrightarrow> notification (elapse d (showNotification msg k s)) = None)"
  using assms by (simp add: fresh_visible fresh_dismissed)

theorem notification_lifetime_witness:
  "notification (elapse 2999 (showNotification ''Note created!'' None
      \<lparr>notification = None, timers = [], now = 0\<rparr>))
     = Some \<lparr>message = ''Note created!'', type = Success\<rparr> \<and>
   notification (elapse 3000 (showNotification ''Note created!'' None
      \<lparr>notification = None, timers = [], now = 0\<rparr>)) = None"
  using notification_lifetime [of "\<lparr>notification = None, timers = [], now = 0\<rparr>" 2999 "''Note created!''" None]
    notification_lifetime [of "\<lparr>notification = None, timers = [], now = 0\<rparr>" 3000 "''Note created!''" None]
  by (simp add: timeout_ms_def)

text \<open>
  C21 (bounds). A notification that replaces another one inherits the older timer: when a
  second notification is shown \<open>d1 < 3000\<close> ms after a first, it disappears as soon as
  3000 ms have passed since the first, that is after \<open>3000 - d1\<close> ms and not after the
  3000 ms of its own timer. \<^verbatim>\<open>showNotification\<close> never cancels a running timer.
\<close>

theorem superseding_notification_cut_short:
  assumes "timers s = []" and "d1 < timeout_ms" and "timeout_ms \<le> d1 + d2"
  shows "notification (elapse d2 (showNotification m2 k2 (elapse d1 (showNotification m1 k1 s))))
           = None"
  using assms by (auto simp: notification_elapse due_def)

theorem superseding_notification_cut_short_witness:
  "notification (elapse 1000 (showNotification ''Note deleted!'' None
      (elapse 2000 (showNotification ''Note created!'' None
        \<lparr>notification = None, timers = [], now = 0\<rparr>)))) = None \<and>
   1000 < timeout_ms"
  using superseding_notification_cut_short
    [of "\<lparr>notification = None, timers = [], now = 0\<rparr>" 2000 1000 "''Note deleted!''" None
      "''Note created!''" None]
  by (simp add: timeout_ms_def)

end
