(* ===== verification/Note_Card.thy ===== *)
theory Note_Card
  imports Note_Model
begin

text \<open>
  The component \<^verbatim>\<open>NoteCard\<close> of \<^verbatim>\<open>src/src/App.js\<close>. It keeps no state: from a note
  and three callbacks it renders the title, the row of action buttons, the content and
  a footer with the creation date and, for a public note, a badge. The view is the
  record \<open>card_view\<close>; the buttons are listed in the order of the rendered tree. A click
  on a button stops the propagation of the event and calls the button's callback, so the
  result of a click is the callback together with the flag of the propagation.
  \<^verbatim>\<open>toLocaleDateString\<close> depends on the locale of the browser and is a parameter.
\<close>

section \<open>View\<close>

datatype card_button = ShareBtn | EditBtn | DeleteBtn

datatype card_callback = OnShare | OnEdit | OnDelete

record card_view =
  card_title :: string
  card_buttons :: "card_button list"
  card_content :: string
  card_date :: string
  card_badge :: bool

definition NoteCard :: "(string \<Rightarrow> string) \<Rightarrow> Note \<Rightarrow> card_view" where
  "NoteCard toLocaleDateString note =
     \<lparr>card_title = title note,
      card_buttons = (if isPublic note then [ShareBtn] else []) @ [EditBtn, DeleteBtn],
      card_content = content note,
      card_date = toLocaleDateString (createdAt note),
      card_badge = isPublic note\<rparr>"

definition note_buttons :: "Note \<Rightarrow> card_button list" where
  "note_buttons note = card_buttons (NoteCard (\<lambda>d. d) note)"

section \<open>Clicks\<close>

record click =
  callback :: card_callback
  propagates :: bool

definition onClick :: "card_button \<Rightarrow> click" where
  "onClick b =
     \<lparr>callback = (case b of ShareBtn \<Rightarrow> OnShare | EditBtn \<Rightarrow> OnEdit | DeleteBtn \<Rightarrow> OnDelete),
      propagates = False\<rparr>"

definition card_click :: "card_button \<Rightarrow> Note \<Rightarrow> click option" where
  "card_click b note = (if b \<in> set (note_buttons note) then Some (onClick b) else None)"

lemmas [view_defs] = NoteCard_def note_buttons_def onClick_def card_click_def

section \<open>Properties\<close>

lemma card_buttons_fmt [simp]: "card_buttons (NoteCard fmt note) = note_buttons note"
  by (simp add: NoteCard_def note_buttons_def)

lemma share_button_iff_public [simp]: "ShareBtn \<in> set (note_buttons note) \<longleftrightarrow> isPublic note"
  by (simp add: note_buttons_def NoteCard_def)

lemma edit_delete_always [simp]:
  "EditBtn \<in> set (note_buttons note)" "DeleteBtn \<in> set (note_buttons note)"
  by (simp_all add: note_buttons_def NoteCard_def)

lemma badge_iff_share: "card_badge (NoteCard fmt note) \<longleftrightarrow> ShareBtn \<in> set (note_buttons note)"
  by (simp add: NoteCard_def)

lemma distinct_note_buttons [simp]: "distinct (note_buttons note)"
  by (simp add: note_buttons_def NoteCard_def)

lemma card_click_share: "card_click ShareBtn note = (if isPublic note then Some (onClick ShareBtn) else None)"
  by (simp add: card_click_def)

lemma card_click_stops: "card_click b note = Some c \<Longrightarrow> \<not> propagates c"
  by (auto simp: card_click_def onClick_def split: if_splits)

lemma card_click_callback_inj:
  "card_click b note = Some c \<Longrightarrow> card_click b' note = Some c' \<Longrightarrow>
     callback c = callback c' \<Longrightarrow> b = b'"
  by (cases b; cases b') (auto simp: card_click_def onClick_def split: if_splits)

lemma card_shows_note:
  "card_title (NoteCard fmt note) = title note \<and> card_content (NoteCard fmt note) = content note"
  by (simp add: NoteCard_def)

section \<open>Main properties\<close>

text \<open>
  C26 (safety). A card offers the share button exactly when its note is public, and
  shows the badge under the same condition; the edit and delete buttons are always
  there. A click on a button that is not rendered does nothing, and no click on a
  button propagates to an ancestor.
\<close>

theorem share_action_gated:
  "(ShareBtn \<in> set (card_buttons (NoteCard fmt note)) \<longleftrightarrow> isPublic note) \<and>
   (card_badge (NoteCard fmt note) \<longleftrightarrow> isPublic note) \<and>
   EditBtn \<in> set (card_buttons (NoteCard fmt note)) \<and>
   DeleteBtn \<in> set (card_buttons (NoteCard fmt note)) \<and>
   (card_click ShareBtn note = None \<longleftrightarrow> \<not> isPublic note) \<and>
   (\<forall>b c. card_click b note = Some c \<longrightarrow> \<not> propagates c)"
  by (auto simp: card_click_share card_click_stops NoteCard_def)

theorem share_action_gated_witness:
  "card_click ShareBtn
     \<lparr>title = ''a'', content = ''x'', isPublic = True, note_id = ''1'', createdAt = ''t''\<rparr>
     = Some \<lparr>callback = OnShare, propagates = False\<rparr> \<and>
   card_click ShareBtn
     \<lparr>title = ''a'', content = ''x'', isPublic = False, note_id = ''1'', createdAt = ''t''\<rparr> = None"
  using share_action_gated
    [of "\<lambda>d. d" "\<lparr>title = ''a'', content = ''x'', isPublic = True, note_id = ''1'', createdAt = ''t''\<rparr>"]
    share_action_gated
    [of "\<lambda>d. d" "\<lparr>title = ''a'', content = ''x'', isPublic = False, note_id = ''1'', createdAt = ''t''\<rparr>"]
  by (simp add: card_click_def onClick_def)

end
