(* ===== verification/Note_Editor.thy ===== *)
theory Note_Editor
  imports Note_Model
begin

text \<open>
  The component \<^verbatim>\<open>NoteEditor\<close> of \<^verbatim>\<open>src/src/App.js\<close>: a modal form with three
  state variables \<^verbatim>\<open>title\<close>, \<^verbatim>\<open>content\<close> and \<^verbatim>\<open>isPublic\<close>, which together are a
  \<open>noteData\<close>. \<^verbatim>\<open>useState\<close> reads its initial value when the component is mounted
  and never again, so the draft is set by \<open>editor_init\<close> at the mount and afterwards
  changed by the input handlers only. The prop \<^verbatim>\<open>note\<close> selects the mode: edit when a
  note is passed, create otherwise. \<^verbatim>\<open>handleSave\<close> calls \<^verbatim>\<open>onSave\<close> with the draft
  when the trimmed title is truthy; the save button is disabled by the same test.
\<close>

section \<open>State and handlers\<close>

definition editor_init :: "Note option \<Rightarrow> noteData" where
  "editor_init note =
     \<lparr>title = or_else (map_option title note) [],
      content = or_else (map_option content note) [],
      isPublic = (case note of None \<Rightarrow> False | Some n \<Rightarrow> isPublic n)\<rparr>"

definition setTitle :: "string \<Rightarrow> noteData \<Rightarrow> noteData" where
  "setTitle v d = d\<lparr>title := v\<rparr>"

definition setContent :: "string \<Rightarrow> noteData \<Rightarrow> noteData" where
  "setContent v d = d\<lparr>content := v\<rparr>"

definition setIsPublic :: "bool \<Rightarrow> noteData \<Rightarrow> noteData" where
  "setIsPublic v d = d\<lparr>isPublic := v\<rparr>"

datatype editor_callback = OnSave noteData | OnClose

definition handleSave :: "noteData \<Rightarrow> editor_callback option" where
  "handleSave d =
     (if truthy (trim (title d))
      then Some (OnSave \<lparr>title = title d, content = content d, isPublic = isPublic d\<rparr>)
      else None)"

section \<open>View\<close>

record editor_view =
  ed_heading :: string
  ed_title :: string
  ed_content :: string
  ed_checked :: bool
  ed_save_label :: string
  ed_save_disabled :: bool

definition save_disabled :: "noteData \<Rightarrow> bool" where
  "save_disabled d \<longleftrightarrow> \<not> truthy (trim (title d))"

definition NoteEditor :: "Note option \<Rightarrow> noteData \<Rightarrow> editor_view" where
  "NoteEditor note d =
     \<lparr>ed_heading = (if note \<noteq> None then ''Edit Note'' else ''Create Note''),
      ed_title = title d,
      ed_content = content d,
      ed_checked = isPublic d,
      ed_save_label = (if note \<noteq> None then ''Update'' else ''Create''),
      ed_save_disabled = save_disabled d\<rparr>"

section \<open>Events of the form\<close>

text \<open>
  The two close buttons (the cross and Cancel) both call \<^verbatim>\<open>onClose\<close>. A click on the
  save button reaches \<^verbatim>\<open>handleSave\<close> only when the button is not disabled.
\<close>

datatype editor_event =
    TitleInput string
  | ContentInput string
  | PublicInput bool
  | SaveClick
  | CancelClick
  | CloseClick

fun editor_step :: "editor_event \<Rightarrow> noteData \<Rightarrow> noteData \<times> editor_callback option" where
  "editor_step (TitleInput v) d = (setTitle v d, None)"
| "editor_step (ContentInput v) d = (setContent v d, None)"
| "editor_step (PublicInput v) d = (setIsPublic v d, None)"
| "editor_step SaveClick d = (d, if save_disabled d then None else handleSave d)"
| "editor_step CancelClick d = (d, Some OnClose)"
| "editor_step CloseClick d = (d, Some OnClose)"

lemmas [view_defs] =
  editor_init_def setTitle_def setContent_def setIsPublic_def handleSave_def
  save_disabled_def NoteEditor_def

section \<open>Properties\<close>

lemma editor_init_None [simp]:
  "editor_init None = \<lparr>title = [], content = [], isPublic = False\<rparr>"
  by (simp add: editor_init_def)

lemma editor_init_Some [simp]: "editor_init (Some n) = data_of n"
  by (cases "title n"; cases "content n") (simp_all add: editor_init_def data_of_def)

lemma save_disabled_iff: "save_disabled d \<longleftrightarrow> trim (title d) = []"
  by (simp add: save_disabled_def truthy_def)

lemma save_disabled_white: "save_disabled d \<longleftrightarrow> (\<forall>c \<in> set (title d). is_white_space c)"
  by (simp add: save_disabled_iff trim_eq_Nil)

lemma save_disabled_frame [simp]:
  "save_disabled (setContent v d) = save_disabled d"
  "save_disabled (setIsPublic b d) = save_disabled d"
  by (simp_all add: save_disabled_def setContent_def setIsPublic_def)

lemma save_disabled_init_None [simp]: "save_disabled (editor_init None)"
  by (simp add: save_disabled_iff)

lemma handleSave_eq: "handleSave d = (if save_disabled d then None else Some (OnSave d))"
  by (simp add: handleSave_def save_disabled_def)

lemma handleSave_None_iff: "handleSave d = None \<longleftrightarrow> save_disabled d"
  by (simp add: handleSave_def save_disabled_def)

lemma handleSave_Some: "handleSave d = Some cb \<Longrightarrow> cb = OnSave d \<and> \<not> save_disabled d"
  by (auto simp: handleSave_def save_disabled_def split: if_splits)

lemma editor_step_save:
  "editor_step SaveClick d = (d, if save_disabled d then None else Some (OnSave d))"
  by (simp add: handleSave_def save_disabled_def)

lemma editor_step_OnSave:
  "editor_step ev d = (d', Some (OnSave x)) \<Longrightarrow> ev = SaveClick \<and> x = d \<and> d' = d \<and> \<not> save_disabled d"
  by (cases ev) (auto simp: handleSave_def save_disabled_def split: if_splits)

lemma editor_step_OnClose:
  "editor_step ev d = (d', Some OnClose) \<longleftrightarrow> (ev = CancelClick \<or> ev = CloseClick) \<and> d' = d"
  by (cases ev) (auto simp: handleSave_def split: if_splits)

lemma editor_view_disabled [simp]: "ed_save_disabled (NoteEditor note d) = save_disabled d"
  by (simp add: NoteEditor_def)

lemma editor_labels_agree:
  "ed_heading (NoteEditor note d) = ''Edit Note'' \<longleftrightarrow> ed_save_label (NoteEditor note d) = ''Update''"
  by (simp add: NoteEditor_def)

section \<open>Main properties\<close>

text \<open>
  C24 (functional). The save button of the editor is disabled exactly when the trimmed
  title is empty, whatever the content and the visibility flag are; \<^verbatim>\<open>handleSave\<close>
  calls \<^verbatim>\<open>onSave\<close> exactly when the button is enabled, and then with the draft as
  it is: title (not trimmed), content and flag.
\<close>

theorem save_guard:
  "(ed_save_disabled (NoteEditor note d) \<longleftrightarrow> trim (title d) = []) \<and>
   save_disabled (d\<lparr>content := c, isPublic := b\<rparr>) = save_disabled d \<and>
   handleSave d = (if save_disabled d then None else Some (OnSave d)) \<and>
   editor_step SaveClick d = (d, if save_disabled d then None else Some (OnSave d))"
  by (simp add: save_disabled_iff handleSave_def truthy_def)

text \<open>
  C25 (functional). What the save guard lets through, stated on the code units of the
  title and without \<^verbatim>\<open>trim\<close>: the button is disabled, and \<^verbatim>\<open>handleSave\<close> returns
  without a call, exactly when the title consists of white space only (tab, line feed,
  vertical tab, form feed, carriage return, space, no-break space; the empty title
  included). One code unit outside that set enables the button, and a click then emits
  the draft. A guard that tests the title without trimming it lets a title of blanks
  through and does not satisfy the equivalence.
\<close>

theorem save_needs_visible_title:
  "(save_disabled d \<longleftrightarrow> (\<forall>c \<in> set (title d). (of_char c :: nat) \<in> {9, 10, 11, 12, 13, 32, 160})) \<and>
   (handleSave d = None \<longleftrightarrow> (\<forall>c \<in> set (title d). (of_char c :: nat) \<in> {9, 10, 11, 12, 13, 32, 160})) \<and>
   (snd (editor_step SaveClick d) = Some (OnSave d) \<longleftrightarrow>
      (\<exists>c \<in> set (title d). (of_char c :: nat) \<notin> {9, 10, 11, 12, 13, 32, 160}))"
proof -
  have "is_white_space c \<longleftrightarrow> (of_char c :: nat) \<in> {9, 10, 11, 12, 13, 32, 160}" for c
    by (auto simp: is_white_space_def Let_def)
  then show ?thesis
    by (simp add: handleSave_eq save_disabled_white)
qed

theorem save_needs_visible_title_witness:
  "save_disabled \<lparr>title = ''  '', content = ''text'', isPublic = False\<rparr> \<and>
   \<not> save_disabled \<lparr>title = '' x '', content = [], isPublic = False\<rparr> \<and>
   snd (editor_step SaveClick \<lparr>title = '' x '', content = [], isPublic = False\<rparr>) =
     Some (OnSave \<lparr>title = '' x '', content = [], isPublic = False\<rparr>)"
  using save_needs_visible_title [of "\<lparr>title = ''  '', content = ''text'', isPublic = False\<rparr>"]
    save_needs_visible_title [of "\<lparr>title = '' x '', content = [], isPublic = False\<rparr>"]
  by (simp add: handleSave_eq)

text \<open>
  C37 (functional). A freshly mounted editor starts from its note: in edit mode the
  draft is the title, the content and the flag of the note, in create mode it is blank
  and cannot be saved before a title is typed. Typing changes the field typed into and
  no other.
\<close>

theorem editor_init_spec:
  "editor_init (Some n) = \<lparr>title = title n, content = content n, isPublic = isPublic n\<rparr> \<and>
   editor_init None = \<lparr>title = [], content = [], isPublic = False\<rparr> \<and>
   save_disabled (editor_init None) \<and>
   fst (editor_step (TitleInput v) d) = d\<lparr>title := v\<rparr> \<and>
   fst (editor_step (ContentInput v) d) = d\<lparr>content := v\<rparr> \<and>
   fst (editor_step (PublicInput b) d) = d\<lparr>isPublic := b\<rparr>"
  using save_disabled_init_None
  by (simp add: data_of_def setTitle_def setContent_def setIsPublic_def)

end
