(* ===== verification/Share_Modal.thy ===== *)
theory Share_Modal
  imports Note_Model
begin

text \<open>
  The component \<^verbatim>\<open>ShareModal\<close> of \<^verbatim>\<open>src/src/App.js\<close>. It computes the share link
  from \<^verbatim>\<open>window.location.origin\<close> and the identifier of its note and shows it in a
  read-only input; the copy button calls \<^verbatim>\<open>onCopy\<close> with the identifier and the cross
  calls \<^verbatim>\<open>onClose\<close>. It does not look at \<^verbatim>\<open>isPublic\<close>. The origin is a parameter.
\<close>

definition shareUrl :: "url \<Rightarrow> ident \<Rightarrow> url" where
  "shareUrl origin noteId = origin @ ''/share/'' @ noteId"

record share_view =
  share_heading :: string
  share_link :: url
  share_hint :: string

definition ShareModal :: "url \<Rightarrow> Note \<Rightarrow> share_view" where
  "ShareModal origin note =
     \<lparr>share_heading = ''Share Note'',
      share_link = shareUrl origin (note_id note),
      share_hint = ''Only public notes can be shared. Make sure your note is set to public.''\<rparr>"

datatype share_event = CopyClick | CloseShareClick

datatype share_callback = OnCopy ident | OnCloseShare

definition share_step :: "share_event \<Rightarrow> Note \<Rightarrow> share_callback" where
  "share_step ev note = (case ev of CopyClick \<Rightarrow> OnCopy (note_id note) | CloseShareClick \<Rightarrow> OnCloseShare)"

lemmas [view_defs] = shareUrl_def ShareModal_def share_step_def

lemma shareUrl_inj: "shareUrl origin i = shareUrl origin j \<longleftrightarrow> i = j"
  by (simp add: shareUrl_def)

lemma shareUrl_prefix: "prefix origin (shareUrl origin i)"
  by (simp add: shareUrl_def)

lemma shareUrl_suffix: "suffix i (shareUrl origin i)"
  by (simp add: shareUrl_def suffix_def)

lemma length_shareUrl: "length (shareUrl origin i) = length origin + 7 + length i"
  by (simp add: shareUrl_def)

lemma share_link_ignores_visibility:
  "share_link (ShareModal origin (note\<lparr>isPublic := b\<rparr>)) = share_link (ShareModal origin note)"
  by (simp add: ShareModal_def)

lemma share_link_inj:
  "share_link (ShareModal origin n) = share_link (ShareModal origin m) \<longleftrightarrow> note_id n = note_id m"
  by (simp add: ShareModal_def shareUrl_inj)

end
