(* ===== verification/App_State.thy ===== *)
theory App_State
  imports Notification Note_Card Note_Editor Share_Modal
begin

text \<open>
  The state of the component \<^verbatim>\<open>NotesApp\<close> of \<^verbatim>\<open>src/src/App.js\<close> and of the browser
  around it. The seven \<^verbatim>\<open>useState\<close> variables are fields of the record \<open>app_state\<close>
  (\<^verbatim>\<open>notes\<close> is \<open>note_list\<close>; \<^verbatim>\<open>notification\<close> comes with the parent record
  \<open>toast_state\<close>). Four more fields hold what the code reaches through the platform:
  \<^item> \<open>editor\<close>: the state variables of the mounted \<^verbatim>\<open>NoteEditor\<close>, \<open>None\<close> while it
    is not in the tree;
  \<^item> \<open>inflight\<close>: the calls of \<^verbatim>\<open>fetch\<close> that have not settled, each with the
    continuation that waits for it;
  \<^item> \<open>clipboard\<close>: the text last written by \<^verbatim>\<open>navigator.clipboard.writeText\<close>;
  \<^item> \<open>origin\<close>: \<^verbatim>\<open>window.location.origin\<close>.

  An asynchronous function runs to its first \<^verbatim>\<open>await\<close> and later from there: the rest
  of its body is a value of type \<open>pending\<close> that carries the variables the closure has
  captured (\<^verbatim>\<open>editingNote\<close> in \<^verbatim>\<open>saveNote\<close>, \<^verbatim>\<open>id\<close> and \<^verbatim>\<open>notes\<close> in
  \<^verbatim>\<open>deleteNote\<close>). What a call of \<^verbatim>\<open>fetch\<close> settles with is an \<open>outcome\<close>: the
  promise is rejected, or it resolves with a response whose \<^verbatim>\<open>ok\<close> flag and parsed
  body (\<open>None\<close> when \<^verbatim>\<open>response.json()\<close> rejects) are the fields of \<open>response\<close>.
\<close>

section \<open>Requests and their outcomes\<close>

datatype http_method = GET | POST | PUT | DELETE

record request =
  req_url :: url
  req_method :: http_method
  req_headers :: "(string \<times> string) list"
  req_body :: "noteData option"

record response =
  ok :: bool
  json :: "Note list option"

datatype outcome = Rejected | Resolved response

datatype pending =
    FetchNotes
  | SaveNote "Note option"
  | SaveNoteReload "Note option"
  | DeleteNote ident "Note list"

section \<open>State\<close>

record app_state = toast_state +
  note_list :: "Note list"
  isCreating :: bool
  editingNote :: "Note option"
  searchTerm :: string
  shareModal :: "Note option"
  loading :: bool
  editor :: "noteData option"
  inflight :: "(request \<times> pending) list"
  clipboard :: "string option"
  origin :: url

definition API_BASE_URL :: url where
  "API_BASE_URL = ''http://localhost:8081/api''"

text \<open>The initial values of the \<^verbatim>\<open>useState\<close> calls, in a browser at time 0.\<close>

definition useState_init :: "url \<Rightarrow> app_state" where
  "useState_init org =
     \<lparr>notification = None, timers = [], now = 0,
      note_list = [], isCreating = False, editingNote = None, searchTerm = [],
      shareModal = None, loading = True,
      editor = None, inflight = [], clipboard = None, origin = org\<rparr>"

section \<open>State setters\<close>

definition setNotes :: "Note list \<Rightarrow> app_state \<Rightarrow> app_state" where
  "setNotes v s = s\<lparr>note_list := v\<rparr>"

definition setIsCreating :: "bool \<Rightarrow> app_state \<Rightarrow> app_state" where
  "setIsCreating v s = s\<lparr>isCreating := v\<rparr>"

definition setEditingNote :: "Note option \<Rightarrow> app_state \<Rightarrow> app_state" where
  "setEditingNote v s = s\<lparr>editingNote := v\<rparr>"

definition setSearchTerm :: "string \<Rightarrow> app_state \<Rightarrow> app_state" where
  "setSearchTerm v s = s\<lparr>searchTerm := v\<rparr>"

definition setShareModal :: "Note option \<Rightarrow> app_state \<Rightarrow> app_state" where
  "setShareModal v s = s\<lparr>shareModal := v\<rparr>"

definition setLoading :: "bool \<Rightarrow> app_state \<Rightarrow> app_state" where
  "setLoading v s = s\<lparr>loading := v\<rparr>"

lemmas setter_defs =
  setNotes_def setIsCreating_def setEditingNote_def setSearchTerm_def setShareModal_def
  setLoading_def

section \<open>The platform\<close>

text \<open>
  \<^verbatim>\<open>fetch\<close> sends the request and returns a promise; the caller's continuation waits
  in \<open>inflight\<close>. \<^verbatim>\<open>navigator.clipboard.writeText\<close> depends on the browser, which is
  the argument \<open>access\<close>: outside a secure context \<^verbatim>\<open>navigator.clipboard\<close> is undefined
  and the call throws (\<open>Unavailable\<close>, the result \<open>None\<close>); otherwise it returns a promise
  that the code neither awaits nor catches, so a write that the browser denies
  (\<open>Denied\<close>) has no effect on the state and a write it grants (\<open>Granted\<close>) replaces
  the clipboard.
\<close>

definition fetch :: "request \<Rightarrow> pending \<Rightarrow> app_state \<Rightarrow> app_state" where
  "fetch r k s = s\<lparr>inflight := inflight s @ [(r, k)]\<rparr>"

datatype clipboard_access = Unavailable | Denied | Granted

definition writeText :: "clipboard_access \<Rightarrow> string \<Rightarrow> app_state \<Rightarrow> app_state option" where
  "writeText access text s =
     (case access of
        Unavailable \<Rightarrow> None
      | Denied \<Rightarrow> Some s
      | Granted \<Rightarrow> Some (s\<lparr>clipboard := Some text\<rparr>))"

definition take_inflight :: "nat \<Rightarrow> app_state \<Rightarrow> app_state" where
  "take_inflight i s = s\<lparr>inflight := take i (inflight s) @ drop (Suc i) (inflight s)\<rparr>"

lemmas [handler_defs] =
  API_BASE_URL_def useState_init_def setter_defs fetch_def writeText_def take_inflight_def

section \<open>Derived state\<close>

text \<open>
  The constant \<^verbatim>\<open>filteredNotes\<close> of the component body, and the condition under which
  the editor is in the tree.
\<close>

definition filteredNotes :: "app_state \<Rightarrow> Note list" where
  "filteredNotes s = filter_notes (searchTerm s) (note_list s)"

definition editor_open :: "app_state \<Rightarrow> bool" where
  "editor_open s \<longleftrightarrow> isCreating s \<or> editingNote s \<noteq> None"

definition continuations :: "app_state \<Rightarrow> pending list" where
  "continuations s = map snd (inflight s)"

lemmas [view_defs] = filteredNotes_def editor_open_def continuations_def

lemma filteredNotes_empty_term: "searchTerm s = [] \<Longrightarrow> filteredNotes s = note_list s"
  by (simp add: filteredNotes_def)

lemma filteredNotes_subseq: "subseq (filteredNotes s) (note_list s)"
  by (simp add: filteredNotes_def sublist_filter_notes)

lemma set_filteredNotes:
  "set (filteredNotes s) = {n \<in> set (note_list s). matches (searchTerm s) n}"
  by (simp add: filteredNotes_def)

lemma fields_showNotification [simp]:
  "note_list (showNotification m k s) = note_list s"
  "isCreating (showNotification m k s) = isCreating s"
  "editingNote (showNotification m k s) = editingNote s"
  "searchTerm (showNotification m k s) = searchTerm s"
  "shareModal (showNotification m k s) = shareModal s"
  "loading (showNotification m k s) = loading s"
  "editor (showNotification m k s) = editor s"
  "inflight (showNotification m k s) = inflight s"
  "clipboard (showNotification m k s) = clipboard s"
  "origin (showNotification m k s) = origin s"
  by (simp_all add: toast_defs)

lemma fields_elapse [simp]:
  "note_list (elapse d s) = note_list s"
  "isCreating (elapse d s) = isCreating s"
  "editingNote (elapse d s) = editingNote s"
  "searchTerm (elapse d s) = searchTerm s"
  "shareModal (elapse d s) = shareModal s"
  "loading (elapse d s) = loading s"
  "editor (elapse d s) = editor s"
  "inflight (elapse d s) = inflight s"
  "clipboard (elapse d s) = clipboard s"
  "origin (elapse d s) = origin s"
  by (simp_all add: toast_defs Let_def fold_timer_fired)

lemma filteredNotes_toast [simp]:
  "filteredNotes (showNotification m k s) = filteredNotes s"
  "filteredNotes (elapse d s) = filteredNotes s"
  by (simp_all add: filteredNotes_def)

lemma fields_fetch [simp]:
  "notification (fetch r k s) = notification s"
  "note_list (fetch r k s) = note_list s"
  "isCreating (fetch r k s) = isCreating s"
  "editingNote (fetch r k s) = editingNote s"
  "searchTerm (fetch r k s) = searchTerm s"
  "shareModal (fetch r k s) = shareModal s"
  "loading (fetch r k s) = loading s"
  "editor (fetch r k s) = editor s"
  "inflight (fetch r k s) = inflight s @ [(r, k)]"
  "clipboard (fetch r k s) = clipboard s"
  "origin (fetch r k s) = origin s"
  "filteredNotes (fetch r k s) = filteredNotes s"
  "editor_open (fetch r k s) = editor_open s"
  by (simp_all add: fetch_def filteredNotes_def editor_open_def)

lemma take_inflight_fetch [simp]: "take_inflight (length (inflight s)) (fetch r k s) = s"
  by (simp add: take_inflight_def fetch_def)

lemma continuations_fetch [simp]: "continuations (fetch r k s) = continuations s @ [k]"
  by (simp add: continuations_def fetch_def)

lemma continuations_take_inflight:
  "set (continuations (take_inflight i s)) \<subseteq> set (continuations s)"
  by (auto simp: continuations_def take_inflight_def dest: in_set_takeD in_set_dropD)

end
