(* ===== verification/Note_Store.thy ===== *)
theory Note_Store
  imports App_State
begin

text \<open>
  The note store, as far as the client depends on it. The service is not part of the
  sources; this theory models the HTTP contract that the design document gives for it
  (section 6): \<^verbatim>\<open>GET /notes\<close> answers with all notes, \<^verbatim>\<open>POST /notes\<close> creates a note
  from the body, \<^verbatim>\<open>PUT /notes/{id}\<close> replaces title, content and flag of the note
  with that identifier, \<^verbatim>\<open>DELETE /notes/{id}\<close> removes it. What the contract leaves
  open is fixed here in the simplest way: identifiers are the decimal numerals of a
  counter, a new note goes to the end of the list, a request for an identifier that
  the store does not have, or with a method or an address it does not know, is answered
  with a status that is not ok and changes nothing. The time stamp of a new note is
  handed to the store with the request.

  The store keeps its identifiers unique (\<open>store_inv\<close>), and it understands every
  request that the client builds (\<open>route_of\<close> inverts the client's addresses).
\<close>

section \<open>Decimal numerals\<close>

definition digit_char :: "nat \<Rightarrow> char" where
  "digit_char d = char_of (48 + d)"

definition digit_value :: "char \<Rightarrow> nat" where
  "digit_value c = of_char c - 48"

fun decimal :: "nat \<Rightarrow> string" where
  "decimal n = (if n < 10 then [digit_char n] else decimal (n div 10) @ [digit_char (n mod 10)])"

definition numeral_value :: "string \<Rightarrow> nat" where
  "numeral_value s = foldl (\<lambda>a c. 10 * a + digit_value c) 0 s"

declare decimal.simps [simp del]

lemma digit_value_char [simp]: "d < 10 \<Longrightarrow> digit_value (digit_char d) = d"
  by (simp add: digit_value_def digit_char_def)

lemma numeral_value_snoc [simp]: "numeral_value (s @ [c]) = 10 * numeral_value s + digit_value c"
  by (simp add: numeral_value_def)

lemma numeral_value_decimal [simp]: "numeral_value (decimal n) = n"
proof (induction n rule: decimal.induct)
  case (1 n)
  show ?case
  proof (cases "n < 10")
    case True
    then show ?thesis by (subst decimal.simps) (simp add: numeral_value_def)
  next
    case False
    with "1.IH" show ?thesis by (subst decimal.simps) simp
  qed
qed

lemma decimal_inj: "decimal m = decimal n \<longleftrightarrow> m = n"
  by (metis numeral_value_decimal)

lemma decimal_not_Nil [simp]: "decimal n \<noteq> []"
  by (subst decimal.simps) simp

section \<open>The store and its operations\<close>

record store =
  stored :: "Note list"
  next_id :: nat

datatype route = Collection | Item ident

definition notes_url :: url where
  "notes_url = API_BASE_URL @ ''/notes''"

definition route_of :: "url \<Rightarrow> route option" where
  "route_of u =
     (if u = notes_url then Some Collection
      else if prefix (notes_url @ ''/'') u then Some (Item (drop (length (notes_url @ ''/'')) u))
      else None)"

definition create :: "string \<Rightarrow> noteData \<Rightarrow> store \<Rightarrow> store" where
  "create stamp d st =
     st\<lparr>stored := stored st @
           [\<lparr>title = title d, content = content d, isPublic = isPublic d,
             note_id = decimal (next_id st), createdAt = stamp\<rparr>],
        next_id := Suc (next_id st)\<rparr>"

definition revise :: "noteData \<Rightarrow> Note \<Rightarrow> Note" where
  "revise d n = n\<lparr>title := title d, content := content d, isPublic := isPublic d\<rparr>"

definition update :: "ident \<Rightarrow> noteData \<Rightarrow> store \<Rightarrow> store" where
  "update i d st = st\<lparr>stored := map (\<lambda>n. if note_id n = i then revise d n else n) (stored st)\<rparr>"

definition remove :: "ident \<Rightarrow> store \<Rightarrow> store" where
  "remove i st = st\<lparr>stored := without_id i (stored st)\<rparr>"

definition has_note :: "store \<Rightarrow> ident \<Rightarrow> bool" where
  "has_note st i \<longleftrightarrow> i \<in> set (note_ids (stored st))"

definition accepted :: "Note list option \<Rightarrow> response" where
  "accepted body = \<lparr>ok = True, json = body\<rparr>"

definition refused :: response where
  "refused = \<lparr>ok = False, json = None\<rparr>"

definition serve :: "string \<Rightarrow> request \<Rightarrow> store \<Rightarrow> response \<times> store" where
  "serve stamp r st =
     (case (req_method r, route_of (req_url r), req_body r) of
        (GET, Some Collection, _) \<Rightarrow> (accepted (Some (stored st)), st)
      | (POST, Some Collection, Some d) \<Rightarrow> (accepted None, create stamp d st)
      | (PUT, Some (Item i), Some d) \<Rightarrow>
          if has_note st i then (accepted None, update i d st) else (refused, st)
      | (DELETE, Some (Item i), _) \<Rightarrow>
          if has_note st i then (accepted None, remove i st) else (refused, st)
      | _ \<Rightarrow> (refused, st))"

definition store_init :: store where
  "store_init = \<lparr>stored = [], next_id = 0\<rparr>"

definition store_inv :: "store \<Rightarrow> bool" where
  "store_inv st \<longleftrightarrow>
     unique_ids (stored st) \<and> (\<forall>n \<in> set (stored st). \<exists>k < next_id st. note_id n = decimal k)"

lemmas [store_defs] =
  notes_url_def route_of_def create_def revise_def update_def remove_def has_note_def
  accepted_def refused_def serve_def store_init_def

section \<open>Routing\<close>

lemma route_collection [simp]: "route_of (API_BASE_URL @ ''/notes'') = Some Collection"
  by (simp add: route_of_def notes_url_def)

lemma route_item [simp]: "route_of (API_BASE_URL @ ''/notes/'' @ i) = Some (Item i)"
  by (simp add: route_of_def notes_url_def)

end
