(* ===== verification/App_Handlers.thy ===== *)
theory App_Handlers
  imports App_State
begin

text \<open>
  The functions of \<^verbatim>\<open>NotesApp\<close> that talk to the store or to the platform:
  \<^verbatim>\<open>fetchNotes\<close>, \<^verbatim>\<open>saveNote\<close>, \<^verbatim>\<open>deleteNote\<close> and \<^verbatim>\<open>copyShareLink\<close>. Each
  asynchronous function is one definition per stretch of code between two
  \<^verbatim>\<open>await\<close>s: the part that runs at the call and ends with \<open>fetch\<close>, and the part
  that runs when the promise has settled (named with \<open>_resume\<close>; \<^verbatim>\<open>saveNote\<close> awaits
  twice and has \<open>saveNote_finish\<close> as its last part). The branches of
  \<^verbatim>\<open>try\<close>/\<^verbatim>\<open>catch\<close>/\<^verbatim>\<open>finally\<close> are the cases of the outcome. \<^verbatim>\<open>fetchNotes\<close> awaits
  \<^verbatim>\<open>fetch\<close> and then \<^verbatim>\<open>response.json()\<close> without touching the state in between, so
  its two waits are one step here.

  The lemmas give, for every handler, the request it sends and the state after each
  outcome, the error branches included, and the fields each part leaves unchanged.
\<close>

section \<open>fetchNotes\<close>

definition fetchNotes_request :: request where
  "fetchNotes_request =
     \<lparr>req_url = API_BASE_URL @ ''/notes'', req_method = GET, req_headers = [], req_body = None\<rparr>"

definition fetchNotes :: "pending \<Rightarrow> app_state \<Rightarrow> app_state" where
  "fetchNotes k s = fetch fetchNotes_request k s"

definition fetchNotes_resume :: "outcome \<Rightarrow> app_state \<Rightarrow> app_state" where
  "fetchNotes_resume out s =
     setLoading False
       (case out of
          Rejected \<Rightarrow> showNotification ''Failed to load notes'' (Some Error) s
        | Resolved response \<Rightarrow>
            if ok response
            then (case json response of
                    None \<Rightarrow> showNotification ''Failed to load notes'' (Some Error) s
                  | Some data \<Rightarrow> setNotes data s)
            else s)"

section \<open>saveNote\<close>

definition saveNote_request :: "Note option \<Rightarrow> noteData \<Rightarrow> request" where
  "saveNote_request editing noteData =
     \<lparr>req_url = (case editing of
                   Some n \<Rightarrow> API_BASE_URL @ ''/notes/'' @ note_id n
                 | None \<Rightarrow> API_BASE_URL @ ''/notes''),
      req_method = (if editing \<noteq> None then PUT else POST),
      req_headers = [(''Content-Type'', ''application/json'')],
      req_body = Some noteData\<rparr>"

definition saveNote :: "noteData \<Rightarrow> app_state \<Rightarrow> app_state" where
  "saveNote noteData s =
     fetch (saveNote_request (editingNote s) noteData) (SaveNote (editingNote s)) s"

definition saveNote_resume :: "Note option \<Rightarrow> outcome \<Rightarrow> app_state \<Rightarrow> app_state" where
  "saveNote_resume editing out s =
     (case out of
        Rejected \<Rightarrow> showNotification ''Failed to save note'' (Some Error) s
      | Resolved response \<Rightarrow>
          if ok response then fetchNotes (SaveNoteReload editing) s else s)"

definition saveNote_finish :: "Note option \<Rightarrow> outcome \<Rightarrow> app_state \<Rightarrow> app_state" where
  "saveNote_finish editing out s =
     showNotification (if editing \<noteq> None then ''Note updated!'' else ''Note created!'') None
       (setEditingNote None (setIsCreating False (fetchNotes_resume out s)))"

section \<open>deleteNote\<close>

definition deleteNote_request :: "ident \<Rightarrow> request" where
  "deleteNote_request i =
     \<lparr>req_url = API_BASE_URL @ ''/notes/'' @ i, req_method = DELETE, req_headers = [],
      req_body = None\<rparr>"

definition deleteNote :: "ident \<Rightarrow> app_state \<Rightarrow> app_state" where
  "deleteNote i s = fetch (deleteNote_request i) (DeleteNote i (note_list s)) s"

definition deleteNote_resume :: "ident \<Rightarrow> Note list \<Rightarrow> outcome \<Rightarrow> app_state \<Rightarrow> app_state" where
  "deleteNote_resume i notes out s =
     (case out of
        Rejected \<Rightarrow> showNotification ''Failed to delete note'' (Some Error) s
      | Resolved response \<Rightarrow>
          if ok response
          then showNotification ''Note deleted!'' None (setNotes (without_id i notes) s)
          else s)"

section \<open>copyShareLink\<close>

definition copyShareLink :: "clipboard_access \<Rightarrow> ident \<Rightarrow> app_state \<Rightarrow> app_state" where
  "copyShareLink access noteId s =
     (let shareUrl = origin s @ ''/share/'' @ noteId
      in case writeText access shareUrl s of
           None \<Rightarrow> s
         | Some s' \<Rightarrow> showNotification ''Share link copied!'' None s')"

section \<open>Settling a promise\<close>

text \<open>
  The continuation that waits for the \<open>i\<close>-th call in flight leaves \<open>inflight\<close> and
  runs with the outcome. A position with no call is no promise: nothing runs.
\<close>

fun resume :: "pending \<Rightarrow> outcome \<Rightarrow> app_state \<Rightarrow> app_state" where
  "resume FetchNotes out s = fetchNotes_resume out s"
| "resume (SaveNote editing) out s = saveNote_resume editing out s"
| "resume (SaveNoteReload editing) out s = saveNote_finish editing out s"
| "resume (DeleteNote i notes) out s = deleteNote_resume i notes out s"

definition settle :: "nat \<Rightarrow> outcome \<Rightarrow> app_state \<Rightarrow> app_state" where
  "settle i out s =
     (if i < length (inflight s)
      then resume (snd (inflight s ! i)) out (take_inflight i s)
      else s)"

lemmas request_defs = fetchNotes_request_def saveNote_request_def deleteNote_request_def

lemmas [handler_defs] =
  request_defs fetchNotes_def fetchNotes_resume_def saveNote_def saveNote_resume_def
  saveNote_finish_def deleteNote_def deleteNote_resume_def copyShareLink_def settle_def

section \<open>Outcomes by name\<close>

definition ok_response :: "Note list \<Rightarrow> outcome" where
  "ok_response data = Resolved \<lparr>ok = True, json = Some data\<rparr>"

definition ok_empty :: outcome where
  "ok_empty = Resolved \<lparr>ok = True, json = None\<rparr>"

definition not_ok :: outcome where
  "not_ok = Resolved \<lparr>ok = False, json = None\<rparr>"

fun succeeded :: "outcome \<Rightarrow> bool" where
  "succeeded Rejected = False"
| "succeeded (Resolved r) = ok r"

lemmas outcome_defs = ok_response_def ok_empty_def not_ok_def

lemma succeeded_simps [simp]:
  "succeeded (ok_response data)" "succeeded ok_empty" "\<not> succeeded not_ok"
  by (simp_all add: outcome_defs)

section \<open>fetchNotes: every branch\<close>

lemma fetchNotes_resume_ok [simp]:
  "fetchNotes_resume (ok_response data) s = s\<lparr>note_list := data, loading := False\<rparr>"
  by (simp add: fetchNotes_resume_def ok_response_def setter_defs)

lemma fetchNotes_resume_not_ok:
  "\<not> ok r \<Longrightarrow> fetchNotes_resume (Resolved r) s = s\<lparr>loading := False\<rparr>"
  by (simp add: fetchNotes_resume_def setter_defs)

lemma fetchNotes_resume_rejected [simp]:
  "fetchNotes_resume Rejected s =
     (showNotification ''Failed to load notes'' (Some Error) s)\<lparr>loading := False\<rparr>"
  by (simp add: fetchNotes_resume_def setter_defs)

lemma fetchNotes_resume_unparsed:
  "ok r \<Longrightarrow> json r = None \<Longrightarrow>
     fetchNotes_resume (Resolved r) s =
       (showNotification ''Failed to load notes'' (Some Error) s)\<lparr>loading := False\<rparr>"
  by (simp add: fetchNotes_resume_def setter_defs)

lemma loading_fetchNotes_resume [simp]: "\<not> loading (fetchNotes_resume out s)"
  by (simp add: fetchNotes_resume_def setter_defs)

lemma note_list_fetchNotes_resume:
  "note_list (fetchNotes_resume out s) =
     (case out of
        Rejected \<Rightarrow> note_list s
      | Resolved r \<Rightarrow> (case json r of Some data \<Rightarrow> if ok r then data else note_list s
                                    | None \<Rightarrow> note_list s))"
  by (simp add: fetchNotes_resume_def setter_defs toast_defs split: outcome.split option.split)

lemma notification_fetchNotes_resume:
  "notification (fetchNotes_resume out s) =
     (if out = Rejected \<or> (\<exists>r. out = Resolved r \<and> ok r \<and> json r = None)
      then Some \<lparr>message = ''Failed to load notes'', type = Error\<rparr>
      else notification s)"
  by (auto simp: fetchNotes_resume_def setter_defs toast_defs split: outcome.split option.split)

lemma fetchNotes_resume_frame [simp]:
  "isCreating (fetchNotes_resume out s) = isCreating s"
  "editingNote (fetchNotes_resume out s) = editingNote s"
  "searchTerm (fetchNotes_resume out s) = searchTerm s"
  "shareModal (fetchNotes_resume out s) = shareModal s"
  "editor (fetchNotes_resume out s) = editor s"
  "inflight (fetchNotes_resume out s) = inflight s"
  "clipboard (fetchNotes_resume out s) = clipboard s"
  "origin (fetchNotes_resume out s) = origin s"
  "now (fetchNotes_resume out s) = now s"
  by (simp_all add: fetchNotes_resume_def setter_defs toast_defs split: outcome.split option.split)

section \<open>saveNote: the request and every branch\<close>

lemma saveNote_request_create [simp]:
  "saveNote_request None d =
     \<lparr>req_url = API_BASE_URL @ ''/notes'', req_method = POST,
      req_headers = [(''Content-Type'', ''application/json'')], req_body = Some d\<rparr>"
  by (simp add: saveNote_request_def)

lemma saveNote_request_update [simp]:
  "saveNote_request (Some n) d =
     \<lparr>req_url = API_BASE_URL @ ''/notes/'' @ note_id n, req_method = PUT,
      req_headers = [(''Content-Type'', ''application/json'')], req_body = Some d\<rparr>"
  by (simp add: saveNote_request_def)

lemma saveNote_sends:
  "saveNote d s = s\<lparr>inflight := inflight s @
     [(saveNote_request (editingNote s) d, SaveNote (editingNote s))]\<rparr>"
  by (simp add: saveNote_def fetch_def)

lemma saveNote_resume_ok:
  "succeeded out \<Longrightarrow>
     saveNote_resume e out s =
       s\<lparr>inflight := inflight s @ [(fetchNotes_request, SaveNoteReload e)]\<rparr>"
  by (cases out) (simp_all add: saveNote_resume_def fetchNotes_def fetch_def)

lemma saveNote_resume_not_ok: "\<not> ok r \<Longrightarrow> saveNote_resume e (Resolved r) s = s"
  by (simp add: saveNote_resume_def)

lemma saveNote_resume_rejected [simp]:
  "saveNote_resume e Rejected s = showNotification ''Failed to save note'' (Some Error) s"
  by (simp add: saveNote_resume_def)

lemma saveNote_resume_keeps_editor [simp]:
  "isCreating (saveNote_resume e out s) = isCreating s"
  "editingNote (saveNote_resume e out s) = editingNote s"
  "editor (saveNote_resume e out s) = editor s"
  "note_list (saveNote_resume e out s) = note_list s"
  "loading (saveNote_resume e out s) = loading s"
  "searchTerm (saveNote_resume e out s) = searchTerm s"
  "shareModal (saveNote_resume e out s) = shareModal s"
  by (simp_all add: saveNote_resume_def fetchNotes_def fetch_def toast_defs split: outcome.split)

lemma saveNote_finish_closes [simp]:
  "\<not> isCreating (saveNote_finish e out s)"
  "editingNote (saveNote_finish e out s) = None"
  "\<not> loading (saveNote_finish e out s)"
  by (simp_all add: saveNote_finish_def setter_defs toast_defs)

lemma notification_saveNote_finish [simp]:
  "notification (saveNote_finish e out s) =
     Some \<lparr>message = (if e \<noteq> None then ''Note updated!'' else ''Note created!''), type = Success\<rparr>"
  by (simp add: saveNote_finish_def)

lemma note_list_saveNote_finish [simp]:
  "note_list (saveNote_finish e out s) = note_list (fetchNotes_resume out s)"
  by (simp add: saveNote_finish_def setter_defs toast_defs)

section \<open>deleteNote: the request and every branch\<close>

lemma deleteNote_sends:
  "deleteNote i s =
     s\<lparr>inflight := inflight s @ [(deleteNote_request i, DeleteNote i (note_list s))]\<rparr>"
  by (simp add: deleteNote_def fetch_def)

lemma deleteNote_resume_ok:
  "succeeded out \<Longrightarrow>
     deleteNote_resume i notes out s =
       showNotification ''Note deleted!'' None (s\<lparr>note_list := without_id i notes\<rparr>)"
  by (cases out) (simp_all add: deleteNote_resume_def setter_defs)

lemma deleteNote_resume_not_ok: "\<not> ok r \<Longrightarrow> deleteNote_resume i notes (Resolved r) s = s"
  by (simp add: deleteNote_resume_def)

lemma deleteNote_resume_rejected [simp]:
  "deleteNote_resume i notes Rejected s =
     showNotification ''Failed to delete note'' (Some Error) s"
  by (simp add: deleteNote_resume_def)

lemma note_list_deleteNote_resume:
  "note_list (deleteNote_resume i notes out s) =
     (if succeeded out then without_id i notes else note_list s)"
  by (cases out) (simp_all add: deleteNote_resume_def setter_defs toast_defs)

lemma deleteNote_resume_frame [simp]:
  "isCreating (deleteNote_resume i notes out s) = isCreating s"
  "editingNote (deleteNote_resume i notes out s) = editingNote s"
  "shareModal (deleteNote_resume i notes out s) = shareModal s"
  "editor (deleteNote_resume i notes out s) = editor s"
  "loading (deleteNote_resume i notes out s) = loading s"
  "inflight (deleteNote_resume i notes out s) = inflight s"
  "searchTerm (deleteNote_resume i notes out s) = searchTerm s"
  "clipboard (deleteNote_resume i notes out s) = clipboard s"
  "origin (deleteNote_resume i notes out s) = origin s"
  by (simp_all add: deleteNote_resume_def setter_defs toast_defs split: outcome.split)

section \<open>copyShareLink\<close>

lemma copyShareLink_url:
  "clipboard (copyShareLink Granted i s) = Some (shareUrl (origin s) i)"
  by (simp add: copyShareLink_def writeText_def shareUrl_def)

lemma copyShareLink_refused: "clipboard (copyShareLink Denied i s) = clipboard s"
  by (simp add: copyShareLink_def writeText_def)

lemma copyShareLink_unavailable [simp]: "copyShareLink Unavailable i s = s"
  by (simp add: copyShareLink_def writeText_def)

lemma copyShareLink_eq:
  "copyShareLink a i s =
     (case a of
        Unavailable \<Rightarrow> s
      | Denied \<Rightarrow> showNotification ''Share link copied!'' None s
      | Granted \<Rightarrow>
          showNotification ''Share link copied!'' None (s\<lparr>clipboard := Some (shareUrl (origin s) i)\<rparr>))"
  by (cases a) (simp_all add: copyShareLink_def writeText_def shareUrl_def)

lemma notification_copyShareLink:
  "a \<noteq> Unavailable \<Longrightarrow>
     notification (copyShareLink a i s) = Some \<lparr>message = ''Share link copied!'', type = Success\<rparr>"
  by (cases a) (simp_all add: copyShareLink_eq)

lemma copyShareLink_frame [simp]:
  "note_list (copyShareLink a i s) = note_list s"
  "inflight (copyShareLink a i s) = inflight s"
  "shareModal (copyShareLink a i s) = shareModal s"
  "origin (copyShareLink a i s) = origin s"
  "isCreating (copyShareLink a i s) = isCreating s"
  "editingNote (copyShareLink a i s) = editingNote s"
  "editor (copyShareLink a i s) = editor s"
  "loading (copyShareLink a i s) = loading s"
  "searchTerm (copyShareLink a i s) = searchTerm s"
  by (cases a; simp add: copyShareLink_eq)+

section \<open>settle\<close>

lemma settle_beyond: "length (inflight s) \<le> i \<Longrightarrow> settle i out s = s"
  by (simp add: settle_def)

lemma settle_nth:
  "i < length (inflight s) \<Longrightarrow> inflight s ! i = (r, k) \<Longrightarrow>
     settle i out s = resume k out (take_inflight i s)"
  by (simp add: settle_def)

lemma settle_only:
  "inflight s = [(r, k)] \<Longrightarrow> settle 0 out s = resume k out (s\<lparr>inflight := []\<rparr>)"
  by (simp add: settle_def take_inflight_def)

section \<open>What a continuation changes\<close>

lemma note_list_resume_not_ok:
  "\<not> ok r \<Longrightarrow> note_list (resume k (Resolved r) s) = note_list s"
  by (cases k)
    (simp_all add: note_list_fetchNotes_resume note_list_deleteNote_resume split: option.split)

section \<open>Main properties\<close>

text \<open>
  C4 (error). \<^verbatim>\<open>fetchNotes\<close> after its request has settled, on every branch. The
  spinner is off afterwards, whatever happened. The list is replaced by the body when
  the response is ok and its body parses, and is left as it was otherwise. The
  notification "Failed to load notes" of type error is shown when \<^verbatim>\<open>fetch\<close> or
  \<^verbatim>\<open>response.json()\<close> rejects, and the notification is left as it was otherwise.
  Editor, modals, search term and the other calls in flight are never touched.
\<close>

theorem fetchNotes_outcomes:
  "\<not> loading (fetchNotes_resume out s) \<and>
   note_list (fetchNotes_resume out s) =
     (case out of
        Rejected \<Rightarrow> note_list s
      | Resolved r \<Rightarrow> (case json r of Some data \<Rightarrow> if ok r then data else note_list s
                                    | None \<Rightarrow> note_list s)) \<and>
   notification (fetchNotes_resume out s) =
     (if out = Rejected \<or> (\<exists>r. out = Resolved r \<and> ok r \<and> json r = None)
      then Some \<lparr>message = ''Failed to load notes'', type = Error\<rparr>
      else notification s) \<and>
   editor (fetchNotes_resume out s) = editor s \<and>
   editingNote (fetchNotes_resume out s) = editingNote s \<and>
   isCreating (fetchNotes_resume out s) = isCreating s \<and>
   shareModal (fetchNotes_resume out s) = shareModal s \<and>
   searchTerm (fetchNotes_resume out s) = searchTerm s \<and>
   inflight (fetchNotes_resume out s) = inflight s"
  using note_list_fetchNotes_resume [of out s] notification_fetchNotes_resume [of out s]
  by simp

text \<open>
  C20 (error). A response with a status that is not ok is met with silence. Whichever
  function waits for it (\<^verbatim>\<open>fetchNotes\<close> called at the mount, \<^verbatim>\<open>saveNote\<close> or
  \<^verbatim>\<open>deleteNote\<close>), the notification, the list, the editor and the calls in flight are
  afterwards what they were before: only a rejected promise reaches the \<^verbatim>\<open>catch\<close>
  block that shows the error. The editor stays open after a save that the store refused,
  with no message that says why.
\<close>

theorem not_ok_is_silent:
  assumes "\<not> ok r" and "k = FetchNotes \<or> k = SaveNote e \<or> k = DeleteNote i ns"
  shows "notification (resume k (Resolved r) s) = notification s \<and>
         note_list (resume k (Resolved r) s) = note_list s \<and>
         isCreating (resume k (Resolved r) s) = isCreating s \<and>
         editingNote (resume k (Resolved r) s) = editingNote s \<and>
         editor (resume k (Resolved r) s) = editor s \<and>
         inflight (resume k (Resolved r) s) = inflight s"
  using assms
  by (auto simp: notification_fetchNotes_resume note_list_fetchNotes_resume
      saveNote_resume_def deleteNote_resume_def split: option.split)

theorem not_ok_is_silent_witness:
  "notification (resume (SaveNote None) not_ok (useState_init ''http://localhost:3000'')) = None \<and>
   notification (resume (DeleteNote ''1'' []) not_ok (useState_init ''http://localhost:3000'')) = None \<and>
   notification (resume FetchNotes not_ok (useState_init ''http://localhost:3000'')) = None"
  using not_ok_is_silent [of "\<lparr>ok = False, json = None\<rparr>" "SaveNote None" None "''1''" "[]"
      "useState_init ''http://localhost:3000''"]
    not_ok_is_silent [of "\<lparr>ok = False, json = None\<rparr>" "DeleteNote ''1'' []" None "''1''" "[]"
      "useState_init ''http://localhost:3000''"]
    not_ok_is_silent [of "\<lparr>ok = False, json = None\<rparr>" FetchNotes None "''1''" "[]"
      "useState_init ''http://localhost:3000''"]
  by (simp add: not_ok_def useState_init_def)

text \<open>
  C22 (error). A rejected promise is reported with the message of the function that
  waited for it, as type error, and changes nothing else about the notes or the
  editor. The exception is the reload inside \<^verbatim>\<open>saveNote\<close>: \<^verbatim>\<open>fetchNotes\<close> catches
  its own failure, so \<^verbatim>\<open>saveNote\<close> goes on, closes the editor and replaces
  "Failed to load notes" by its message of success at once.
\<close>

theorem rejected_outcomes:
  "notification (resume FetchNotes Rejected s) =
     Some \<lparr>message = ''Failed to load notes'', type = Error\<rparr> \<and>
   notification (resume (SaveNote e) Rejected s) =
     Some \<lparr>message = ''Failed to save note'', type = Error\<rparr> \<and>
   notification (resume (DeleteNote i ns) Rejected s) =
     Some \<lparr>message = ''Failed to delete note'', type = Error\<rparr> \<and>
   notification (resume (SaveNoteReload e) Rejected s) =
     Some \<lparr>message = (if e \<noteq> None then ''Note updated!'' else ''Note created!''), type = Success\<rparr> \<and>
   note_list (resume k Rejected s) = note_list s \<and>
   editor (resume (SaveNote e) Rejected s) = editor s \<and>
   editingNote (resume (SaveNote e) Rejected s) = editingNote s \<and>
   isCreating (resume (SaveNote e) Rejected s) = isCreating s"
  by (cases k) (simp_all add: note_list_fetchNotes_resume note_list_deleteNote_resume)

text \<open>
  C34 (functional). The request of \<^verbatim>\<open>saveNote\<close> follows the mode the editor was
  opened in: with a note being edited it is a \<^verbatim>\<open>PUT\<close> to the note's own address,
  without one a \<^verbatim>\<open>POST\<close> to the collection; in both cases the body is the emitted
  object and the content type is JSON. The call adds this one request to the calls in
  flight, remembers the note being edited for later, and changes nothing else.
\<close>

theorem saveNote_request_by_mode:
  "saveNote_request None d =
     \<lparr>req_url = ''http://localhost:8081/api/notes'', req_method = POST,
      req_headers = [(''Content-Type'', ''application/json'')], req_body = Some d\<rparr> \<and>
   saveNote_request (Some n) d =
     \<lparr>req_url = ''http://localhost:8081/api/notes/'' @ note_id n, req_method = PUT,
      req_headers = [(''Content-Type'', ''application/json'')], req_body = Some d\<rparr> \<and>
   saveNote d s =
     s\<lparr>inflight := inflight s @ [(saveNote_request (editingNote s) d, SaveNote (editingNote s))]\<rparr>"
  by (simp add: saveNote_sends API_BASE_URL_def)

text \<open>
  C27 (functional). The link that \<^verbatim>\<open>copyShareLink\<close> writes to the clipboard is the
  link that \<^verbatim>\<open>ShareModal\<close> shows for the same note, \<open>origin/share/id\<close>, and two notes
  have the same link only if they have the same identifier. The notification
  "Share link copied!" is shown whenever the call returns, also when the browser denies
  the write and the clipboard keeps its old text. Where \<^verbatim>\<open>navigator.clipboard\<close> is
  undefined the call throws before \<^verbatim>\<open>showNotification\<close> is reached and the click
  changes nothing.
\<close>

theorem share_link_copied:
  "clipboard (copyShareLink Granted (note_id n) s) = Some (share_link (ShareModal (origin s) n)) \<and>
   share_link (ShareModal (origin s) n) = origin s @ ''/share/'' @ note_id n \<and>
   (share_link (ShareModal (origin s) n) = share_link (ShareModal (origin s) m) \<longleftrightarrow>
      note_id n = note_id m) \<and>
   clipboard (copyShareLink Denied (note_id n) s) = clipboard s \<and>
   notification (copyShareLink Granted (note_id n) s) =
     Some \<lparr>message = ''Share link copied!'', type = Success\<rparr> \<and>
   notification (copyShareLink Denied (note_id n) s) =
     Some \<lparr>message = ''Share link copied!'', type = Success\<rparr> \<and>
   copyShareLink Unavailable (note_id n) s = s"
  by (simp add: copyShareLink_url copyShareLink_refused notification_copyShareLink
      ShareModal_def shareUrl_def)

end
