(* ===== verification/App_Machine.thy ===== *)
theory App_Machine
  imports App_Handlers
begin

text \<open>
  \<^verbatim>\<open>NotesApp\<close> as a state machine. The tree that the component returns is the record
  \<open>app_view\<close>, computed by \<open>render\<close>. An \<open>event\<close> is something that makes code of the
  component run: an event handler of an element of the tree, a promise of \<^verbatim>\<open>fetch\<close>
  that settles, or time that passes and lets timers fire. \<open>handle\<close> runs the code of an
  event; \<open>commit\<close> is what React does after the state has changed, as far as it has an
  effect on state: it mounts \<^verbatim>\<open>NoteEditor\<close> with fresh state variables when the editor
  enters the tree and drops them when it leaves. \<open>fire\<close> is both in a row.

  An event handler exists only while its element is rendered: \<open>enabled\<close> says when.
  It reads the tree only; the style sheet, and with it the overlay that covers the page
  under an open modal, is not part of the sources, so a click on a card under an open
  modal counts as possible. The steps of the machine are the enabled events; \<open>run\<close>
  executes a list of events and \<open>reach\<close> is the set of states that the mounted
  component can get into.
\<close>

section \<open>The rendered tree\<close>

record app_view =
  v_search :: string
  v_spinner :: bool
  v_cards :: "card_view list"
  v_empty :: bool
  v_editor :: "editor_view option"
  v_share :: "share_view option"
  v_toast :: "(string \<times> string) option"

definition draft :: "app_state \<Rightarrow> noteData" where
  "draft s = (case editor s of Some d \<Rightarrow> d | None \<Rightarrow> editor_init (editingNote s))"

definition render :: "(string \<Rightarrow> string) \<Rightarrow> app_state \<Rightarrow> app_view" where
  "render toLocaleDateString s =
     \<lparr>v_search = searchTerm s,
      v_spinner = loading s,
      v_cards = (if loading s then [] else map (NoteCard toLocaleDateString) (filteredNotes s)),
      v_empty = (length (filteredNotes s) = 0 \<and> \<not> loading s),
      v_editor = (if editor_open s then Some (NoteEditor (editingNote s) (draft s)) else None),
      v_share = map_option (ShareModal (origin s)) (shareModal s),
      v_toast = toast_view s\<rparr>"

section \<open>Events\<close>

datatype event =
    SearchInput string
  | NewNoteClick
  | EmptyCreateClick
  | CardClick Note card_button
  | EditorEvent editor_event
  | ShareEvent share_event clipboard_access
  | Settled nat outcome
  | Elapsed millis

text \<open>
  The callbacks that \<^verbatim>\<open>NotesApp\<close> passes to its children: \<^verbatim>\<open>onEdit\<close>, \<^verbatim>\<open>onDelete\<close>
  and \<^verbatim>\<open>onShare\<close> of a card, \<^verbatim>\<open>onSave\<close> and \<^verbatim>\<open>onClose\<close> of the editor,
  \<^verbatim>\<open>onCopy\<close> and \<^verbatim>\<open>onClose\<close> of the share modal.
\<close>

definition card_props :: "Note \<Rightarrow> card_callback \<Rightarrow> app_state \<Rightarrow> app_state" where
  "card_props note cb s =
     (case cb of
        OnEdit \<Rightarrow> setEditingNote (Some note) s
      | OnDelete \<Rightarrow> deleteNote (note_id note) s
      | OnShare \<Rightarrow> setShareModal (Some note) s)"

definition editor_props :: "editor_callback \<Rightarrow> app_state \<Rightarrow> app_state" where
  "editor_props cb s =
     (case cb of
        OnSave noteData \<Rightarrow> saveNote noteData s
      | OnClose \<Rightarrow> setEditingNote None (setIsCreating False s))"

definition share_props :: "clipboard_access \<Rightarrow> share_callback \<Rightarrow> app_state \<Rightarrow> app_state" where
  "share_props access cb s =
     (case cb of
        OnCopy noteId \<Rightarrow> copyShareLink access noteId s
      | OnCloseShare \<Rightarrow> setShareModal None s)"

fun handle :: "event \<Rightarrow> app_state \<Rightarrow> app_state" where
  "handle (SearchInput v) s = setSearchTerm v s"
| "handle NewNoteClick s = setIsCreating True s"
| "handle EmptyCreateClick s = setIsCreating True s"
| "handle (CardClick note b) s =
     (case card_click b note of
        None \<Rightarrow> s
      | Some c \<Rightarrow> card_props note (callback c) s)"
| "handle (EditorEvent ev) s =
     (case editor s of
        None \<Rightarrow> s
      | Some d \<Rightarrow>
          (case editor_step ev d of
             (d', None) \<Rightarrow> s\<lparr>editor := Some d'\<rparr>
           | (d', Some cb) \<Rightarrow> editor_props cb (s\<lparr>editor := Some d'\<rparr>)))"
| "handle (ShareEvent ev access) s =
     (case shareModal s of
        None \<Rightarrow> s
      | Some note \<Rightarrow> share_props access (share_step ev note) s)"
| "handle (Settled i out) s = settle i out s"
| "handle (Elapsed d) s = elapse d s"

definition commit :: "app_state \<Rightarrow> app_state" where
  "commit s = s\<lparr>editor := (if editor_open s then Some (draft s) else None)\<rparr>"

definition fire :: "event \<Rightarrow> app_state \<Rightarrow> app_state" where
  "fire e s = commit (handle e s)"

text \<open>The component is mounted: first render, then the effect calls \<^verbatim>\<open>fetchNotes\<close>.\<close>

definition mount :: "url \<Rightarrow> app_state" where
  "mount org = commit (fetchNotes FetchNotes (useState_init org))"

section \<open>Which events can happen\<close>

fun enabled :: "app_state \<Rightarrow> event \<Rightarrow> bool" where
  "enabled s (SearchInput v) = True"
| "enabled s NewNoteClick = True"
| "enabled s EmptyCreateClick = (length (filteredNotes s) = 0 \<and> \<not> loading s)"
| "enabled s (CardClick note b) =
     (\<not> loading s \<and> note \<in> set (filteredNotes s) \<and> b \<in> set (note_buttons note))"
| "enabled s (EditorEvent ev) =
     (case editor s of None \<Rightarrow> False | Some d \<Rightarrow> ev = SaveClick \<longrightarrow> \<not> save_disabled d)"
| "enabled s (ShareEvent ev access) = (shareModal s \<noteq> None)"
| "enabled s (Settled i out) = (i < length (inflight s))"
| "enabled s (Elapsed d) = True"

section \<open>Steps, runs and reachable states\<close>

inductive step :: "app_state \<Rightarrow> event \<Rightarrow> app_state \<Rightarrow> bool" where
  fired: "enabled s e \<Longrightarrow> step s e (fire e s)"

fun run :: "event list \<Rightarrow> app_state \<Rightarrow> app_state option" where
  "run [] s = Some s"
| "run (e # es) s = (if enabled s e then run es (fire e s) else None)"

text \<open>
  \<open>reach env org s\<close>: the component mounted at origin \<open>org\<close> can get into \<open>s\<close> by
  enabled events that all satisfy \<open>env\<close>, an assumption on what the environment does
  (which outcomes the store produces, for instance). \<open>reachable\<close> assumes nothing.
\<close>

inductive reach :: "(event \<Rightarrow> bool) \<Rightarrow> url \<Rightarrow> app_state \<Rightarrow> bool"
  for env :: "event \<Rightarrow> bool" and org :: url where
  mounted: "reach env org (mount org)"
| after: "reach env org s \<Longrightarrow> env e \<Longrightarrow> step s e t \<Longrightarrow> reach env org t"

abbreviation reachable :: "url \<Rightarrow> app_state \<Rightarrow> bool" where
  "reachable \<equiv> reach (\<lambda>e. True)"

inductive_cases stepE [elim!]: "step s e t"
inductive_simps step_iff: "step s e t"

lemmas [handler_defs] =
  card_props_def editor_props_def share_props_def commit_def fire_def mount_def
  draft_def

lemmas [view_defs] = render_def

section \<open>Basic facts about steps and runs\<close>

lemma step_deterministic: "step s e t \<Longrightarrow> step s e t' \<Longrightarrow> t = t'"
  by auto

lemma step_fire: "step s e t \<longleftrightarrow> enabled s e \<and> t = fire e s"
  by (auto simp: step_iff)

lemma run_append:
  "run (es @ fs) s = (case run es s of None \<Rightarrow> None | Some t \<Rightarrow> run fs t)"
  by (induction es arbitrary: s) auto

lemma run_snoc:
  "run es s = Some t \<Longrightarrow> enabled t e \<Longrightarrow> run (es @ [e]) s = Some (fire e t)"
  by (simp add: run_append)

lemma reach_fire: "reach env org s \<Longrightarrow> env e \<Longrightarrow> enabled s e \<Longrightarrow> reach env org (fire e s)"
  by (blast intro: reach.after step.fired)

lemma reach_mono: "reach env org s \<Longrightarrow> (\<And>e. env e \<Longrightarrow> env' e) \<Longrightarrow> reach env' org s"
  by (induction rule: reach.induct) (auto intro: reach.mounted reach_fire)

lemma reach_reachable: "reach env org s \<Longrightarrow> reachable org s"
  by (erule reach_mono) simp

lemma reach_run:
  "reach env org s \<Longrightarrow> list_all env es \<Longrightarrow> run es s = Some t \<Longrightarrow> reach env org t"
proof (induction es arbitrary: s)
  case Nil
  then show ?case by simp
next
  case (Cons e es)
  from Cons.prems(3) have en: "enabled s e" and r: "run es (fire e s) = Some t"
    by (auto split: if_splits)
  from Cons.prems(2) have "env e" and all: "list_all env es" by simp_all
  with Cons.prems(1) en have "reach env org (fire e s)" by (simp add: reach_fire)
  then show ?case using all r by (rule Cons.IH)
qed

lemma reach_is_run:
  "reach env org s \<Longrightarrow> \<exists>es. list_all env es \<and> run es (mount org) = Some s"
proof (induction rule: reach.induct)
  case mounted
  have "list_all env [] \<and> run [] (mount org) = Some (mount org)" by simp
  then show ?case by blast
next
  case (after s e t)
  then obtain es where es: "list_all env es" "run es (mount org) = Some s" by blast
  from after.hyps(3) have "enabled s e" and "t = fire e s" by auto
  with es after.hyps(2) have "list_all env (es @ [e]) \<and> run (es @ [e]) (mount org) = Some t"
    by (simp add: run_snoc)
  then show ?case by blast
qed

lemma reach_iff_run:
  "reach env org s \<longleftrightarrow> (\<exists>es. list_all env es \<and> run es (mount org) = Some s)"
  by (blast intro: reach_is_run reach_run reach.mounted)

section \<open>The code that an event runs\<close>

lemma editor_same [simp]: "editor s = ed \<Longrightarrow> s\<lparr>editor := ed\<rparr> = s"
  by auto

lemma handle_card:
  "handle (CardClick n EditBtn) s = setEditingNote (Some n) s"
  "handle (CardClick n DeleteBtn) s = deleteNote (note_id n) s"
  "handle (CardClick n ShareBtn) s = (if isPublic n then setShareModal (Some n) s else s)"
  by (simp_all add: card_click_def onClick_def card_props_def)

lemma handle_editor:
  "editor s = None \<Longrightarrow> handle (EditorEvent ev) s = s"
  "editor s = Some d \<Longrightarrow> handle (EditorEvent (TitleInput v)) s = s\<lparr>editor := Some (setTitle v d)\<rparr>"
  "editor s = Some d \<Longrightarrow> handle (EditorEvent (ContentInput v)) s = s\<lparr>editor := Some (setContent v d)\<rparr>"
  "editor s = Some d \<Longrightarrow> handle (EditorEvent (PublicInput b)) s = s\<lparr>editor := Some (setIsPublic b d)\<rparr>"
  "editor s = Some d \<Longrightarrow>
     handle (EditorEvent SaveClick) s = (if save_disabled d then s else saveNote d s)"
  "editor s = Some d \<Longrightarrow>
     handle (EditorEvent CancelClick) s = setEditingNote None (setIsCreating False s)"
  "editor s = Some d \<Longrightarrow>
     handle (EditorEvent CloseClick) s = setEditingNote None (setIsCreating False s)"
  by (simp_all add: editor_props_def handleSave_def save_disabled_def)

lemma handle_share:
  "shareModal s = None \<Longrightarrow> handle (ShareEvent ev g) s = s"
  "shareModal s = Some n \<Longrightarrow> handle (ShareEvent CopyClick g) s = copyShareLink g (note_id n) s"
  "shareModal s = Some n \<Longrightarrow> handle (ShareEvent CloseShareClick g) s = setShareModal None s"
  by (simp_all add: share_props_def share_step_def)

lemmas handle_simps = handle_card handle_editor handle_share

declare handle.simps(4-6) [simp del]
declare handle_simps [simp]

text \<open>
  The steps of a card, of the editor and of the share modal, with the guard that the
  rendered tree imposes and the state after the step.
\<close>

lemma card_step_cases [consumes 1, case_names edit share delete]:
  assumes "step s (CardClick n b) t"
  obtains
    (edit) "b = EditBtn" "\<not> loading s" "n \<in> set (filteredNotes s)"
      "t = commit (setEditingNote (Some n) s)"
  | (share) "b = ShareBtn" "\<not> loading s" "n \<in> set (filteredNotes s)" "isPublic n"
      "t = commit (setShareModal (Some n) s)"
  | (delete) "b = DeleteBtn" "\<not> loading s" "n \<in> set (filteredNotes s)"
      "t = commit (deleteNote (note_id n) s)"
  using assms by (cases b) (auto simp: fire_def handle_card)

lemma editor_step_cases [consumes 1, case_names typing save close]:
  assumes "step s (EditorEvent ev) t"
  obtains
    (typing) d d' where "editor s = Some d" "editor_step ev d = (d', None)" "ev \<noteq> SaveClick"
      "t = commit (s\<lparr>editor := Some d'\<rparr>)"
  | (save) d where "ev = SaveClick" "editor s = Some d" "\<not> save_disabled d"
      "t = commit (saveNote d s)"
  | (close) d where "ev = CancelClick \<or> ev = CloseClick" "editor s = Some d"
      "t = commit (setEditingNote None (setIsCreating False s))"
proof -
  from assms obtain d where d: "editor s = Some d" and sv: "ev = SaveClick \<longrightarrow> \<not> save_disabled d"
    and t: "t = commit (handle (EditorEvent ev) s)"
    by (auto simp: fire_def split: option.splits)
  then show thesis
    by (cases ev) (auto simp: handle_editor intro: typing [of d] save [of d] close [of d])
qed

lemma share_step_cases [consumes 1, case_names copy close_share]:
  assumes "step s (ShareEvent ev g) t"
  obtains
    (copy) n where "ev = CopyClick" "shareModal s = Some n"
      "t = commit (copyShareLink g (note_id n) s)"
  | (close_share) n where "ev = CloseShareClick" "shareModal s = Some n"
      "t = commit (setShareModal None s)"
proof -
  from assms obtain n where "shareModal s = Some n" and "t = commit (handle (ShareEvent ev g) s)"
    by (auto simp: fire_def)
  then show thesis
    by (cases ev) (auto simp: handle_share intro: copy [of n] close_share [of n])
qed

text \<open>
  Every step is one of twelve kinds. The rule gives, for each kind, the guard that the
  rendered tree imposes and the state after the step.
\<close>

lemma step_cases [consumes 1, case_names search create edit share delete typing save close
    copy close_share settled elapsed]:
  assumes "step s e t"
  obtains
    (search) v where "e = SearchInput v" "t = commit (setSearchTerm v s)"
  | (create) "e = NewNoteClick \<or> e = EmptyCreateClick" "t = commit (setIsCreating True s)"
  | (edit) n where "e = CardClick n EditBtn" "\<not> loading s" "n \<in> set (filteredNotes s)"
      "t = commit (setEditingNote (Some n) s)"
  | (share) n where "e = CardClick n ShareBtn" "\<not> loading s" "n \<in> set (filteredNotes s)"
      "isPublic n" "t = commit (setShareModal (Some n) s)"
  | (delete) n where "e = CardClick n DeleteBtn" "\<not> loading s" "n \<in> set (filteredNotes s)"
      "t = commit (deleteNote (note_id n) s)"
  | (typing) ev d d' where "e = EditorEvent ev" "editor s = Some d"
      "editor_step ev d = (d', None)" "ev \<noteq> SaveClick" "t = commit (s\<lparr>editor := Some d'\<rparr>)"
  | (save) d where "e = EditorEvent SaveClick" "editor s = Some d" "\<not> save_disabled d"
      "t = commit (saveNote d s)"
  | (close) d where "e = EditorEvent CancelClick \<or> e = EditorEvent CloseClick"
      "editor s = Some d" "t = commit (setEditingNote None (setIsCreating False s))"
  | (copy) n g where "e = ShareEvent CopyClick g" "shareModal s = Some n"
      "t = commit (copyShareLink g (note_id n) s)"
  | (close_share) n g where "e = ShareEvent CloseShareClick g" "shareModal s = Some n"
      "t = commit (setShareModal None s)"
  | (settled) i out r k where "e = Settled i out" "i < length (inflight s)"
      "inflight s ! i = (r, k)" "t = commit (resume k out (take_inflight i s))"
  | (elapsed) d where "e = Elapsed d" "t = commit (elapse d s)"
proof -
  from assms have en: "enabled s e" and t: "t = commit (handle e s)"
    by (auto simp: fire_def)
  show thesis
  proof (cases e)
    case (SearchInput v)
    with t show thesis by (intro search) simp_all
  next
    case NewNoteClick
    with t show thesis by (intro create) simp_all
  next
    case EmptyCreateClick
    with t show thesis by (intro create) simp_all
  next
    case (CardClick n b)
    with assms have "step s (CardClick n b) t" by simp
    then show thesis
      by (cases rule: card_step_cases) (use CardClick in \<open>simp_all add: edit share delete\<close>)
  next
    case (EditorEvent ev)
    with assms have "step s (EditorEvent ev) t" by simp
    then show thesis
      by (cases rule: editor_step_cases) (use EditorEvent in \<open>simp_all add: typing save close\<close>)
  next
    case (ShareEvent ev g)
    with assms have "step s (ShareEvent ev g) t" by simp
    then show thesis
      by (cases rule: share_step_cases) (use ShareEvent in \<open>simp_all add: copy close_share\<close>)
  next
    case (Settled i out)
    with en have i: "i < length (inflight s)" by simp
    obtain r k where rk: "inflight s ! i = (r, k)" by (cases "inflight s ! i")
    with Settled i t show thesis by (intro settled [of i out r k]) (simp_all add: settle_def)
  next
    case (Elapsed d)
    with t show thesis by (intro elapsed) simp_all
  qed
qed

section \<open>The tree and the events agree\<close>

lemma enabled_card_rendered:
  "enabled s (CardClick note b) \<longleftrightarrow>
     NoteCard fmt note \<in> NoteCard fmt ` set (filteredNotes s) \<and> \<not> v_spinner (render fmt s) \<and>
     note \<in> set (filteredNotes s) \<and> b \<in> set (card_buttons (NoteCard fmt note))"
  by (auto simp: render_def)

lemma enabled_empty_rendered: "enabled s EmptyCreateClick \<longleftrightarrow> v_empty (render fmt s)"
  by (simp add: render_def)

lemma enabled_share_rendered: "enabled s (ShareEvent ev g) \<longleftrightarrow> v_share (render fmt s) \<noteq> None"
  by (simp add: render_def)

lemma cards_or_spinner:
  "v_spinner (render fmt s) \<Longrightarrow> v_cards (render fmt s) = [] \<and> \<not> v_empty (render fmt s)"
  by (simp add: render_def)

lemma cards_follow_filter:
  "\<not> loading s \<Longrightarrow> map card_title (v_cards (render fmt s)) = map title (filteredNotes s)"
  by (simp add: render_def NoteCard_def comp_def)

lemma empty_state_iff_no_cards:
  "\<not> loading s \<Longrightarrow> v_empty (render fmt s) \<longleftrightarrow> v_cards (render fmt s) = []"
  by (simp add: render_def)

end
