(* ===== verification/App_Invariants.thy ===== *)
theory App_Invariants
  imports App_Machine
begin

text \<open>
  What holds in every state that \<^verbatim>\<open>NotesApp\<close> can reach, whatever the store answers:
  \<^item> \<open>timers_ok\<close>: the timer queue is ordered, its deadlines lie within the next 3000 ms,
    and a visible notification has a timer that will clear it;
  \<^item> \<open>editor_mounted\<close>: the editor's state variables exist exactly while
    \<^verbatim>\<open>isCreating || editingNote\<close> holds;
  \<^item> \<open>loading_waits\<close>: while the spinner shows, the call of \<^verbatim>\<open>fetchNotes\<close> made at
    the mount has not settled;
  \<^item> \<open>loading_blank\<close>: while the spinner shows, the list is empty and no
    \<^verbatim>\<open>deleteNote\<close> waits for an answer;
  \<^item> \<open>share_public\<close>: the note of the share modal was public when its card was clicked;
  \<^item> \<open>requests_ok\<close>: every call in flight carries the request that the function
    waiting for it has built; a save request carries a title with a character that is
    not white space, and a delete request the identifier of a note of the list that its
    closure has captured;
  \<^item> the origin never changes.
  Under the assumption that every note list the store sends has unique identifiers,
  \<open>ids_ok\<close> holds as well: the list on screen and the lists captured by pending deletes
  have unique identifiers.

  Each invariant is proved for every handler and continuation first, then for \<open>fire\<close> by
  a case split on the event, then for \<open>reach\<close> by rule induction.
\<close>

section \<open>Definitions\<close>

definition editor_mounted :: "app_state \<Rightarrow> bool" where
  "editor_mounted s \<longleftrightarrow> (editor s \<noteq> None \<longleftrightarrow> editor_open s)"

definition loading_waits :: "app_state \<Rightarrow> bool" where
  "loading_waits s \<longleftrightarrow> (loading s \<longrightarrow> FetchNotes \<in> set (continuations s))"

fun is_delete :: "pending \<Rightarrow> bool" where
  "is_delete (DeleteNote i ns) = True"
| "is_delete k = False"

definition loading_blank :: "app_state \<Rightarrow> bool" where
  "loading_blank s \<longleftrightarrow>
     (loading s \<longrightarrow> note_list s = [] \<and> \<not> list_ex is_delete (continuations s))"

definition share_public :: "app_state \<Rightarrow> bool" where
  "share_public s \<longleftrightarrow> (case shareModal s of None \<Rightarrow> True | Some n \<Rightarrow> isPublic n)"

fun request_for :: "pending \<Rightarrow> request \<Rightarrow> bool" where
  "request_for FetchNotes r = (r = fetchNotes_request)"
| "request_for (SaveNote e) r =
     (case req_body r of
        None \<Rightarrow> False
      | Some d \<Rightarrow> r = saveNote_request e d \<and> \<not> save_disabled d)"
| "request_for (SaveNoteReload e) r = (r = fetchNotes_request)"
| "request_for (DeleteNote i ns) r = (r = deleteNote_request i \<and> i \<in> set (note_ids ns))"

definition requests_ok :: "app_state \<Rightarrow> bool" where
  "requests_ok s \<longleftrightarrow> list_all (\<lambda>(r, k). request_for k r) (inflight s)"

definition app_inv :: "app_state \<Rightarrow> bool" where
  "app_inv s \<longleftrightarrow>
     timers_ok s \<and> editor_mounted s \<and> loading_waits s \<and> loading_blank s \<and> share_public s \<and>
     requests_ok s"

fun captured_unique :: "pending \<Rightarrow> bool" where
  "captured_unique (DeleteNote i ns) = unique_ids ns"
| "captured_unique k = True"

definition ids_ok :: "app_state \<Rightarrow> bool" where
  "ids_ok s \<longleftrightarrow> unique_ids (note_list s) \<and> list_all captured_unique (continuations s)"

text \<open>The assumption on the store: a parsed body is a list with unique identifiers.\<close>

fun unique_outcome :: "outcome \<Rightarrow> bool" where
  "unique_outcome Rejected = True"
| "unique_outcome (Resolved r) = (case json r of None \<Rightarrow> True | Some data \<Rightarrow> unique_ids data)"

fun unique_event :: "event \<Rightarrow> bool" where
  "unique_event (Settled i out) = unique_outcome out"
| "unique_event e = True"

lemmas [inv_defs] =
  editor_mounted_def loading_waits_def loading_blank_def share_public_def requests_ok_def
  app_inv_def ids_ok_def

section \<open>commit\<close>

lemma commit_fields [simp]:
  "notification (commit s) = notification s"
  "timers (commit s) = timers s"
  "now (commit s) = now s"
  "note_list (commit s) = note_list s"
  "isCreating (commit s) = isCreating s"
  "editingNote (commit s) = editingNote s"
  "searchTerm (commit s) = searchTerm s"
  "shareModal (commit s) = shareModal s"
  "loading (commit s) = loading s"
  "inflight (commit s) = inflight s"
  "clipboard (commit s) = clipboard s"
  "origin (commit s) = origin s"
  by (simp_all add: commit_def)

lemma editor_commit: "editor (commit s) = (if editor_open s then Some (draft s) else None)"
  by (simp add: commit_def)

lemma commit_derived [simp]:
  "filteredNotes (commit s) = filteredNotes s"
  "editor_open (commit s) = editor_open s"
  "continuations (commit s) = continuations s"
  by (simp_all add: filteredNotes_def editor_open_def continuations_def)

lemma editor_mounted_commit [simp]: "editor_mounted (commit s)"
  by (simp add: editor_mounted_def editor_commit)

lemma commit_idle: "editor_mounted s \<Longrightarrow> commit s = s"
  by (cases "editor s") (auto simp: editor_mounted_def commit_def draft_def)

lemma commit_keeps_draft: "editor s = Some d \<Longrightarrow> editor_open s \<Longrightarrow> editor (commit s) = Some d"
  by (simp add: editor_commit draft_def)

lemma commit_mounts:
  "editor s = None \<Longrightarrow> editor_open s \<Longrightarrow> editor (commit s) = Some (editor_init (editingNote s))"
  by (simp add: editor_commit draft_def)

lemma commit_unmounts: "\<not> editor_open s \<Longrightarrow> editor (commit s) = None"
  by (simp add: editor_commit)

lemma timers_ok_cong:
  "notification t = notification s \<Longrightarrow> timers t = timers s \<Longrightarrow> now t = now s \<Longrightarrow>
     timers_ok t = timers_ok s"
  by (simp add: timers_ok_def)

lemma timers_ok_commit [simp]: "timers_ok (commit s) = timers_ok s"
  by (rule timers_ok_cong) simp_all

section \<open>Preservation by each kind of code\<close>

lemma timers_ok_fetch [simp]: "timers_ok (fetch r k s) = timers_ok s"
  by (rule timers_ok_cong) (simp_all add: fetch_def)

lemma timers_ok_take_inflight [simp]: "timers_ok (take_inflight i s) = timers_ok s"
  by (rule timers_ok_cong) (simp_all add: take_inflight_def)

lemma timers_ok_setters [simp]:
  "timers_ok (setNotes ns s) = timers_ok s"
  "timers_ok (setIsCreating b s) = timers_ok s"
  "timers_ok (setEditingNote e s) = timers_ok s"
  "timers_ok (setSearchTerm v s) = timers_ok s"
  "timers_ok (setShareModal m s) = timers_ok s"
  "timers_ok (setLoading b s) = timers_ok s"
  "timers_ok (s\<lparr>editor := ed\<rparr>) = timers_ok s"
  by (rule timers_ok_cong; simp add: setter_defs)+

lemma timers_ok_resume: "timers_ok s \<Longrightarrow> timers_ok (resume k out s)"
  by (cases k)
    (auto simp: fetchNotes_resume_def saveNote_resume_def saveNote_finish_def
      deleteNote_resume_def fetchNotes_def timers_ok_show split: outcome.split option.split)

lemma timers_ok_step:
  assumes "step s e t" and "timers_ok s"
  shows "timers_ok t"
  using assms(1)
proof (cases rule: step_cases)
  case (settled i out r k)
  with assms(2) show ?thesis by (simp add: timers_ok_resume)
next
  case (elapsed d)
  with assms(2) show ?thesis by (simp add: timers_ok_elapse)
next
  case (copy n g)
  with assms(2) show ?thesis
    by (cases g)
      (simp_all add: copyShareLink_eq timers_ok_show
        timers_ok_cong [of "s\<lparr>clipboard := c\<rparr>" s for c])
qed (use assms(2) in \<open>simp_all add: deleteNote_def saveNote_def\<close>)

text \<open>The editor: \<open>commit\<close> establishes \<open>editor_mounted\<close> after any code.\<close>

lemma editor_mounted_step: "step s e t \<Longrightarrow> editor_mounted t"
  by (auto simp: fire_def)

text \<open>The spinner.\<close>

lemma continuations_take_inflight_other:
  assumes "k \<in> set (continuations s)" and "i < length (inflight s)"
    and "k \<noteq> snd (inflight s ! i)"
  shows "k \<in> set (continuations (take_inflight i s))"
proof -
  from assms(1) obtain j where j: "j < length (inflight s)" "snd (inflight s ! j) = k"
    by (auto simp: continuations_def in_set_conv_nth)
  with assms(3) have ne: "j \<noteq> i" by auto
  have "inflight s ! j \<in> set (take i (inflight s)) \<union> set (drop (Suc i) (inflight s))"
  proof (cases "j < i")
    case True
    with j(1) have "inflight s ! j = take i (inflight s) ! j" "j < length (take i (inflight s))"
      by simp_all
    then show ?thesis by (metis UnI1 nth_mem)
  next
    case False
    with ne j(1) have "inflight s ! j = drop (Suc i) (inflight s) ! (j - Suc i)"
      "j - Suc i < length (drop (Suc i) (inflight s))"
      by simp_all
    then show ?thesis by (metis UnI2 nth_mem)
  qed
  then have "snd (inflight s ! j) \<in> snd ` set (take i (inflight s) @ drop (Suc i) (inflight s))"
    by (intro imageI) simp
  with j(2) show ?thesis
    by (auto simp: continuations_def take_inflight_def)
qed

lemma loading_waits_grow:
  "loading_waits s \<Longrightarrow> loading t = loading s \<Longrightarrow>
     set (continuations s) \<subseteq> set (continuations t) \<Longrightarrow> loading_waits t"
  by (auto simp: loading_waits_def)

lemma loading_resume:
  "loading (resume k out s) \<longleftrightarrow> loading s \<and> k \<noteq> FetchNotes \<and> (\<forall>e. k \<noteq> SaveNoteReload e)"
  by (cases k) simp_all

lemma continuations_resume: "set (continuations s) \<subseteq> set (continuations (resume k out s))"
  by (cases k)
    (auto simp: continuations_def saveNote_resume_def saveNote_finish_def fetchNotes_def
      fetch_def setter_defs toast_defs split: outcome.split)

lemma loading_waits_resume:
  assumes "loading_waits s" and "i < length (inflight s)" and "inflight s ! i = (r, k)"
  shows "loading_waits (resume k out (take_inflight i s))"
proof (cases "loading (resume k out (take_inflight i s))")
  case True
  then have l: "loading s" and k: "k \<noteq> FetchNotes"
    by (simp_all add: loading_resume take_inflight_def)
  with assms have "FetchNotes \<in> set (continuations (take_inflight i s))"
    by (intro continuations_take_inflight_other) (auto simp: loading_waits_def)
  with continuations_resume show ?thesis
    by (auto simp: loading_waits_def)
next
  case False
  then show ?thesis by (simp add: loading_waits_def)
qed

lemma loading_waits_step:
  assumes "step s e t" and "loading_waits s"
  shows "loading_waits t"
  using assms(1)
proof (cases rule: step_cases)
  case (settled i out r k)
  with assms(2) have "loading_waits (resume k out (take_inflight i s))"
    by (simp add: loading_waits_resume)
  with settled show ?thesis by (simp add: loading_waits_def)
qed (use assms(2) in \<open>auto elim!: loading_waits_grow
      simp: setter_defs deleteNote_def saveNote_def
        toast_defs Let_def fetch_def continuations_def fold_timer_fired\<close>)

lemma loading_stays_off:
  assumes "step s e t" and "\<not> loading s"
  shows "\<not> loading t"
  using assms(1)
proof (cases rule: step_cases)
  case (settled i out r k)
  with assms(2) show ?thesis by (simp add: loading_resume take_inflight_def)
qed (use assms(2) in \<open>simp_all add: setter_defs deleteNote_def saveNote_def toast_defs Let_def
      fetch_def fold_timer_fired\<close>)

lemma run_loading_off: "run es s = Some t \<Longrightarrow> \<not> loading s \<Longrightarrow> \<not> loading t"
proof (induction es arbitrary: s)
  case Nil
  then show ?case by simp
next
  case (Cons e es)
  from Cons.prems(1) have en: "enabled s e" and r: "run es (fire e s) = Some t"
    by (auto split: if_splits)
  from en have "step s e (fire e s)" by (rule step.fired)
  then have "\<not> loading (fire e s)" using Cons.prems(2) by (rule loading_stays_off)
  with r show ?case by (rule Cons.IH)
qed

text \<open>While the first load is awaited there is nothing to delete.\<close>

lemma list_ex_take_inflight:
  "\<not> list_ex P (continuations s) \<Longrightarrow> \<not> list_ex P (continuations (take_inflight i s))"
  using continuations_take_inflight [of i s] by (auto simp: list_ex_iff)

lemma loading_blank_resume:
  assumes "loading_blank (take_inflight i s)" and "k \<in> set (continuations s)"
    and "loading s \<longrightarrow> \<not> is_delete k"
  shows "loading_blank (resume k out (take_inflight i s))"
  using assms
  by (cases k; cases out)
    (auto simp: loading_blank_def saveNote_resume_def fetchNotes_def take_inflight_def
      continuations_def list_ex_iff fetch_def deleteNote_resume_def toast_defs setter_defs)

lemma loading_blank_step:
  assumes "step s e t" and "loading_blank s"
  shows "loading_blank t"
  using assms(1)
proof (cases rule: step_cases)
  case (settled i out r k)
  from settled(2,3) have k: "k \<in> set (continuations s)"
    by (force simp: continuations_def in_set_conv_nth)
  from assms(2) have a: "loading_blank (take_inflight i s)"
    using list_ex_take_inflight [of is_delete s i]
    by (auto simp: loading_blank_def take_inflight_def)
  from assms(2) k have b: "loading s \<longrightarrow> \<not> is_delete k"
    by (auto simp: loading_blank_def list_ex_iff)
  from a k b have "loading_blank (resume k out (take_inflight i s))"
    by (rule loading_blank_resume)
  with settled show ?thesis by (simp add: loading_blank_def)
qed (use assms(2) in \<open>auto simp: loading_blank_def setter_defs deleteNote_def saveNote_def
      toast_defs Let_def fold_timer_fired list_ex_iff
      continuations_def fetch_def\<close>)

text \<open>The share modal.\<close>

lemma shareModal_resume [simp]: "shareModal (resume k out s) = shareModal s"
  by (cases k)
    (simp_all add: saveNote_resume_def saveNote_finish_def fetchNotes_def fetch_def
      setter_defs toast_defs split: outcome.split)

lemma share_public_step:
  assumes "step s e t" and "share_public s"
  shows "share_public t"
  using assms(1)
  by (cases rule: step_cases)
    (use assms(2) in \<open>simp_all add: share_public_def setter_defs deleteNote_def saveNote_def
      fetch_def take_inflight_def toast_defs Let_def fold_timer_fired\<close>)

text \<open>The requests in flight.\<close>

lemma inflight_resume:
  "inflight (resume k out s) =
     inflight s @
       (case k of
          SaveNote e \<Rightarrow> if succeeded out then [(fetchNotes_request, SaveNoteReload e)] else []
        | _ \<Rightarrow> [])"
  by (cases k; cases out)
    (simp_all add: saveNote_resume_def saveNote_finish_def fetchNotes_def fetch_def setter_defs)

lemma requests_ok_commit [simp]: "requests_ok (commit s) = requests_ok s"
  by (simp add: requests_ok_def)

lemma requests_ok_fetch:
  "requests_ok (fetch r k s) \<longleftrightarrow> requests_ok s \<and> request_for k r"
  by (simp add: requests_ok_def fetch_def)

lemma requests_ok_take_inflight: "requests_ok s \<Longrightarrow> requests_ok (take_inflight i s)"
  using set_take_drop_Suc_subset [of i "inflight s"]
  by (auto simp: requests_ok_def take_inflight_def list_all_iff)

lemma requests_ok_resume: "requests_ok s \<Longrightarrow> requests_ok (resume k out s)"
  by (cases k) (simp_all add: requests_ok_def inflight_resume del: resume.simps)

lemma filteredNotes_ids:
  "n \<in> set (filteredNotes s) \<Longrightarrow> note_id n \<in> set (note_ids (note_list s))"
  by (auto simp: filteredNotes_def note_ids_def)

lemma requests_ok_step:
  assumes "step s e t" and "requests_ok s"
  shows "requests_ok t"
  using assms(1)
proof (cases rule: step_cases)
  case (delete n)
  with assms(2) show ?thesis
    by (simp add: deleteNote_def requests_ok_fetch filteredNotes_ids)
next
  case (save d)
  with assms(2) show ?thesis
    by (simp add: saveNote_def requests_ok_fetch saveNote_request_def)
next
  case (settled i out r k)
  with assms(2) show ?thesis
    by (simp add: requests_ok_resume requests_ok_take_inflight)
qed (use assms(2) in \<open>simp_all add: requests_ok_def setter_defs Let_def\<close>)

text \<open>The origin.\<close>

lemma origin_resume [simp]: "origin (resume k out s) = origin s"
  by (cases k)
    (simp_all add: saveNote_resume_def saveNote_finish_def deleteNote_resume_def
      fetchNotes_def fetch_def setter_defs toast_defs split: outcome.split)

lemma origin_step: "step s e t \<Longrightarrow> origin t = origin s"
  by (erule step_cases)
    (simp_all add: setter_defs deleteNote_def saveNote_def fetch_def take_inflight_def
      toast_defs Let_def fold_timer_fired)

section \<open>The invariant of the component\<close>

lemma mount_eq:
  "mount org = (useState_init org)\<lparr>inflight := [(fetchNotes_request, FetchNotes)]\<rparr>"
  by (simp add: mount_def commit_def fetchNotes_def fetch_def useState_init_def editor_open_def)

lemma app_inv_mount: "app_inv (mount org)"
  by (simp add: mount_eq app_inv_def timers_ok_def editor_mounted_def editor_open_def
      loading_waits_def loading_blank_def share_public_def requests_ok_def useState_init_def
      continuations_def)

lemma app_inv_step:
  assumes "step s e t" and "app_inv s"
  shows "app_inv t"
  using assms(2) timers_ok_step [OF assms(1)] editor_mounted_step [OF assms(1)]
    loading_waits_step [OF assms(1)] loading_blank_step [OF assms(1)]
    share_public_step [OF assms(1)]
    requests_ok_step [OF assms(1)]
  by (simp add: app_inv_def)

lemma reach_app_inv: "reach env org s \<Longrightarrow> app_inv s"
proof (induction rule: reach.induct)
  case mounted
  show ?case by (rule app_inv_mount)
next
  case (after s e t)
  from after.hyps(3) after.IH show ?case by (rule app_inv_step)
qed

lemma reach_origin: "reach env org s \<Longrightarrow> origin s = org"
  by (induction rule: reach.induct) (simp_all add: origin_step mount_eq useState_init_def)

section \<open>Unique identifiers\<close>

lemma ids_ok_commit [simp]: "ids_ok (commit s) = ids_ok s"
  by (simp add: ids_ok_def)

lemma ids_ok_take_inflight: "ids_ok s \<Longrightarrow> ids_ok (take_inflight i s)"
  using continuations_take_inflight [of i s]
  by (auto simp: ids_ok_def list_all_iff take_inflight_def)

lemma captured_unique_nth:
  "ids_ok s \<Longrightarrow> i < length (inflight s) \<Longrightarrow> inflight s ! i = (r, k) \<Longrightarrow> captured_unique k"
  by (force simp: ids_ok_def list_all_iff continuations_def in_set_conv_nth)

lemma note_list_resume:
  "note_list (resume k out s) =
     (case k of
        FetchNotes \<Rightarrow> note_list (fetchNotes_resume out s)
      | SaveNote e \<Rightarrow> note_list s
      | SaveNoteReload e \<Rightarrow> note_list (fetchNotes_resume out s)
      | DeleteNote i ns \<Rightarrow> if succeeded out then without_id i ns else note_list s)"
  by (cases k) (simp_all add: note_list_deleteNote_resume)

lemma unique_fetchNotes_resume:
  "unique_ids (note_list s) \<Longrightarrow> unique_outcome out \<Longrightarrow>
     unique_ids (note_list (fetchNotes_resume out s))"
  by (cases out) (auto simp: note_list_fetchNotes_resume split: option.split)

lemma ids_ok_resume:
  assumes "ids_ok s" and "captured_unique k" and "unique_outcome out"
  shows "ids_ok (resume k out s)"
proof -
  from assms have "unique_ids (note_list (resume k out s))"
    by (cases k)
      (simp_all add: note_list_resume ids_ok_def unique_fetchNotes_resume
        unique_ids_without_id del: resume.simps)
  moreover from assms(1) have "list_all captured_unique (continuations (resume k out s))"
    by (cases k) (simp_all add: ids_ok_def continuations_def inflight_resume del: resume.simps)
  ultimately show ?thesis by (simp add: ids_ok_def)
qed

lemma ids_ok_step:
  assumes "step s e t" and "unique_event e" and "ids_ok s"
  shows "ids_ok t"
  using assms(1)
proof (cases rule: step_cases)
  case (settled i out r k)
  with assms(2,3) show ?thesis
    by (simp add: ids_ok_resume ids_ok_take_inflight
        captured_unique_nth [of s i r k])
qed (use assms(3) in \<open>simp_all add: ids_ok_def continuations_def setter_defs deleteNote_def
      saveNote_def fetch_def toast_defs Let_def fold_timer_fired\<close>)

lemma ids_ok_mount: "ids_ok (mount org)"
  by (simp add: ids_ok_def mount_eq useState_init_def continuations_def unique_ids_def
      note_ids_def)

lemma reach_ids_ok: "reach unique_event org s \<Longrightarrow> ids_ok s"
proof (induction rule: reach.induct)
  case mounted
  show ?case by (rule ids_ok_mount)
next
  case (after s e t)
  from after.hyps(3,2) after.IH show ?case by (rule ids_ok_step)
qed

end
