(* ===== verification/Scenarios.thy ===== *)
theory Scenarios
  imports App_Invariants
begin

text \<open>
  Concrete notes and the states of a short session with them: the list has loaded
  (\<open>loaded\<close>), the first load has failed (\<open>load_failed\<close>), the user has opened the
  editor for a new note and typed a title (\<open>drafting\<close>). Each state is reached from
  the mounted component by enabled events; the lemmas give its fields, so that the
  properties of the development can be applied to it.
\<close>

section \<open>Notes and states\<close>

definition groceries :: Note where
  "groceries =
     \<lparr>title = ''Groceries'', content = ''milk, eggs'', isPublic = False,
      note_id = ''1'', createdAt = ''2024-05-01T10:00:00Z''\<rparr>"

definition recipe :: Note where
  "recipe =
     \<lparr>title = ''Recipe'', content = ''Pancakes: flour, milk'', isPublic = True,
      note_id = ''2'', createdAt = ''2024-05-02T09:30:00Z''\<rparr>"

definition home :: url where
  "home = ''http://localhost:3000''"

definition loaded :: app_state where
  "loaded = fire (Settled 0 (ok_response [groceries, recipe])) (mount home)"

definition load_failed :: app_state where
  "load_failed = fire (Settled 0 Rejected) (mount home)"

definition tasks :: noteData where
  "tasks = \<lparr>title = ''Tasks'', content = [], isPublic = False\<rparr>"

definition drafting :: app_state where
  "drafting = fire (EditorEvent (TitleInput ''Tasks'')) (fire NewNoteClick loaded)"

lemmas scenario_defs = groceries_def recipe_def home_def tasks_def

section \<open>The states, field by field\<close>

lemma loaded_eq:
  "loaded = (useState_init home)\<lparr>note_list := [groceries, recipe], loading := False\<rparr>"
  by (simp add: loaded_def mount_eq fire_def settle_def take_inflight_def commit_def
      editor_open_def useState_init_def)

lemma load_failed_eq:
  "load_failed = (useState_init home)
     \<lparr>notification := Some \<lparr>message = ''Failed to load notes'', type = Error\<rparr>,
      timers := [3000], loading := False\<rparr>"
  by (simp add: load_failed_def mount_eq fire_def settle_def take_inflight_def commit_def
      editor_open_def useState_init_def fetchNotes_resume_def setter_defs toast_defs)

lemma drafting_eq:
  "drafting = loaded\<lparr>isCreating := True, editor := Some tasks\<rparr>"
  by (simp add: drafting_def loaded_eq fire_def commit_def editor_open_def draft_def
      useState_init_def setter_defs setTitle_def tasks_def)

lemma loaded_fields [simp]:
  "note_list loaded = [groceries, recipe]" "filteredNotes loaded = [groceries, recipe]"
  "\<not> loading loaded" "inflight loaded = []" "editor loaded = None" "\<not> editor_open loaded"
  "notification loaded = None" "editingNote loaded = None" "searchTerm loaded = []"
  "origin loaded = home"
  by (simp_all add: loaded_eq useState_init_def filteredNotes_def editor_open_def)

lemma drafting_fields [simp]:
  "note_list drafting = [groceries, recipe]" "filteredNotes drafting = [groceries, recipe]"
  "\<not> loading drafting" "inflight drafting = []" "editor drafting = Some tasks"
  "notification drafting = None" "editingNote drafting = None" "isCreating drafting"
  by (simp_all add: drafting_eq filteredNotes_def loaded_eq useState_init_def)

lemma load_failed_fields [simp]:
  "notification load_failed = Some \<lparr>message = ''Failed to load notes'', type = Error\<rparr>"
  "note_list load_failed = []" "\<not> loading load_failed"
  by (simp_all add: load_failed_eq useState_init_def)

lemma tasks_savable [simp]: "\<not> save_disabled tasks"
  by (simp add: save_disabled_white tasks_def is_white_space_def)

lemma scenario_ids [simp]:
  "note_id groceries = ''1''" "note_id recipe = ''2''" "groceries \<noteq> recipe"
  "\<not> isPublic groceries" "isPublic recipe"
  by (simp_all add: groceries_def recipe_def)

section \<open>They are reachable\<close>

lemma reach_loaded: "list_all env [Settled 0 (ok_response [groceries, recipe])] \<Longrightarrow> reach env home loaded"
  unfolding loaded_def
  by (rule reach_fire [OF reach.mounted]) (simp_all add: mount_eq)

lemma reachable_loaded: "reachable home loaded"
  by (rule reach_loaded) simp

lemma unique_loaded: "reach unique_event home loaded"
  by (rule reach_loaded) (simp add: ok_response_def unique_ids_def note_ids_def)

lemma reachable_load_failed: "reachable home load_failed"
  unfolding load_failed_def
  by (rule reach_fire [OF reach.mounted]) (simp_all add: mount_eq)

lemma reachable_drafting: "reachable home drafting"
  unfolding drafting_def
  by (intro reach_fire reachable_loaded)
    (simp_all add: fire_def editor_commit editor_open_def setter_defs)

end
