(* ===== verification/App_Flows.thy ===== *)
theory App_Flows
  imports Scenarios
begin

text \<open>
  User operations from the click to the last answer of the store, as runs of the
  machine of \<open>App_Machine\<close>. A request that a handler sends is the last call in
  flight, at position \<open>length (inflight s)\<close> of the state after the click; the flows
  settle that position, so they hold whatever else is in flight. In a reachable state
  the editor's state is mounted exactly while the editor is open (\<open>reach_mounted\<close>),
  so \<open>commit\<close> changes nothing unless the step opens or closes the editor, and the
  state after a click and its answer is the state after the handler and its
  continuation (\<open>fire_delete\<close>, \<open>fire_save\<close>, \<open>fire_settle_fetch\<close>).

  The flows: saving (success, failure, a second click before the answer), deleting
  (every outcome; with unique identifiers; two deletes that overlap), and the life of
  the editor's draft (mounted fresh, torn down on close, kept when the note being
  edited changes while the editor is open).
\<close>

section \<open>A call and its continuation\<close>

lemma settle_fetch [simp]: "settle (length (inflight s)) out (fetch r k s) = resume k out s"
  by (simp add: settle_def fetch_def take_inflight_def)

lemma editor_mounted_frame:
  "editor t = editor s \<Longrightarrow> isCreating t = isCreating s \<Longrightarrow> editingNote t = editingNote s \<Longrightarrow>
     editor_mounted t = editor_mounted s"
  by (simp add: editor_mounted_def editor_open_def)

lemma editor_mounted_fetch [simp]: "editor_mounted (fetch r k s) = editor_mounted s"
  by (rule editor_mounted_frame) simp_all

lemma editor_mounted_deleteNote_resume [simp]:
  "editor_mounted (deleteNote_resume i ns out s) = editor_mounted s"
  by (rule editor_mounted_frame) simp_all

lemma editor_mounted_fetchNotes_resume [simp]:
  "editor_mounted (fetchNotes_resume out s) = editor_mounted s"
  by (rule editor_mounted_frame) simp_all

lemma editor_mounted_saveNote_resume [simp]:
  "editor_mounted (saveNote_resume e out s) = editor_mounted s"
  by (rule editor_mounted_frame) (simp_all add: saveNote_resume_def fetchNotes_def fetch_def
      split: outcome.split)

lemma fire_idle: "editor_mounted (handle e s) \<Longrightarrow> fire e s = handle e s"
  by (simp add: fire_def commit_idle)

section \<open>Deleting\<close>

lemma fire_delete:
  "editor_mounted s \<Longrightarrow>
     fire (CardClick n DeleteBtn) s =
       fetch (deleteNote_request (note_id n)) (DeleteNote (note_id n) (note_list s)) s"
  by (simp add: fire_idle deleteNote_def)

lemma fire_settle_fetch:
  "editor_mounted (resume k out s) \<Longrightarrow>
     fire (Settled (length (inflight s)) out) (fetch r k s) = resume k out s"
  by (simp add: fire_idle)

lemma delete_then_settle:
  "editor_mounted s \<Longrightarrow>
     fire (Settled (length (inflight s)) out) (fire (CardClick n DeleteBtn) s) =
       deleteNote_resume (note_id n) (note_list s) out s"
  by (simp add: fire_delete fire_settle_fetch)

lemma run_two:
  "enabled s a \<Longrightarrow> enabled (fire a s) b \<Longrightarrow> run [a, b] s = Some (fire b (fire a s))"
  by simp

lemma note_list_deleted:
  "note_list (deleteNote_resume i ns out s) = (if succeeded out then without_id i ns else note_list s)"
  by (cases out) (simp_all add: note_list_deleteNote_resume)

lemma notification_deleted:
  "notification (deleteNote_resume i ns out s) =
     (case out of
        Rejected \<Rightarrow> Some \<lparr>message = ''Failed to delete note'', type = Error\<rparr>
      | Resolved r \<Rightarrow> if ok r then Some \<lparr>message = ''Note deleted!'', type = Success\<rparr>
                     else notification s)"
  by (simp add: deleteNote_resume_def split: outcome.split)

lemma reach_mounted: "reach env org s \<Longrightarrow> editor_mounted s"
  using reach_app_inv by (simp add: app_inv_def)

lemma run_delete:
  "editor_mounted s \<Longrightarrow> enabled s (CardClick n DeleteBtn) \<Longrightarrow>
     run [CardClick n DeleteBtn, Settled (length (inflight s)) out] s =
       Some (deleteNote_resume (note_id n) (note_list s) out s)"
  by (simp add: fire_delete fire_settle_fetch)

text \<open>
  C9 (functional). A click on the delete button of a card, followed by the answer to
  its request. The run is possible; if the store answered with an ok status the list is
  the list at the click without the notes of that identifier and the notification says
  "Note deleted!"; if the promise rejected the list is unchanged and the notification
  says "Failed to delete note"; if the status was not ok nothing has changed at all.
  The editor, the search term and the other calls in flight are as before.
\<close>

theorem delete_flow:
  assumes "reach env org s" and "enabled s (CardClick n DeleteBtn)"
  shows "\<exists>t. run [CardClick n DeleteBtn, Settled (length (inflight s)) out] s = Some t \<and>
           note_list t = (if succeeded out then without_id (note_id n) (note_list s) else note_list s) \<and>
           notification t =
             (case out of
                Rejected \<Rightarrow> Some \<lparr>message = ''Failed to delete note'', type = Error\<rparr>
              | Resolved r \<Rightarrow> if ok r then Some \<lparr>message = ''Note deleted!'', type = Success\<rparr>
                             else notification s) \<and>
           inflight t = inflight s \<and> editor t = editor s \<and> searchTerm t = searchTerm s"
  using run_delete [OF reach_mounted [OF assms(1)] assms(2), of out]
  by (simp add: note_list_deleted notification_deleted del: run.simps)


theorem delete_flow_witness:
  "\<exists>t. run [CardClick groceries DeleteBtn, Settled 0 ok_empty] loaded = Some t \<and>
       note_list t = [recipe] \<and>
       notification t = Some \<lparr>message = ''Note deleted!'', type = Success\<rparr>"
  using delete_flow [OF reachable_loaded, of groceries ok_empty]
  by (auto simp: without_id_def ok_empty_def simp del: run.simps)

text \<open>
  C3 (functional). If the store sends lists with unique identifiers, a successful
  delete removes exactly the note whose button was clicked: the list afterwards is the
  list before without that one entry, every other note is where and what it was, and
  the identifiers are still unique.
\<close>

theorem delete_removes_that_note:
  assumes "reach unique_event org s" and "enabled s (CardClick n DeleteBtn)"
    and "succeeded out"
  shows "\<exists>t. run [CardClick n DeleteBtn, Settled (length (inflight s)) out] s = Some t \<and>
             note_list t = remove1 n (note_list s) \<and> n \<notin> set (note_list t) \<and>
             Suc (length (note_list t)) = length (note_list s) \<and> unique_ids (note_list t)"
proof -
  from assms(1) have u: "unique_ids (note_list s)" using reach_ids_ok by (simp add: ids_ok_def)
  from assms(2) have n: "n \<in> set (note_list s)" by (simp add: set_filteredNotes)
  from u have d: "distinct (note_list s)"
    by (simp add: unique_ids_def note_ids_def distinct_map)
  from u n have w: "without_id (note_id n) (note_list s) = remove1 n (note_list s)"
    by (rule without_id_remove1)
  from n have "0 < length (note_list s)" by (cases "note_list s") simp_all
  moreover from u have "unique_ids (without_id (note_id n) (note_list s))"
    by (rule unique_ids_without_id)
  ultimately show ?thesis using w d n assms(3)
    using run_delete [OF reach_mounted [OF assms(1)] assms(2), of out]
    by (simp add: note_list_deleted length_remove1 del: run.simps)
qed

theorem delete_removes_that_note_witness:
  "\<exists>t. run [CardClick recipe DeleteBtn, Settled 0 ok_empty] loaded = Some t \<and>
       note_list t = [groceries]"
  using delete_removes_that_note [OF unique_loaded, of recipe ok_empty]
  by (auto simp del: run.simps)

section \<open>Two deletes that overlap\<close>

lemma deleteNote_resume_fetch:
  "deleteNote_resume i ns out (fetch r k s) = fetch r k (deleteNote_resume i ns out s)"
  by (simp add: deleteNote_resume_def fetch_def setter_defs toast_defs split: outcome.split)

lemma settle_first_of_two:
  "settle (length (inflight s)) out (fetch r2 k2 (fetch r1 k1 s)) = resume k1 out (fetch r2 k2 s)"
  by (simp add: settle_def fetch_def take_inflight_def nth_append)

lemma overlapping_deletes:
  assumes "editor_mounted s"
  shows "fire (Settled (length (inflight s)) o2)
           (fire (Settled (length (inflight s)) o1)
              (fire (CardClick m DeleteBtn) (fire (CardClick n DeleteBtn) s))) =
         deleteNote_resume (note_id m) (note_list s) o2
           (deleteNote_resume (note_id n) (note_list s) o1 s)"
proof -
  let ?kn = "DeleteNote (note_id n) (note_list s)" and ?km = "DeleteNote (note_id m) (note_list s)"
  let ?rn = "deleteNote_request (note_id n)" and ?rm = "deleteNote_request (note_id m)"
  from assms have "fire (CardClick m DeleteBtn) (fire (CardClick n DeleteBtn) s) =
      fetch ?rm ?km (fetch ?rn ?kn s)"
    by (simp add: fire_delete)
  moreover from assms have "fire (Settled (length (inflight s)) o1) (fetch ?rm ?km (fetch ?rn ?kn s)) =
      fetch ?rm ?km (deleteNote_resume (note_id n) (note_list s) o1 s)"
    by (simp add: fire_idle settle_first_of_two deleteNote_resume_fetch)
  moreover from assms have "fire (Settled (length (inflight s)) o2)
        (fetch ?rm ?km (deleteNote_resume (note_id n) (note_list s) o1 s)) =
      deleteNote_resume (note_id m) (note_list s) o2 (deleteNote_resume (note_id n) (note_list s) o1 s)"
    using fire_settle_fetch [of ?km o2 "deleteNote_resume (note_id n) (note_list s) o1 s" ?rm]
    by simp
  ultimately show ?thesis by simp
qed

text \<open>
  C6 (safety, violated). \<^verbatim>\<open>deleteNote\<close> stores \<^verbatim>\<open>notes.filter(...)\<close> where
  \<^verbatim>\<open>notes\<close> is the list of the render in which the button was clicked. When the user
  deletes two notes before the first answer arrives and the store deletes both, the
  second continuation puts back the note that the first one had removed: the list on
  screen is the old list without the second note only, and it shows a note that the
  store no longer has.
\<close>

theorem stale_delete_resurrects:
  assumes "reach env org s"
    and "enabled s (CardClick n DeleteBtn)" and "enabled s (CardClick m DeleteBtn)"
    and "note_id n \<noteq> note_id m"
  shows "\<exists>t. run [CardClick n DeleteBtn, CardClick m DeleteBtn,
                  Settled (length (inflight s)) ok_empty, Settled (length (inflight s)) ok_empty] s
               = Some t \<and>
             note_list t = without_id (note_id m) (note_list s) \<and> n \<in> set (note_list t) \<and>
             inflight t = inflight s"
proof -
  from assms(1) have m: "editor_mounted s" by (rule reach_mounted)
  let ?t = "deleteNote_resume (note_id m) (note_list s) ok_empty
              (deleteNote_resume (note_id n) (note_list s) ok_empty s)"
  have en: "enabled (fire (CardClick n DeleteBtn) s) (CardClick m DeleteBtn)"
    using m assms(3) by (simp add: fire_delete)
  have e3: "enabled (fire (CardClick m DeleteBtn) (fire (CardClick n DeleteBtn) s))
      (Settled (length (inflight s)) ok_empty)"
    using m by (simp add: fire_delete)
  have e4: "enabled (fire (Settled (length (inflight s)) ok_empty)
      (fire (CardClick m DeleteBtn) (fire (CardClick n DeleteBtn) s)))
      (Settled (length (inflight s)) ok_empty)"
    using m by (simp add: fire_delete fire_idle settle_first_of_two deleteNote_resume_fetch)
  from assms(2) en e3 e4 have "run [CardClick n DeleteBtn, CardClick m DeleteBtn,
      Settled (length (inflight s)) ok_empty, Settled (length (inflight s)) ok_empty] s = Some ?t"
    using overlapping_deletes [OF m, of ok_empty ok_empty m n] by simp
  moreover from assms(2,4) have "n \<in> set (without_id (note_id m) (note_list s))"
    by (auto simp: without_id_def filteredNotes_def filter_notes_def)
  ultimately show ?thesis by (simp add: note_list_deleted)
qed


theorem stale_delete_resurrects_witness:
  "\<exists>t. run [CardClick groceries DeleteBtn, CardClick recipe DeleteBtn,
            Settled 0 ok_empty, Settled 0 ok_empty] loaded = Some t \<and>
       note_list t = [groceries]"
  using stale_delete_resurrects [OF reachable_loaded, of groceries recipe]
  by (auto simp: without_id_def simp del: run.simps)

section \<open>Saving\<close>

lemma fire_save:
  "editor_mounted s \<Longrightarrow> editor s = Some d \<Longrightarrow> \<not> save_disabled d \<Longrightarrow>
     fire (EditorEvent SaveClick) s =
       fetch (saveNote_request (editingNote s) d) (SaveNote (editingNote s)) s"
  by (simp add: fire_idle saveNote_def)

lemma saveNote_resume_succeeded:
  "succeeded out \<Longrightarrow> saveNote_resume e out s = fetch fetchNotes_request (SaveNoteReload e) s"
  by (cases out) (simp_all add: saveNote_resume_def fetchNotes_def)

lemma saveNote_resume_failed:
  "\<not> succeeded out \<Longrightarrow>
     saveNote_resume e out s =
       (if out = Rejected then showNotification ''Failed to save note'' (Some Error) s else s)"
  by (cases out) (simp_all add: saveNote_resume_def)

lemma save_then_settle:
  "editor_mounted s \<Longrightarrow> editor s = Some d \<Longrightarrow> \<not> save_disabled d \<Longrightarrow>
     fire (Settled (length (inflight s)) out) (fire (EditorEvent SaveClick) s) =
       saveNote_resume (editingNote s) out s"
  by (simp add: fire_save fire_settle_fetch)

lemma enabled_save: "editor s = Some d \<Longrightarrow> enabled s (EditorEvent SaveClick) = (\<not> save_disabled d)"
  by simp

lemma saveNote_finish_frame [simp]:
  "inflight (saveNote_finish e out s) = inflight s"
  "searchTerm (saveNote_finish e out s) = searchTerm s"
  "shareModal (saveNote_finish e out s) = shareModal s"
  by (simp_all add: saveNote_finish_def setter_defs)

text \<open>
  C2 (functional). The save button, the answer of the store with an ok status, and the
  answer to the reload that \<^verbatim>\<open>saveNote\<close> then awaits. The run is possible from every
  reachable state whose editor holds a draft with a title that is not blank. Afterwards
  the list is the body of the reload, the editor is closed and unmounted, and the
  notification says "Note updated!" if a note was being edited when the button was
  clicked and "Note created!" otherwise.
\<close>

theorem save_flow:
  assumes "reach env org s" and "editor s = Some d" and "\<not> save_disabled d"
    and "succeeded out"
  shows "\<exists>t. run [EditorEvent SaveClick, Settled (length (inflight s)) out,
                  Settled (length (inflight s)) (ok_response data)] s = Some t \<and>
             note_list t = data \<and>
             notification t =
               Some \<lparr>message = (if editingNote s \<noteq> None then ''Note updated!'' else ''Note created!''),
                     type = Success\<rparr> \<and>
             editor t = None \<and> \<not> isCreating t \<and> editingNote t = None \<and> \<not> loading t \<and>
             inflight t = inflight s"
proof -
  from assms(1) have m: "editor_mounted s" by (rule reach_mounted)
  let ?e = "editingNote s"
  let ?t = "commit (saveNote_finish ?e (ok_response data) s)"
  have 1: "fire (Settled (length (inflight s)) out) (fire (EditorEvent SaveClick) s) =
      fetch fetchNotes_request (SaveNoteReload ?e) s"
    using m assms(2-4) by (simp add: save_then_settle saveNote_resume_succeeded)
  have 2: "fire (Settled (length (inflight s)) (ok_response data))
      (fetch fetchNotes_request (SaveNoteReload ?e) s) = ?t"
    by (simp add: fire_def)
  have "enabled (fire (EditorEvent SaveClick) s) (Settled (length (inflight s)) out)"
    using m assms(2,3) by (simp add: fire_save)
  with assms(2,3) 1 2 have "run [EditorEvent SaveClick, Settled (length (inflight s)) out,
      Settled (length (inflight s)) (ok_response data)] s = Some ?t"
    by simp
  then show ?thesis by (simp add: editor_commit editor_open_def)
qed

theorem save_flow_witness:
  "\<exists>t. run [EditorEvent SaveClick, Settled 0 ok_empty, Settled 0 (ok_response [groceries])]
         drafting = Some t \<and>
       note_list t = [groceries] \<and>
       notification t = Some \<lparr>message = ''Note created!'', type = Success\<rparr> \<and>
       editor t = None"
  using save_flow [OF reachable_drafting, of tasks ok_empty "[groceries]"]
  by (auto simp del: run.simps)

text \<open>
  C10 (error). A save that fails leaves the editor as it is: open, in the same mode and
  with the draft that was sent, so that the user can send it again. The list is
  unchanged. The notification says "Failed to save note" if the promise rejected; after
  a status that is not ok it is what it was before.
\<close>

theorem failed_save_keeps_draft:
  assumes "reach env org s" and "editor s = Some d" and "\<not> save_disabled d"
    and "\<not> succeeded out"
  shows "\<exists>t. run [EditorEvent SaveClick, Settled (length (inflight s)) out] s = Some t \<and>
             editor t = Some d \<and> isCreating t = isCreating s \<and> editingNote t = editingNote s \<and>
             note_list t = note_list s \<and> inflight t = inflight s \<and>
             notification t =
               (if out = Rejected then Some \<lparr>message = ''Failed to save note'', type = Error\<rparr>
                else notification s) \<and>
             enabled t (EditorEvent SaveClick)"
proof -
  from assms(1) have m: "editor_mounted s" by (rule reach_mounted)
  let ?t = "saveNote_resume (editingNote s) out s"
  have "enabled (fire (EditorEvent SaveClick) s) (Settled (length (inflight s)) out)"
    using m assms(2,3) by (simp add: fire_save)
  with m assms(2,3) have "run [EditorEvent SaveClick, Settled (length (inflight s)) out] s = Some ?t"
    by (simp add: save_then_settle)
  then show ?thesis using assms(2-4) by (simp add: saveNote_resume_failed)
qed

theorem failed_save_keeps_draft_witness:
  "\<exists>t. run [EditorEvent SaveClick, Settled 0 Rejected] drafting = Some t \<and>
       editor t = Some tasks \<and> isCreating t \<and>
       notification t = Some \<lparr>message = ''Failed to save note'', type = Error\<rparr>"
  using failed_save_keeps_draft [OF reachable_drafting, of tasks Rejected]
  by (auto simp del: run.simps)

text \<open>
  C32 (safety, violated). Nothing disables the save button while a save is in flight:
  a second click sends the same request again, so that a note is created twice.
\<close>

theorem double_submit_sends_twice:
  assumes "reach env org s" and "editor s = Some d" and "\<not> save_disabled d"
  shows "\<exists>t. run [EditorEvent SaveClick, EditorEvent SaveClick] s = Some t \<and>
             inflight t = inflight s @
               [(saveNote_request (editingNote s) d, SaveNote (editingNote s)),
                (saveNote_request (editingNote s) d, SaveNote (editingNote s))]"
proof -
  from assms(1) have m: "editor_mounted s" by (rule reach_mounted)
  let ?r = "saveNote_request (editingNote s) d" and ?k = "SaveNote (editingNote s)"
  from m assms(2,3) have "run [EditorEvent SaveClick, EditorEvent SaveClick] s =
      Some (fetch ?r ?k (fetch ?r ?k s))"
    using fire_save [of "fetch ?r ?k s" d] by (simp add: fire_save)
  then show ?thesis by simp
qed

theorem double_submit_sends_twice_witness:
  "\<exists>t. run [EditorEvent SaveClick, EditorEvent SaveClick] drafting = Some t \<and>
       map (req_method \<circ> fst) (inflight t) = [POST, POST] \<and>
       map (req_body \<circ> fst) (inflight t) = [Some tasks, Some tasks]"
  using double_submit_sends_twice [OF reachable_drafting, of tasks]
  by (auto simp del: run.simps)

section \<open>Opening and closing the editor\<close>

lemma fire_open:
  "\<not> editor_open s \<Longrightarrow> editor s = None \<Longrightarrow>
     editor (fire NewNoteClick s) = Some (editor_init None) \<and>
     editor (fire EmptyCreateClick s) = Some (editor_init None) \<and>
     editor (fire (CardClick n EditBtn) s) = Some (editor_init (Some n))"
  by (simp add: fire_def editor_commit editor_open_def draft_def setter_defs)

lemma fire_close:
  "editor s = Some d \<Longrightarrow>
     editor (fire (EditorEvent CancelClick) s) = None \<and>
     editor (fire (EditorEvent CloseClick) s) = None"
  by (simp add: fire_def editor_commit editor_open_def setter_defs)

text \<open>
  C29 (functional). While the editor is closed, opening it mounts \<^verbatim>\<open>NoteEditor\<close> with
  fresh state: blank and not public for a new note, title, content and flag of the
  note for the edit button of a card.
\<close>

theorem editor_opens_fresh:
  assumes "reach env org s" and "\<not> editor_open s"
  shows "editor (fire NewNoteClick s) = Some \<lparr>title = [], content = [], isPublic = False\<rparr> \<and>
         editor (fire EmptyCreateClick s) = Some \<lparr>title = [], content = [], isPublic = False\<rparr> \<and>
         editor (fire (CardClick n EditBtn) s) = Some (data_of n) \<and>
         editingNote (fire (CardClick n EditBtn) s) = Some n \<and>
         isCreating (fire NewNoteClick s)"
proof -
  from assms have "editor s = None"
    using reach_app_inv [OF assms(1)] by (simp add: app_inv_def editor_mounted_def)
  with assms(2) show ?thesis
    using fire_open [of s n] by (simp add: fire_def setter_defs)
qed

theorem editor_opens_fresh_witness:
  "editor (fire NewNoteClick loaded) = Some \<lparr>title = [], content = [], isPublic = False\<rparr> \<and>
   editor (fire (CardClick recipe EditBtn) loaded) =
     Some \<lparr>title = ''Recipe'', content = ''Pancakes: flour, milk'', isPublic = True\<rparr>"
  using editor_opens_fresh [OF reachable_loaded, of recipe]
  by (simp add: data_of_def recipe_def)

text \<open>
  C30 (functional). Cancel and the close button unmount the editor, and what had been
  typed is gone: the editor opened next for a new note is blank.
\<close>

theorem editor_torn_down_on_close:
  assumes "reach env org s" and "editor s = Some d" and "ev = CancelClick \<or> ev = CloseClick"
  shows "\<exists>t. run [EditorEvent ev, NewNoteClick] s = Some t \<and>
             editor (fire (EditorEvent ev) s) = None \<and>
             editor t = Some \<lparr>title = [], content = [], isPublic = False\<rparr>"
  using assms(2,3) fire_close [of s d]
  by (auto simp: fire_def editor_commit editor_open_def draft_def setter_defs)

theorem editor_torn_down_on_close_witness:
  "\<exists>t. run [EditorEvent CancelClick, NewNoteClick] drafting = Some t \<and>
       editor (fire (EditorEvent CancelClick) drafting) = None \<and>
       editor t = Some \<lparr>title = [], content = [], isPublic = False\<rparr>"
  using editor_torn_down_on_close [OF reachable_drafting, of tasks CancelClick]
  by (auto simp del: run.simps)

text \<open>
  C31 (functional). The draft is initialised at the mount only. When the edit button of
  a card is activated while the editor is open, \<^verbatim>\<open>editingNote\<close> changes but the
  component stays mounted: the form is headed "Edit Note" and still shows the draft
  that was there, not the fields of the note, and saving would overwrite the note with
  that draft.
\<close>

theorem draft_survives_mode_switch:
  assumes "reach env org s" and "editor s = Some d"
  shows "editor (fire (CardClick n EditBtn) s) = Some d \<and>
         editingNote (fire (CardClick n EditBtn) s) = Some n \<and>
         v_editor (render fmt (fire (CardClick n EditBtn) s)) = Some (NoteEditor (Some n) d)"
  using assms(2)
  by (simp add: fire_def editor_commit editor_open_def draft_def setter_defs render_def)

theorem draft_survives_mode_switch_witness:
  "v_editor (render (\<lambda>d. d) (fire (CardClick recipe EditBtn) drafting)) =
     Some \<lparr>ed_heading = ''Edit Note'', ed_title = ''Tasks'', ed_content = [],
           ed_checked = False, ed_save_label = ''Update'', ed_save_disabled = False\<rparr>"
  using draft_survives_mode_switch [OF reachable_drafting, of tasks recipe "\<lambda>d. d"]
    tasks_savable
  by (simp add: NoteEditor_def tasks_def)

end
