(* ===== verification/Client_Store.thy ===== *)
theory Client_Store
  imports Note_Store App_Flows
begin

text \<open>
  \<^verbatim>\<open>NotesApp\<close> and the note store together. A state of the system is a state of the
  client, a state of the store, and for every call in flight a slot that holds the
  answer of the store once the store has served the request. The events are
  \<^item> \<open>User e\<close>: an event of the client that is not the settling of a promise (a click,
    typing, time that passes);
  \<^item> \<open>Serve i stamp\<close>: the store serves the request of the \<open>i\<close>-th call in flight and
    its answer waits in the slot; requests are served in any order;
  \<^item> \<open>Receive i\<close>: the answer in slot \<open>i\<close> reaches the client and its promise resolves;
  \<^item> \<open>Drop i\<close>: the request or its answer is lost and the promise rejects.
  The store is the one of theory \<open>Note_Store\<close>, started in any state that satisfies
  its invariant.

  The system refines the client: what the client sees of a step of the system (\<open>seen\<close>)
  is a step of the machine of \<open>App_Machine\<close> or nothing, and the outcomes it sees carry
  lists with unique identifiers. So every invariant of the client holds in the system.
  On top of that the theory follows single operations from the click to the last
  answer (\<open>save_and_reload\<close>, \<open>delete_and_answer\<close>) and states what the user sees and what
  the store holds afterwards, also for a save or a delete of a note that the store no
  longer has.
\<close>

section \<open>The closed system\<close>

record system =
  client :: app_state
  server :: store
  answers :: "response option list"

datatype sys_event = User event | Serve nat string | Receive nat | Drop nat

definition drop_nth :: "nat \<Rightarrow> 'a list \<Rightarrow> 'a list" where
  "drop_nth i xs = take i xs @ drop (Suc i) xs"

definition pad :: "system \<Rightarrow> system" where
  "pad \<sigma> =
     \<sigma>\<lparr>answers := answers \<sigma> @
          replicate (length (inflight (client \<sigma>)) - length (answers \<sigma>)) None\<rparr>"

fun is_user :: "event \<Rightarrow> bool" where
  "is_user (Settled i out) = False"
| "is_user e = True"

fun sys_enabled :: "system \<Rightarrow> sys_event \<Rightarrow> bool" where
  "sys_enabled \<sigma> (User e) = (is_user e \<and> enabled (client \<sigma>) e)"
| "sys_enabled \<sigma> (Serve i stamp) =
     (i < length (inflight (client \<sigma>)) \<and> i < length (answers \<sigma>) \<and> answers \<sigma> ! i = None)"
| "sys_enabled \<sigma> (Receive i) =
     (i < length (inflight (client \<sigma>)) \<and> i < length (answers \<sigma>) \<and> answers \<sigma> ! i \<noteq> None)"
| "sys_enabled \<sigma> (Drop i) = (i < length (inflight (client \<sigma>)))"

fun sys_fire :: "sys_event \<Rightarrow> system \<Rightarrow> system" where
  "sys_fire (User e) \<sigma> = pad (\<sigma>\<lparr>client := fire e (client \<sigma>)\<rparr>)"
| "sys_fire (Serve i stamp) \<sigma> =
     (case serve stamp (fst (inflight (client \<sigma>) ! i)) (server \<sigma>) of
        (resp, st) \<Rightarrow> \<sigma>\<lparr>server := st, answers := (answers \<sigma>)[i := Some resp]\<rparr>)"
| "sys_fire (Receive i) \<sigma> =
     (case answers \<sigma> ! i of
        None \<Rightarrow> \<sigma>
      | Some resp \<Rightarrow>
          pad (\<sigma>\<lparr>client := fire (Settled i (Resolved resp)) (client \<sigma>),
                 answers := drop_nth i (answers \<sigma>)\<rparr>))"
| "sys_fire (Drop i) \<sigma> =
     pad (\<sigma>\<lparr>client := fire (Settled i Rejected) (client \<sigma>),
            answers := drop_nth i (answers \<sigma>)\<rparr>)"

definition sys_init :: "url \<Rightarrow> store \<Rightarrow> system" where
  "sys_init org st = pad \<lparr>client = mount org, server = st, answers = []\<rparr>"

fun sys_run :: "sys_event list \<Rightarrow> system \<Rightarrow> system option" where
  "sys_run [] \<sigma> = Some \<sigma>"
| "sys_run (e # es) \<sigma> = (if sys_enabled \<sigma> e then sys_run es (sys_fire e \<sigma>) else None)"

inductive sys_reach :: "url \<Rightarrow> store \<Rightarrow> system \<Rightarrow> bool"
  for org :: url and st0 :: store where
  start: "sys_reach org st0 (sys_init org st0)"
| next_step: "sys_reach org st0 \<sigma> \<Longrightarrow> sys_enabled \<sigma> e \<Longrightarrow> sys_reach org st0 (sys_fire e \<sigma>)"

text \<open>The client's view of a step of the system: its own event, or nothing.\<close>

fun seen :: "system \<Rightarrow> sys_event \<Rightarrow> event option" where
  "seen \<sigma> (User e) = Some e"
| "seen \<sigma> (Serve i stamp) = None"
| "seen \<sigma> (Receive i) = map_option (\<lambda>resp. Settled i (Resolved resp)) (answers \<sigma> ! i)"
| "seen \<sigma> (Drop i) = Some (Settled i Rejected)"

definition unique_answer :: "response option \<Rightarrow> bool" where
  "unique_answer a = (case a of None \<Rightarrow> True | Some resp \<Rightarrow> unique_outcome (Resolved resp))"

definition sys_inv :: "system \<Rightarrow> bool" where
  "sys_inv \<sigma> \<longleftrightarrow>
     store_inv (server \<sigma>) \<and> length (answers \<sigma>) = length (inflight (client \<sigma>)) \<and>
     list_all unique_answer (answers \<sigma>)"

section \<open>The store keeps its invariant\<close>

lemma store_inv_init: "store_inv store_init"
  by (simp add: store_inv_def store_init_def unique_ids_def note_ids_def)

lemma store_inv_create: "store_inv st \<Longrightarrow> store_inv (create stamp d st)"
  by (fastforce simp: store_inv_def create_def unique_ids_def note_ids_def decimal_inj
      less_Suc_eq)

lemma note_ids_update [simp]: "note_ids (stored (update i d st)) = note_ids (stored st)"
  by (simp add: update_def note_ids_def revise_def comp_def cong: map_cong)

lemma store_inv_update: "store_inv st \<Longrightarrow> store_inv (update i d st)"
  unfolding store_inv_def unique_ids_def note_ids_update
  by (auto simp: update_def revise_def)

lemma store_inv_remove: "store_inv st \<Longrightarrow> store_inv (remove i st)"
  by (auto simp: store_inv_def remove_def unique_ids_without_id)

lemma store_inv_serve: "store_inv st \<Longrightarrow> store_inv (snd (serve stamp r st))"
  by (auto simp: serve_def store_inv_create store_inv_update store_inv_remove
      split: http_method.split option.split route.split)

lemma unique_serve: "store_inv st \<Longrightarrow> unique_outcome (Resolved (fst (serve stamp r st)))"
  by (auto simp: serve_def accepted_def refused_def store_inv_def
      split: http_method.split option.split route.split)

section \<open>Calls in flight after a step of the client\<close>

lemma length_drop_nth: "i < length xs \<Longrightarrow> Suc (length (drop_nth i xs)) = length xs"
  by (simp add: drop_nth_def)

lemma inflight_user:
  assumes "step s e t" and "is_user e"
  shows "length (inflight s) \<le> length (inflight t)"
  using assms(1)
proof (cases rule: step_cases)
  case (settled i out r k)
  with assms(2) show ?thesis by simp
qed (simp_all add: setter_defs deleteNote_def saveNote_def)

lemma inflight_settled:
  assumes "i < length (inflight s)"
  shows "length (inflight s) \<le> Suc (length (inflight (fire (Settled i out) s)))"
proof -
  obtain r k where "inflight s ! i = (r, k)" by (cases "inflight s ! i")
  with assms have "fire (Settled i out) s = commit (resume k out (take_inflight i s))"
    by (simp add: fire_def settle_def)
  with assms show ?thesis by (simp add: inflight_resume take_inflight_def)
qed

lemma length_pad: "length (answers \<sigma>) \<le> length (inflight (client \<sigma>)) \<Longrightarrow>
    length (answers (pad \<sigma>)) = length (inflight (client (pad \<sigma>)))"
  by (simp add: pad_def)

lemma pad_fields [simp]: "client (pad \<sigma>) = client \<sigma>" "server (pad \<sigma>) = server \<sigma>"
  by (simp_all add: pad_def)

lemma unique_pad: "list_all unique_answer (answers \<sigma>) \<Longrightarrow> list_all unique_answer (answers (pad \<sigma>))"
  by (auto simp: pad_def unique_answer_def list_all_iff)

lemma unique_drop_nth: "list_all P xs \<Longrightarrow> list_all P (drop_nth i xs)"
  by (auto simp: drop_nth_def list_all_iff dest: in_set_takeD in_set_dropD)

section \<open>The invariant of the system\<close>

lemma sys_inv_init: "store_inv st \<Longrightarrow> sys_inv (sys_init org st)"
  by (simp add: sys_inv_def sys_init_def pad_def mount_eq unique_answer_def)

lemma sys_inv_fire:
  assumes "sys_inv \<sigma>" and "sys_enabled \<sigma> e"
  shows "sys_inv (sys_fire e \<sigma>)"
proof (cases e)
  case (User ev)
  with assms(2) have "step (client \<sigma>) ev (fire ev (client \<sigma>))" and "is_user ev"
    by (simp_all add: step.fired)
  then have "length (inflight (client \<sigma>)) \<le> length (inflight (fire ev (client \<sigma>)))"
    by (rule inflight_user)
  with assms(1) User show ?thesis
    by (simp add: sys_inv_def length_pad unique_pad)
next
  case (Serve i stamp)
  obtain resp st where s: "serve stamp (fst (inflight (client \<sigma>) ! i)) (server \<sigma>) = (resp, st)"
    by (cases "serve stamp (fst (inflight (client \<sigma>) ! i)) (server \<sigma>)")
  from assms(1) have "store_inv st" and "unique_answer (Some resp)"
    using store_inv_serve [of "server \<sigma>" stamp "fst (inflight (client \<sigma>) ! i)"]
      unique_serve [of "server \<sigma>" stamp "fst (inflight (client \<sigma>) ! i)"] s
    by (simp_all add: sys_inv_def unique_answer_def)
  with assms(1) Serve s show ?thesis
    by (auto simp: sys_inv_def list_all_iff dest: set_update_subset_insert [THEN subsetD])
next
  case (Receive i)
  with assms(2) obtain resp where a: "answers \<sigma> ! i = Some resp"
    and i: "i < length (inflight (client \<sigma>))" by auto
  from i have "length (inflight (client \<sigma>)) \<le>
      Suc (length (inflight (fire (Settled i (Resolved resp)) (client \<sigma>))))"
    by (rule inflight_settled)
  with assms(1) Receive a i show ?thesis
    using length_drop_nth [of i "answers \<sigma>"]
    by (simp add: sys_inv_def length_pad unique_pad unique_drop_nth)
next
  case (Drop i)
  with assms(2) have i: "i < length (inflight (client \<sigma>))" by simp
  then have "length (inflight (client \<sigma>)) \<le>
      Suc (length (inflight (fire (Settled i Rejected) (client \<sigma>))))"
    by (rule inflight_settled)
  with assms(1) Drop i show ?thesis
    using length_drop_nth [of i "answers \<sigma>"]
    by (simp add: sys_inv_def length_pad unique_pad unique_drop_nth)
qed

lemma sys_reach_inv: "sys_reach org st0 \<sigma> \<Longrightarrow> store_inv st0 \<Longrightarrow> sys_inv \<sigma>"
  by (induction rule: sys_reach.induct) (simp_all add: sys_inv_init sys_inv_fire)

lemma sys_reach_run:
  "sys_reach org st0 \<sigma> \<Longrightarrow> sys_run es \<sigma> = Some \<sigma>' \<Longrightarrow> sys_reach org st0 \<sigma>'"
  by (induction es arbitrary: \<sigma>) (auto intro: sys_reach.next_step split: if_splits)

section \<open>The system refines the client\<close>

lemma seen_step:
  assumes "sys_inv \<sigma>" and "sys_enabled \<sigma> e"
  shows "case seen \<sigma> e of
           None \<Rightarrow> client (sys_fire e \<sigma>) = client \<sigma>
         | Some ev \<Rightarrow> unique_event ev \<and> step (client \<sigma>) ev (client (sys_fire e \<sigma>))"
proof (cases e)
  case (User ev)
  with assms(2) show ?thesis by (cases ev) (simp_all add: step_fire)
next
  case (Serve i stamp)
  then show ?thesis by (simp split: prod.split)
next
  case (Receive i)
  with assms(2) obtain resp where a: "answers \<sigma> ! i = Some resp"
    and i: "i < length (inflight (client \<sigma>))" "i < length (answers \<sigma>)" by auto
  from assms(1) i(2) a have "unique_outcome (Resolved resp)"
    by (auto simp: sys_inv_def list_all_length unique_answer_def split: option.splits)
  with Receive a i show ?thesis by (simp add: step_fire)
next
  case (Drop i)
  with assms(2) show ?thesis by (simp add: step_fire)
qed

lemma sys_reach_client:
  assumes "sys_reach org st0 \<sigma>" and "store_inv st0"
  shows "reach unique_event org (client \<sigma>)"
  using assms
proof (induction rule: sys_reach.induct)
  case start
  show ?case by (simp add: sys_init_def reach.mounted)
next
  case (next_step \<sigma> e)
  from next_step.hyps(1) next_step.prems have "sys_inv \<sigma>" by (rule sys_reach_inv)
  from seen_step [OF this next_step.hyps(2)] next_step.IH [OF next_step.prems]
  show ?case by (cases "seen \<sigma> e") (auto intro: reach_fire)
qed

section \<open>The store understands the client\<close>

lemma serve_fetchNotes:
  "serve stamp fetchNotes_request st = (accepted (Some (stored st)), st)"
  by (simp add: serve_def fetchNotes_request_def)

lemma serve_create:
  "serve stamp (saveNote_request None d) st = (accepted None, create stamp d st)"
  by (simp add: serve_def saveNote_request_def)

lemma serve_update:
  "serve stamp (saveNote_request (Some n) d) st =
     (if has_note st (note_id n) then (accepted None, update (note_id n) d st) else (refused, st))"
  using route_item [of "note_id n"] by (simp add: serve_def saveNote_request_def)

lemma serve_delete:
  "serve stamp (deleteNote_request i) st =
     (if has_note st i then (accepted None, remove i st) else (refused, st))"
  using route_item [of i] by (simp add: serve_def deleteNote_request_def)

section \<open>One call and its answer\<close>

lemma system_eq:
  "\<sigma> = \<lparr>client = client \<sigma>, server = server \<sigma>, answers = answers \<sigma>\<rparr>"
  by simp

lemma quiet_answers: "sys_inv \<sigma> \<Longrightarrow> inflight (client \<sigma>) = [] \<Longrightarrow> answers \<sigma> = []"
  by (simp add: sys_inv_def)

lemma sys_click:
  assumes "inflight c = []" and "is_user e" and "enabled c e" and "fire e c = fetch r k c"
  shows "sys_run (User e # es) \<lparr>client = c, server = st, answers = []\<rparr> =
         sys_run es \<lparr>client = fetch r k c, server = st, answers = [None]\<rparr>"
  using assms by (simp add: pad_def)

lemma call_and_answer:
  assumes "inflight c = []" and "serve stamp r st = (resp, st')"
  shows "sys_run (Serve 0 stamp # Receive 0 # es) \<lparr>client = fetch r k c, server = st, answers = [None]\<rparr> =
         sys_run es (pad \<lparr>client = commit (resume k (Resolved resp) c), server = st', answers = []\<rparr>)"
  using assms settle_fetch [of c "Resolved resp" r k]
  by (simp add: drop_nth_def fire_def)

lemma pad_quiet:
  "inflight c = [] \<Longrightarrow> pad \<lparr>client = c, server = st, answers = []\<rparr> = \<lparr>client = c, server = st, answers = []\<rparr>"
  by (simp add: pad_def)

lemma pad_one:
  "inflight c = [x] \<Longrightarrow> pad \<lparr>client = c, server = st, answers = []\<rparr> = \<lparr>client = c, server = st, answers = [None]\<rparr>"
  by (simp add: pad_def)

lemma sys_operation:
  assumes "inflight c = []" and "is_user e" and "enabled c e" and "fire e c = fetch r k c"
    and "serve stamp r st = (resp, st')"
  shows "sys_run (User e # Serve 0 stamp # Receive 0 # es) \<lparr>client = c, server = st, answers = []\<rparr> =
         sys_run es (pad \<lparr>client = commit (resume k (Resolved resp) c), server = st', answers = []\<rparr>)"
  by (simp only: sys_click [OF assms(1-4)] call_and_answer [OF assms(1,5)])

lemma stored_create:
  "stored (create stamp d st) =
     stored st @ [\<lparr>title = title d, content = content d, isPublic = isPublic d,
                   note_id = decimal (next_id st), createdAt = stamp\<rparr>]"
  by (simp add: create_def)

lemma quiet_system:
  assumes "sys_reach org st0 \<sigma>" and "store_inv st0" and "inflight (client \<sigma>) = []"
  shows "\<sigma> = \<lparr>client = client \<sigma>, server = server \<sigma>, answers = []\<rparr>"
    and "editor_mounted (client \<sigma>)"
proof -
  from assms(1,2) have "sys_inv \<sigma>" by (rule sys_reach_inv)
  with assms(3) show "\<sigma> = \<lparr>client = client \<sigma>, server = server \<sigma>, answers = []\<rparr>"
    using system_eq [of \<sigma>] by (simp add: quiet_answers)
  from assms(1,2) show "editor_mounted (client \<sigma>)"
    using sys_reach_client reach_mounted by blast
qed

section \<open>Saving, from the click to the reloaded list\<close>

lemma save_and_reload:
  assumes "inflight c = []" and "editor_mounted c" and "editor c = Some d" and "\<not> save_disabled d"
    and "serve t1 (saveNote_request (editingNote c) d) st = (accepted None, st')"
  shows "sys_run [User (EditorEvent SaveClick), Serve 0 t1, Receive 0, Serve 0 t2, Receive 0]
           \<lparr>client = c, server = st, answers = []\<rparr> =
         Some \<lparr>client = commit (saveNote_finish (editingNote c) (ok_response (stored st')) c),
               server = st', answers = []\<rparr>"
proof -
  let ?e = "editingNote c"
  let ?c1 = "fetch fetchNotes_request (SaveNoteReload ?e) c"
  have "sys_run [User (EditorEvent SaveClick), Serve 0 t1, Receive 0, Serve 0 t2, Receive 0]
          \<lparr>client = c, server = st, answers = []\<rparr> =
        sys_run [Serve 0 t2, Receive 0]
          (pad \<lparr>client = commit (resume (SaveNote ?e) (Resolved (accepted None)) c), server = st',
                answers = []\<rparr>)"
    using assms by (intro sys_operation) (simp_all add: fire_save)
  also have "commit (resume (SaveNote ?e) (Resolved (accepted None)) c) = ?c1"
    using assms(2) by (simp add: saveNote_resume_def accepted_def fetchNotes_def commit_idle)
  also have "pad \<lparr>client = ?c1, server = st', answers = []\<rparr> =
      \<lparr>client = ?c1, server = st', answers = [None]\<rparr>"
    using assms(1) by (simp add: pad_one)
  also have "sys_run [Serve 0 t2, Receive 0] \<lparr>client = ?c1, server = st', answers = [None]\<rparr> =
      sys_run [] (pad \<lparr>client = commit (resume (SaveNoteReload ?e) (Resolved (accepted (Some (stored st')))) c),
                      server = st', answers = []\<rparr>)"
    using assms(1) by (intro call_and_answer) (simp_all add: serve_fetchNotes)
  finally show ?thesis
    using assms(1) by (simp add: pad_def accepted_def ok_response_def)
qed

lemma save_refused:
  assumes "inflight c = []" and "editor_mounted c" and "editor c = Some d" and "\<not> save_disabled d"
    and "serve t (saveNote_request (editingNote c) d) st = (refused, st')"
  shows "sys_run [User (EditorEvent SaveClick), Serve 0 t, Receive 0]
           \<lparr>client = c, server = st, answers = []\<rparr> =
         Some \<lparr>client = c, server = st', answers = []\<rparr>"
proof -
  have "sys_run [User (EditorEvent SaveClick), Serve 0 t, Receive 0]
          \<lparr>client = c, server = st, answers = []\<rparr> =
        sys_run [] (pad \<lparr>client = commit (resume (SaveNote (editingNote c)) (Resolved refused) c),
                        server = st', answers = []\<rparr>)"
    using assms by (intro sys_operation) (simp_all add: fire_save)
  with assms(1,2) show ?thesis
    by (simp add: saveNote_resume_def refused_def commit_idle pad_def)
qed

lemma revise_fields [simp]:
  "note_id (revise d n) = note_id n" "createdAt (revise d n) = createdAt n"
  "data_of (revise d n) = d"
  by (simp_all add: revise_def data_of_def)

lemma createdAt_update [simp]: "map createdAt (stored (update i d st)) = map createdAt (stored st)"
  by (simp add: update_def comp_def cong: map_cong)

lemma lookup_update:
  "lookup_note (stored (update i d st)) j =
     (if j = i then map_option (revise d) (lookup_note (stored st) i)
      else lookup_note (stored st) j)"
proof -
  have "find (\<lambda>n. note_id n = j) (map (\<lambda>n. if note_id n = i then revise d n else n) ns) =
      (if j = i then map_option (revise d) (find (\<lambda>n. note_id n = i) ns)
       else find (\<lambda>n. note_id n = j) ns)" for ns
    by (induction ns) auto
  then show ?thesis by (simp add: lookup_note_def update_def)
qed

section \<open>Deleting, from the click to the answer\<close>

lemma delete_and_answer:
  assumes "inflight c = []" and "editor_mounted c" and "enabled c (CardClick n DeleteBtn)"
    and "serve t (deleteNote_request (note_id n)) st = (resp, st')"
  shows "sys_run [User (CardClick n DeleteBtn), Serve 0 t, Receive 0]
           \<lparr>client = c, server = st, answers = []\<rparr> =
         Some \<lparr>client = deleteNote_resume (note_id n) (note_list c) (Resolved resp) c,
               server = st', answers = []\<rparr>"
proof -
  have "sys_run [User (CardClick n DeleteBtn), Serve 0 t, Receive 0]
          \<lparr>client = c, server = st, answers = []\<rparr> =
        sys_run [] (pad \<lparr>client = commit (resume (DeleteNote (note_id n) (note_list c))
                      (Resolved resp) c), server = st', answers = []\<rparr>)"
    using assms by (intro sys_operation) (simp_all add: fire_delete)
  then show ?thesis using assms(1,2) by (simp add: pad_def commit_idle)
qed

section \<open>Two deletes that overlap, seen from both sides\<close>

lemma sys_two_clicks:
  assumes "inflight c = []" and "editor_mounted c"
    and "enabled c (CardClick n DeleteBtn)" and "enabled c (CardClick m DeleteBtn)"
  shows "sys_run (User (CardClick n DeleteBtn) # User (CardClick m DeleteBtn) # es)
           \<lparr>client = c, server = st, answers = []\<rparr> =
         sys_run es
           \<lparr>client = fetch (deleteNote_request (note_id m)) (DeleteNote (note_id m) (note_list c))
                       (fetch (deleteNote_request (note_id n)) (DeleteNote (note_id n) (note_list c)) c),
            server = st, answers = [None, None]\<rparr>"
  using assms by (simp add: fire_delete pad_def)

lemma sys_two_answers:
  assumes "inflight c = []" and "editor_mounted c"
    and "serve t1 r1 st = (a1, st1)" and "serve t2 r2 st1 = (a2, st2)"
  shows "sys_run [Serve 0 t1, Serve 1 t2, Receive 0, Receive 0]
           \<lparr>client = fetch r2 (DeleteNote j ns) (fetch r1 (DeleteNote i ns) c), server = st,
            answers = [None, None]\<rparr> =
         Some \<lparr>client = deleteNote_resume j ns (Resolved a2) (deleteNote_resume i ns (Resolved a1) c),
               server = st2, answers = []\<rparr>"
  using assms settle_first_of_two [of c "Resolved a1" r2 "DeleteNote j ns" r1 "DeleteNote i ns"]
    settle_fetch [of "deleteNote_resume i ns (Resolved a1) c" "Resolved a2" r2 "DeleteNote j ns"]
  by (simp add: fire_idle deleteNote_resume_fetch drop_nth_def pad_def)

section \<open>A session of the system\<close>

definition shop :: store where
  "shop = \<lparr>stored = [groceries, recipe], next_id = 3\<rparr>"

definition sys_loaded :: system where
  "sys_loaded = \<lparr>client = loaded, server = shop, answers = []\<rparr>"

definition sys_drafting :: system where
  "sys_drafting = \<lparr>client = drafting, server = shop, answers = []\<rparr>"

definition publishing :: app_state where
  "publishing = fire (EditorEvent (PublicInput True)) (fire (CardClick groceries EditBtn) loaded)"

definition sys_publishing :: system where
  "sys_publishing = \<lparr>client = publishing, server = shop, answers = []\<rparr>"

lemma decimal_digits [simp]:
  "decimal 0 = ''0''" "decimal (Suc 0) = ''1''" "decimal 2 = ''2''" "decimal 3 = ''3''"
  by (simp_all add: decimal.simps digit_char_def char_of_def bit_Suc_0_iff)

lemma store_inv_shop: "store_inv shop"
proof -
  have "\<exists>k<3. note_id groceries = decimal k" by (rule exI [of _ 1]) simp
  moreover have "\<exists>k<3. note_id recipe = decimal k" by (rule exI [of _ 2]) simp
  ultimately show ?thesis
    by (simp add: store_inv_def shop_def unique_ids_def note_ids_def)
qed

lemma sys_loaded_eq:
  "sys_loaded = sys_fire (Receive 0) (sys_fire (Serve 0 stamp) (sys_init home shop))"
  by (simp add: sys_loaded_def sys_init_def pad_def mount_eq serve_fetchNotes [unfolded fetchNotes_request_def]
      fetchNotes_request_def accepted_def shop_def loaded_def ok_response_def drop_nth_def
      fire_def settle_def take_inflight_def commit_def editor_open_def useState_init_def)


lemma sys_user_quiet:
  "inflight (fire e c) = [] \<Longrightarrow>
     sys_fire (User e) \<lparr>client = c, server = st, answers = []\<rparr> =
       \<lparr>client = fire e c, server = st, answers = []\<rparr>"
  by (simp add: pad_def)

lemma reach_user:
  assumes "sys_reach org st0 \<lparr>client = c, server = st, answers = []\<rparr>"
    and "is_user e" and "enabled c e" and "inflight (fire e c) = []"
  shows "sys_reach org st0 \<lparr>client = fire e c, server = st, answers = []\<rparr>"
  using sys_reach.next_step [OF assms(1), of "User e"] assms(2-4)
  by (simp add: pad_def)

lemma reach_sys_loaded: "sys_reach home shop sys_loaded"
  unfolding sys_loaded_eq [of "''2024-05-03''"]
  by (intro sys_reach.next_step sys_reach.start)
    (simp_all add: sys_init_def pad_def mount_eq serve_fetchNotes [unfolded fetchNotes_request_def]
      fetchNotes_request_def)

lemma reach_sys_drafting: "sys_reach home shop sys_drafting"
  unfolding sys_drafting_def drafting_def
  by (intro reach_user reach_sys_loaded [unfolded sys_loaded_def])
    (simp_all add: fire_def editor_commit editor_open_def setter_defs)

lemma publishing_fields [simp]:
  "inflight publishing = []" "editingNote publishing = Some groceries"
  "editor publishing = Some ((data_of groceries)\<lparr>isPublic := True\<rparr>)"
  by (simp_all add: publishing_def fire_def editor_commit editor_open_def draft_def setter_defs
      setIsPublic_def)

lemma reach_sys_publishing: "sys_reach home shop sys_publishing"
  unfolding sys_publishing_def publishing_def
  by (intro reach_user reach_sys_loaded [unfolded sys_loaded_def])
    (simp_all add: fire_def editor_commit editor_open_def draft_def setter_defs)

text \<open>
  The session goes on from \<open>sys_publishing\<close>, where the editor is open on the first
  note: the user deletes both notes before the first answer has arrived. In the state
  \<open>stale\<close> the store is empty, the list on screen still has the first note, and the
  editor is still open on it.
\<close>

definition stale :: system where
  "stale =
     \<lparr>client = deleteNote_resume ''2'' [groceries, recipe] (Resolved (accepted None))
                 (deleteNote_resume ''1'' [groceries, recipe] (Resolved (accepted None)) publishing),
      server = remove ''2'' (remove ''1'' shop), answers = []\<rparr>"

lemma publishing_list [simp]:
  "filteredNotes publishing = [groceries, recipe]" "note_list publishing = [groceries, recipe]"
  "\<not> loading publishing" "searchTerm publishing = []"
  by (simp_all add: publishing_def fire_def filteredNotes_def editor_commit editor_open_def
      draft_def setter_defs)

lemma stale_fields [simp]:
  "inflight (client stale) = []" "editingNote (client stale) = Some groceries"
  "editor (client stale) = Some ((data_of groceries)\<lparr>isPublic := True\<rparr>)"
  "note_list (client stale) = [groceries]" "filteredNotes (client stale) = [groceries]"
  "\<not> loading (client stale)" "stored (server stale) = []"
  by (simp_all add: stale_def filteredNotes_def note_list_deleteNote_resume accepted_def
      without_id_def remove_def shop_def)

lemma reach_stale: "sys_reach home shop stale"
proof -
  have q: "editor_mounted publishing"
    using quiet_system(2) [OF reach_sys_publishing store_inv_shop] by (simp add: sys_publishing_def)
  have 1: "serve t (deleteNote_request ''1'') shop = (accepted None, remove ''1'' shop)"
    and 2: "serve t (deleteNote_request ''2'') (remove ''1'' shop) =
      (accepted None, remove ''2'' (remove ''1'' shop))" for t
    by (simp_all add: serve_delete has_note_def remove_def without_id_def shop_def note_ids_def)
  have i: "inflight publishing = []"
    and e: "enabled publishing (CardClick groceries DeleteBtn)"
      "enabled publishing (CardClick recipe DeleteBtn)"
    by simp_all
  have "sys_run [User (CardClick groceries DeleteBtn), User (CardClick recipe DeleteBtn),
      Serve 0 ''t'', Serve 1 ''t'', Receive 0, Receive 0] sys_publishing = Some stale"
    unfolding sys_publishing_def stale_def
    by (simp only: sys_two_clicks [OF i q e] scenario_ids publishing_list
        sys_two_answers [OF i q 1 2])
  with reach_sys_publishing show ?thesis by (rule sys_reach_run)
qed

section \<open>Main properties\<close>

text \<open>
  C19 (functional). The store understands the client: the request that \<^verbatim>\<open>fetchNotes\<close>
  builds is answered with the stored list; the request of \<^verbatim>\<open>saveNote\<close> without a note
  being edited creates a note from the draft; with a note being edited it revises the
  note of that identifier; the request of \<^verbatim>\<open>deleteNote\<close> removes the note of that
  identifier, by the same filter that the client applies to its own list. A request for
  an identifier that the store does not have is refused and changes nothing.
\<close>

theorem store_understands_client:
  "serve stamp fetchNotes_request st = (accepted (Some (stored st)), st) \<and>
   serve stamp (saveNote_request None d) st = (accepted None, create stamp d st) \<and>
   serve stamp (saveNote_request (Some n) d) st =
     (if has_note st (note_id n) then (accepted None, update (note_id n) d st) else (refused, st)) \<and>
   serve stamp (deleteNote_request i) st =
     (if has_note st i then (accepted None, st\<lparr>stored := without_id i (stored st)\<rparr>)
      else (refused, st))"
  unfolding serve_fetchNotes serve_create serve_update serve_delete remove_def
  by (simp only: simp_thms)

text \<open>
  C11 (refinement). The client together with the store is one of the behaviours the
  client has been verified against: every state the closed system reaches has a client
  state that \<^verbatim>\<open>NotesApp\<close> reaches with outcomes whose lists have unique identifiers.
  So the invariant of the client and the uniqueness of the identifiers on screen hold
  in the closed system, the store keeps its own invariant, and every call in flight
  has its slot for the answer.
\<close>

theorem system_refines_client:
  assumes "sys_reach org st0 \<sigma>" and "store_inv st0"
  shows "reach unique_event org (client \<sigma>) \<and> app_inv (client \<sigma>) \<and>
         unique_ids (note_list (client \<sigma>)) \<and> store_inv (server \<sigma>) \<and>
         length (answers \<sigma>) = length (inflight (client \<sigma>))"
proof -
  from assms have r: "reach unique_event org (client \<sigma>)" by (rule sys_reach_client)
  from assms have "sys_inv \<sigma>" by (rule sys_reach_inv)
  with r show ?thesis
    using reach_app_inv [OF r] reach_ids_ok [OF r] by (simp add: sys_inv_def ids_ok_def)
qed

theorem system_refines_client_witness:
  "reach unique_event home drafting \<and> app_inv drafting \<and> store_inv shop"
  using system_refines_client [OF reach_sys_drafting store_inv_shop]
  by (simp add: sys_drafting_def)

text \<open>
  C13 (functional). Creating a note, end to end. The system is quiet, the editor holds
  a draft with a title that is not blank and no note is being edited. After the save
  button, the answer of the store and the answer to the reload, the store has one more
  note at the end of its list, with the title, the content and the flag of the draft
  and a fresh identifier; the list on screen is the list of the store; the notification
  says "Note created!" and the editor is closed.
\<close>

theorem create_end_to_end:
  assumes "sys_reach org st0 \<sigma>" and "store_inv st0"
    and "inflight (client \<sigma>) = []" and "editingNote (client \<sigma>) = None"
    and "editor (client \<sigma>) = Some d" and "\<not> save_disabled d"
  shows "\<exists>\<sigma>'. sys_run [User (EditorEvent SaveClick), Serve 0 t1, Receive 0, Serve 0 t2, Receive 0] \<sigma>
               = Some \<sigma>' \<and>
             stored (server \<sigma>') =
               stored (server \<sigma>) @
                 [\<lparr>title = title d, content = content d, isPublic = isPublic d,
                   note_id = decimal (next_id (server \<sigma>)), createdAt = t1\<rparr>] \<and>
             note_list (client \<sigma>') = stored (server \<sigma>') \<and>
             notification (client \<sigma>') = Some \<lparr>message = ''Note created!'', type = Success\<rparr> \<and>
             editor (client \<sigma>') = None \<and> inflight (client \<sigma>') = []"
proof -
  note q = quiet_system [OF assms(1-3)]
  have "serve t1 (saveNote_request (editingNote (client \<sigma>)) d) (server \<sigma>) =
      (accepted None, create t1 d (server \<sigma>))"
    unfolding assms(4) by (rule serve_create)
  from save_and_reload [OF assms(3) q(2) assms(5,6) this, of t2] assms(3,4)
  show ?thesis
    by (subst q(1)) (simp add: stored_create editor_commit editor_open_def del: sys_run.simps)
qed

theorem create_end_to_end_witness:
  "\<exists>\<sigma>'. sys_run [User (EditorEvent SaveClick), Serve 0 ''2024-05-03'', Receive 0,
             Serve 0 ''2024-05-03'', Receive 0] sys_drafting = Some \<sigma>' \<and>
        note_list (client \<sigma>') =
          [groceries, recipe,
           \<lparr>title = ''Tasks'', content = [], isPublic = False, note_id = ''3'',
             createdAt = ''2024-05-03''\<rparr>]"
  using create_end_to_end [OF reach_sys_drafting store_inv_shop, of tasks "''2024-05-03''"
      "''2024-05-03''"] tasks_savable
  by (auto simp: sys_drafting_def shop_def tasks_def simp del: sys_run.simps)

text \<open>
  C14 (functional). Editing a note, end to end. The system is quiet and the editor holds
  a draft for a note that the store has. After the save button and the two answers, the
  store has the same identifiers and creation dates in the same order; the note of that
  identifier has the title, the content and the flag of the draft and every other note
  is unchanged; the list on screen is the list of the store and the notification says
  "Note updated!".
\<close>

theorem edit_end_to_end:
  assumes "sys_reach org st0 \<sigma>" and "store_inv st0"
    and "inflight (client \<sigma>) = []" and "editingNote (client \<sigma>) = Some x"
    and "editor (client \<sigma>) = Some d" and "\<not> save_disabled d"
    and "has_note (server \<sigma>) (note_id x)"
  shows "\<exists>\<sigma>'. sys_run [User (EditorEvent SaveClick), Serve 0 t1, Receive 0, Serve 0 t2, Receive 0] \<sigma>
               = Some \<sigma>' \<and>
             note_list (client \<sigma>') = stored (server \<sigma>') \<and>
             note_ids (stored (server \<sigma>')) = note_ids (stored (server \<sigma>)) \<and>
             map createdAt (stored (server \<sigma>')) = map createdAt (stored (server \<sigma>)) \<and>
             (\<forall>j. lookup_note (stored (server \<sigma>')) j =
                (if j = note_id x then map_option (revise d) (lookup_note (stored (server \<sigma>)) j)
                 else lookup_note (stored (server \<sigma>)) j)) \<and>
             notification (client \<sigma>') = Some \<lparr>message = ''Note updated!'', type = Success\<rparr> \<and>
             editor (client \<sigma>') = None \<and> inflight (client \<sigma>') = []"
proof -
  note q = quiet_system [OF assms(1-3)]
  have "serve t1 (saveNote_request (editingNote (client \<sigma>)) d) (server \<sigma>) =
      (accepted None, update (note_id x) d (server \<sigma>))"
    unfolding assms(4) using assms(7) by (simp only: serve_update if_True)
  from save_and_reload [OF assms(3) q(2) assms(5,6) this, of t2] assms(3,4)
  show ?thesis
    by (subst q(1))
      (simp add: lookup_update editor_commit editor_open_def del: sys_run.simps)
qed

theorem edit_end_to_end_witness:
  "\<exists>\<sigma>'. sys_run [User (EditorEvent SaveClick), Serve 0 ''t'', Receive 0, Serve 0 ''t'', Receive 0]
          sys_publishing = Some \<sigma>' \<and>
        note_list (client \<sigma>') = stored (server \<sigma>') \<and>
        lookup_note (stored (server \<sigma>')) ''1'' = Some (groceries\<lparr>isPublic := True\<rparr>)"
proof -
  have "\<not> save_disabled ((data_of groceries)\<lparr>isPublic := True\<rparr>)"
    by (simp add: save_disabled_white data_of_def groceries_def is_white_space_def)
  moreover have "has_note shop ''1''"
    by (simp add: has_note_def shop_def note_ids_def)
  ultimately show ?thesis
    using edit_end_to_end [OF reach_sys_publishing store_inv_shop, of groceries
        "(data_of groceries)\<lparr>isPublic := True\<rparr>" "''t''" "''t''"]
    by (auto simp: sys_publishing_def shop_def lookup_note_def revise_def data_of_def
        groceries_def simp del: sys_run.simps)
qed

text \<open>
  C15 (functional). Deleting a note, end to end. The system is quiet and the list on
  screen is the list of the store. After the delete button of a card and the answer,
  the store no longer has a note of that identifier, the list on screen is again the
  list of the store, and the notification says "Note deleted!".
\<close>

theorem delete_end_to_end:
  assumes "sys_reach org st0 \<sigma>" and "store_inv st0"
    and "inflight (client \<sigma>) = []" and "enabled (client \<sigma>) (CardClick n DeleteBtn)"
    and "note_list (client \<sigma>) = stored (server \<sigma>)"
  shows "\<exists>\<sigma>'. sys_run [User (CardClick n DeleteBtn), Serve 0 t, Receive 0] \<sigma> = Some \<sigma>' \<and>
             stored (server \<sigma>') = without_id (note_id n) (stored (server \<sigma>)) \<and>
             note_list (client \<sigma>') = stored (server \<sigma>') \<and>
             \<not> has_note (server \<sigma>') (note_id n) \<and>
             notification (client \<sigma>') = Some \<lparr>message = ''Note deleted!'', type = Success\<rparr>"
proof -
  note q = quiet_system [OF assms(1-3)]
  from assms(4,5) have "has_note (server \<sigma>) (note_id n)"
    by (auto simp: has_note_def note_ids_def set_filteredNotes)
  then have "serve t (deleteNote_request (note_id n)) (server \<sigma>) =
      (accepted None, remove (note_id n) (server \<sigma>))"
    by (simp only: serve_delete if_True)
  from delete_and_answer [OF assms(3) q(2) assms(4) this] assms(5)
  show ?thesis
    by (subst q(1))
      (simp add: accepted_def note_list_deleteNote_resume notification_deleted remove_def
        has_note_def del: sys_run.simps)
qed

theorem delete_end_to_end_witness:
  "\<exists>\<sigma>'. sys_run [User (CardClick groceries DeleteBtn), Serve 0 ''t'', Receive 0] sys_loaded
          = Some \<sigma>' \<and>
        stored (server \<sigma>') = [recipe] \<and> note_list (client \<sigma>') = [recipe]"
  using delete_end_to_end [OF reach_sys_loaded store_inv_shop, of groceries "''t''"]
  by (auto simp: sys_loaded_def shop_def without_id_def simp del: sys_run.simps)

text \<open>
  C16 (safety, violated). Two deletes that overlap, seen from both sides. The system is
  quiet and the list on screen is the list of the store. The user deletes two notes
  before the first answer arrives; the store deletes both. Afterwards nothing is in
  flight, the store has neither note, and the list on screen still has the first: the
  client shows a note that does not exist, until the next reload.
\<close>

theorem overlapping_deletes_diverge:
  assumes "sys_reach org st0 \<sigma>" and "store_inv st0"
    and "inflight (client \<sigma>) = []" and "note_list (client \<sigma>) = stored (server \<sigma>)"
    and "enabled (client \<sigma>) (CardClick n DeleteBtn)"
    and "enabled (client \<sigma>) (CardClick m DeleteBtn)" and "note_id n \<noteq> note_id m"
  shows "\<exists>\<sigma>'. sys_run [User (CardClick n DeleteBtn), User (CardClick m DeleteBtn),
                   Serve 0 t1, Serve 1 t2, Receive 0, Receive 0] \<sigma> = Some \<sigma>' \<and>
             \<not> has_note (server \<sigma>') (note_id n) \<and> \<not> has_note (server \<sigma>') (note_id m) \<and>
             n \<in> set (note_list (client \<sigma>')) \<and> inflight (client \<sigma>') = []"
proof -
  note q = quiet_system [OF assms(1-3)]
  let ?st = "server \<sigma>"
  from assms(4-7) have h: "has_note ?st (note_id n)" "has_note (remove (note_id n) ?st) (note_id m)"
    by (auto simp: has_note_def note_ids_def set_filteredNotes remove_def without_id_def)
  then have 1: "serve t1 (deleteNote_request (note_id n)) ?st = (accepted None, remove (note_id n) ?st)"
    and 2: "serve t2 (deleteNote_request (note_id m)) (remove (note_id n) ?st) =
      (accepted None, remove (note_id m) (remove (note_id n) ?st))"
    by (simp_all only: serve_delete if_True)
  have "sys_run [User (CardClick n DeleteBtn), User (CardClick m DeleteBtn),
      Serve 0 t1, Serve 1 t2, Receive 0, Receive 0] \<sigma> =
    Some \<lparr>client = deleteNote_resume (note_id m) (note_list (client \<sigma>)) (Resolved (accepted None))
             (deleteNote_resume (note_id n) (note_list (client \<sigma>)) (Resolved (accepted None))
               (client \<sigma>)),
          server = remove (note_id m) (remove (note_id n) ?st), answers = []\<rparr>"
    by (subst q(1))
      (simp only: sys_two_clicks [OF assms(3) q(2) assms(5,6)]
        sys_two_answers [OF assms(3) q(2) 1 2])
  moreover from assms(5,7) have "n \<in> set (without_id (note_id m) (note_list (client \<sigma>)))"
    by (auto simp: without_id_def set_filteredNotes)
  ultimately show ?thesis
    using assms(3)
    by (auto simp: accepted_def note_list_deleteNote_resume has_note_def remove_def note_ids_def
        without_id_def simp del: sys_run.simps)
qed

theorem overlapping_deletes_diverge_witness:
  "\<exists>\<sigma>'. sys_run [User (CardClick groceries DeleteBtn), User (CardClick recipe DeleteBtn),
             Serve 0 ''t'', Serve 1 ''t'', Receive 0, Receive 0] sys_loaded = Some \<sigma>' \<and>
        \<not> has_note (server \<sigma>') ''1'' \<and> groceries \<in> set (note_list (client \<sigma>'))"
  using overlapping_deletes_diverge [OF reach_sys_loaded store_inv_shop, of groceries recipe
      "''t''" "''t''"]
  by (auto simp: sys_loaded_def shop_def simp del: sys_run.simps)


text \<open>
  C17 (error). Saving a note that the store no longer has. The system is quiet and the
  editor holds a draft for a note whose identifier the store does not have (it was
  deleted while the editor was open). The save button sends the request, the store
  refuses it, and the client does nothing with the refusal: after the answer the whole
  system is in the state it was in before the click. The editor is still open with the
  draft, no message has been shown, and the next click goes the same way.
\<close>

theorem save_of_missing_note_is_silent:
  assumes "sys_reach org st0 \<sigma>" and "store_inv st0"
    and "inflight (client \<sigma>) = []" and "editingNote (client \<sigma>) = Some x"
    and "editor (client \<sigma>) = Some d" and "\<not> save_disabled d"
    and "\<not> has_note (server \<sigma>) (note_id x)"
  shows "sys_run [User (EditorEvent SaveClick), Serve 0 t, Receive 0] \<sigma> = Some \<sigma>"
proof -
  note q = quiet_system [OF assms(1-3)]
  have "serve t (saveNote_request (editingNote (client \<sigma>)) d) (server \<sigma>) = (refused, server \<sigma>)"
    unfolding assms(4) using assms(7) by (simp only: serve_update if_False)
  from save_refused [OF assms(3) q(2) assms(5,6) this] show ?thesis
    by (subst (1 2) q(1)) simp
qed

theorem save_of_missing_note_is_silent_witness:
  "sys_run [User (EditorEvent SaveClick), Serve 0 ''t'', Receive 0] stale = Some stale \<and>
   editingNote (client stale) = Some groceries \<and> stored (server stale) = []"
  using save_of_missing_note_is_silent [OF reach_stale store_inv_shop, of groceries
      "(data_of groceries)\<lparr>isPublic := True\<rparr>" "''t''"]
  by (simp add: has_note_def note_ids_def save_disabled_white data_of_def groceries_def
      is_white_space_def del: sys_run.simps)

text \<open>
  C18 (error). Deleting a note that the store no longer has. The system is quiet and the
  list on screen has a note whose identifier the store does not have (two overlapping
  deletes leave such a note behind). The delete button of its card sends the request,
  the store refuses it, and the client does nothing with the refusal: after the answer
  the whole system is in the state it was in before the click. The note stays on
  screen and no message is shown, however often the button is clicked.
\<close>

theorem delete_of_missing_note_is_silent:
  assumes "sys_reach org st0 \<sigma>" and "store_inv st0"
    and "inflight (client \<sigma>) = []" and "enabled (client \<sigma>) (CardClick n DeleteBtn)"
    and "\<not> has_note (server \<sigma>) (note_id n)"
  shows "sys_run [User (CardClick n DeleteBtn), Serve 0 t, Receive 0] \<sigma> = Some \<sigma>"
proof -
  note q = quiet_system [OF assms(1-3)]
  from assms(5) have "serve t (deleteNote_request (note_id n)) (server \<sigma>) = (refused, server \<sigma>)"
    by (simp only: serve_delete if_False)
  from delete_and_answer [OF assms(3) q(2) assms(4) this] show ?thesis
    by (subst (1 2) q(1)) (simp add: deleteNote_resume_not_ok refused_def del: sys_run.simps)
qed

theorem delete_of_missing_note_is_silent_witness:
  "sys_run [User (CardClick groceries DeleteBtn), Serve 0 ''t'', Receive 0] stale = Some stale \<and>
   note_list (client stale) = [groceries] \<and> stored (server stale) = []"
  using delete_of_missing_note_is_silent [OF reach_stale store_inv_shop, of groceries "''t''"]
  by (simp add: has_note_def note_ids_def del: sys_run.simps)

end
