(* ===== verification/Sequential_Use.thy ===== *)
theory Sequential_Use
  imports Client_Store
begin

text \<open>
  Sequential use of \<^verbatim>\<open>NotesApp\<close> with the store: the user does one thing at a time and
  waits for the answers before the next. An action is a user event that calls no
  function of the store (\<open>Calm\<close>: typing, searching, opening and closing the editor or
  the share modal, time that passes), a click on the save button with the answers of
  the store (\<open>Save\<close>), or a click on a delete button with its answer (\<open>Delete\<close>). The
  events of a save depend on the store: if it accepts the request the client reloads
  the list, which is a second call; if it refuses, nothing follows.

  The screen and the store \<open>agree\<close> when nothing is in flight and the list of the client
  is the list of the store. The theory shows that every action that the rendered tree
  allows runs to its end from such a state and leads to such a state again, so that a
  session of actions never gets stuck half-way and never leaves the screen behind the
  store. This is the counterpart of the overlapping deletes of theory \<open>Client_Store\<close>,
  where the screen ends up with a note that the store no longer has.
\<close>

section \<open>Actions and sessions\<close>

definition agree :: "system \<Rightarrow> bool" where
  "agree \<sigma> \<longleftrightarrow> inflight (client \<sigma>) = [] \<and> note_list (client \<sigma>) = stored (server \<sigma>)"

datatype action = Calm event | Save string string | Delete Note string

fun calm :: "event \<Rightarrow> bool" where
  "calm (Settled i out) = False"
| "calm (EditorEvent SaveClick) = False"
| "calm (CardClick n DeleteBtn) = False"
| "calm e = True"

definition accepts :: "system \<Rightarrow> bool" where
  "accepts \<sigma> \<longleftrightarrow>
     (case editingNote (client \<sigma>) of
        None \<Rightarrow> True
      | Some x \<Rightarrow> has_note (server \<sigma>) (note_id x))"

fun events_of :: "system \<Rightarrow> action \<Rightarrow> sys_event list" where
  "events_of \<sigma> (Calm e) = [User e]"
| "events_of \<sigma> (Save t1 t2) =
     [User (EditorEvent SaveClick), Serve 0 t1, Receive 0] @
     (if accepts \<sigma> then [Serve 0 t2, Receive 0] else [])"
| "events_of \<sigma> (Delete n t) = [User (CardClick n DeleteBtn), Serve 0 t, Receive 0]"

fun possible :: "system \<Rightarrow> action \<Rightarrow> bool" where
  "possible \<sigma> (Calm e) = (calm e \<and> enabled (client \<sigma>) e)"
| "possible \<sigma> (Save t1 t2) = enabled (client \<sigma>) (EditorEvent SaveClick)"
| "possible \<sigma> (Delete n t) = enabled (client \<sigma>) (CardClick n DeleteBtn)"

fun session :: "action list \<Rightarrow> system \<Rightarrow> system option" where
  "session [] \<sigma> = Some \<sigma>"
| "session (a # as) \<sigma> =
     (if possible \<sigma> a
      then (case sys_run (events_of \<sigma> a) \<sigma> of None \<Rightarrow> None | Some \<sigma>' \<Rightarrow> session as \<sigma>')
      else None)"

section \<open>A calm event\<close>

lemma calm_is_user: "calm e \<Longrightarrow> is_user e"
  by (cases e) simp_all

lemma calm_frame:
  assumes "enabled s e" and "calm e"
  shows "inflight (fire e s) = inflight s \<and> note_list (fire e s) = note_list s"
proof -
  from assms(1) have "step s e (fire e s)" by (rule step.fired)
  then show ?thesis
    by (cases rule: step_cases) (use assms(2) in \<open>auto simp: setter_defs\<close>)
qed

lemma calm_completes:
  assumes "sys_reach org st0 \<sigma>" and "store_inv st0" and "agree \<sigma>"
    and "calm e" and "enabled (client \<sigma>) e"
  shows "\<exists>\<sigma>'. sys_run [User e] \<sigma> = Some \<sigma>' \<and> agree \<sigma>'"
proof -
  from assms(3) have i: "inflight (client \<sigma>) = []" by (simp add: agree_def)
  note q = quiet_system [OF assms(1,2) i]
  from calm_frame [OF assms(5,4)] assms(3,4,5) show ?thesis
    by (subst q(1)) (simp add: agree_def calm_is_user pad_def)
qed

section \<open>A save\<close>

lemma save_completes:
  assumes "sys_reach org st0 \<sigma>" and "store_inv st0" and "agree \<sigma>"
    and "enabled (client \<sigma>) (EditorEvent SaveClick)"
  shows "\<exists>\<sigma>'. sys_run (events_of \<sigma> (Save t1 t2)) \<sigma> = Some \<sigma>' \<and> agree \<sigma>'"
proof -
  let ?c = "client \<sigma>" and ?st = "server \<sigma>"
  from assms(3) have i: "inflight ?c = []" by (simp add: agree_def)
  note q = quiet_system [OF assms(1,2) i]
  from assms(4) obtain d where d: "editor ?c = Some d" "\<not> save_disabled d"
    by (auto split: option.splits)
  show ?thesis
  proof (cases "accepts \<sigma>")
    case True
    have "\<exists>st'. serve t1 (saveNote_request (editingNote ?c) d) ?st = (accepted None, st')"
    proof (cases "editingNote ?c")
      case None
      show ?thesis unfolding None by (intro exI) (rule serve_create)
    next
      case (Some x)
      with True have "has_note ?st (note_id x)" by (simp add: accepts_def)
      then show ?thesis unfolding Some by (intro exI) (simp only: serve_update if_True)
    qed
    then obtain st' where "serve t1 (saveNote_request (editingNote ?c) d) ?st = (accepted None, st')" ..
    from save_and_reload [OF i q(2) d this, of t2] True i show ?thesis
      by (subst (1 2) q(1)) (simp add: agree_def del: sys_run.simps)
  next
    case False
    then obtain x where x: "editingNote ?c = Some x" and "\<not> has_note ?st (note_id x)"
      by (cases "editingNote ?c") (simp_all add: accepts_def)
    then have "serve t1 (saveNote_request (editingNote ?c) d) ?st = (refused, ?st)"
      unfolding x by (simp only: serve_update if_False)
    from save_refused [OF i q(2) d this] False assms(3) show ?thesis
      by (subst (1 2) q(1)) (simp add: agree_def del: sys_run.simps)
  qed
qed

section \<open>A delete\<close>

lemma delete_completes:
  assumes "sys_reach org st0 \<sigma>" and "store_inv st0" and "agree \<sigma>"
    and "enabled (client \<sigma>) (CardClick n DeleteBtn)"
  shows "\<exists>\<sigma>'. sys_run (events_of \<sigma> (Delete n t)) \<sigma> = Some \<sigma>' \<and> agree \<sigma>'"
proof -
  from assms(3) have i: "inflight (client \<sigma>) = []"
    and l: "note_list (client \<sigma>) = stored (server \<sigma>)"
    by (simp_all add: agree_def)
  note q = quiet_system [OF assms(1,2) i]
  from assms(4) l have "has_note (server \<sigma>) (note_id n)"
    by (auto simp: has_note_def note_ids_def set_filteredNotes)
  then have "serve t (deleteNote_request (note_id n)) (server \<sigma>) =
      (accepted None, remove (note_id n) (server \<sigma>))"
    by (simp only: serve_delete if_True)
  from delete_and_answer [OF i q(2) assms(4) this] i l show ?thesis
    by (subst (1 2) q(1))
      (simp add: agree_def accepted_def note_list_deleteNote_resume remove_def del: sys_run.simps)
qed

section \<open>Sessions\<close>

lemma action_completes:
  assumes "sys_reach org st0 \<sigma>" and "store_inv st0" and "agree \<sigma>" and "possible \<sigma> a"
  shows "\<exists>\<sigma>'. sys_run (events_of \<sigma> a) \<sigma> = Some \<sigma>' \<and> agree \<sigma>' \<and> sys_reach org st0 \<sigma>'"
proof -
  have "\<exists>\<sigma>'. sys_run (events_of \<sigma> a) \<sigma> = Some \<sigma>' \<and> agree \<sigma>'"
    using assms(4) calm_completes [OF assms(1-3)] save_completes [OF assms(1-3)]
      delete_completes [OF assms(1-3)]
    by (cases a) (simp_all del: sys_run.simps)
  with assms(1) show ?thesis by (blast intro: sys_reach_run)
qed

lemma session_agrees:
  assumes "sys_reach org st0 \<sigma>" and "store_inv st0" and "agree \<sigma>"
    and "session as \<sigma> = Some \<sigma>'"
  shows "agree \<sigma>' \<and> sys_reach org st0 \<sigma>'"
  using assms
proof (induction as arbitrary: \<sigma>)
  case Nil
  then show ?case by simp
next
  case (Cons a as)
  from Cons.prems(4) have p: "possible \<sigma> a" by (simp split: if_splits)
  from action_completes [OF Cons.prems(1-3) p] obtain \<sigma>1
    where "sys_run (events_of \<sigma> a) \<sigma> = Some \<sigma>1" "agree \<sigma>1" "sys_reach org st0 \<sigma>1"
    by blast
  with Cons.prems(2,4) p Cons.IH [of \<sigma>1] show ?case by simp
qed

lemma session_append:
  "session (as @ bs) \<sigma> = (case session as \<sigma> of None \<Rightarrow> None | Some \<sigma>' \<Rightarrow> session bs \<sigma>')"
  by (induction as arbitrary: \<sigma>) (simp_all split: option.split)

lemma session_single:
  assumes "sys_reach org st0 \<sigma>" and "store_inv st0" and "agree \<sigma>"
  shows "session [a] \<sigma> \<noteq> None \<longleftrightarrow> possible \<sigma> a"
  using action_completes [OF assms, of a] by auto

section \<open>Two deletes, one after the other\<close>

text \<open>
  The session of theory \<open>Client_Store\<close> once more: both notes are deleted, but now the
  second delete button is clicked after the first answer has arrived. \<open>one_left\<close> is the
  system in between.
\<close>

definition one_left :: system where
  "one_left =
     \<lparr>client = deleteNote_resume ''1'' [groceries, recipe] (Resolved (accepted None)) loaded,
      server = remove ''1'' shop, answers = []\<rparr>"

lemma agree_sys_loaded: "agree sys_loaded"
  by (simp add: agree_def sys_loaded_def shop_def)

lemma session_first_delete: "session [Delete groceries ''t''] sys_loaded = Some one_left"
proof -
  have "editor_mounted loaded"
    using quiet_system(2) [OF reach_sys_loaded store_inv_shop] by (simp add: sys_loaded_def)
  moreover have "serve ''t'' (deleteNote_request (note_id groceries)) shop =
      (accepted None, remove ''1'' shop)"
    by (simp add: serve_delete has_note_def shop_def note_ids_def)
  ultimately show ?thesis
    using delete_and_answer [of loaded groceries "''t''" shop "accepted None" "remove ''1'' shop"]
    by (simp add: sys_loaded_def one_left_def del: sys_run.simps)
qed

lemma one_left_fields [simp]:
  "filteredNotes (client one_left) = [recipe]" "\<not> loading (client one_left)"
  by (simp_all add: one_left_def filteredNotes_def note_list_deleteNote_resume accepted_def
      without_id_def)

section \<open>Main properties\<close>

text \<open>
  C12 (invariant). Sequential use keeps the screen and the store in agreement. Start in
  a reachable state of the system in which nothing is in flight and the list on screen
  is the list of the store. Then after every session of actions (events that call no
  function of the store, saves with their answers, deletes with their answer, each
  begun after the one before has ended) again nothing is in flight and the list on
  screen is the list of the store. And a session never gets stuck half-way: it can be
  extended by an action exactly when the first event of the action is enabled in the
  state the session has led to, so every request is answered and every continuation runs.
\<close>

theorem sequential_use_agrees:
  assumes "sys_reach org st0 \<sigma>" and "store_inv st0" and "agree \<sigma>"
  shows "(\<forall>\<sigma>'. session as \<sigma> = Some \<sigma>' \<longrightarrow> agree \<sigma>' \<and> sys_reach org st0 \<sigma>') \<and>
         (session (as @ [a]) \<sigma> \<noteq> None \<longleftrightarrow> (\<exists>\<sigma>1. session as \<sigma> = Some \<sigma>1 \<and> possible \<sigma>1 a))"
proof (cases "session as \<sigma>")
  case None
  then show ?thesis by (simp add: session_append)
next
  case (Some \<sigma>1)
  with assms have "agree \<sigma>1 \<and> sys_reach org st0 \<sigma>1" by (rule session_agrees)
  with assms(2) Some show ?thesis
    using session_single [of org st0 \<sigma>1 a] by (simp add: session_append del: session.simps)
qed

theorem sequential_use_agrees_witness:
  "\<exists>\<sigma>'. session [Delete groceries ''t'', Delete recipe ''t''] sys_loaded = Some \<sigma>' \<and> agree \<sigma>'"
  using
    sequential_use_agrees [OF reach_sys_loaded store_inv_shop agree_sys_loaded,
      of "[Delete groceries ''t'']" "Delete recipe ''t''"]
    sequential_use_agrees [OF reach_sys_loaded store_inv_shop agree_sys_loaded,
      of "[Delete groceries ''t'', Delete recipe ''t'']"]
  by (auto simp: session_first_delete simp del: session.simps)

end
