(* ===== verification/Spec2Isabelle.thy ===== *)
theory Spec2Isabelle
  imports Sequential_Use
begin

text \<open>
  \<^bold>\<open>A verification development for the notes client\<close> (\<^verbatim>\<open>src/src/App.js\<close>).

  \<^bold>\<open>The program.\<close> One React module with four components. \<^verbatim>\<open>NotesApp\<close> owns
  the list of notes and all calls of the store (\<^verbatim>\<open>GET\<close>, \<^verbatim>\<open>POST\<close>, \<^verbatim>\<open>PUT\<close> and
  \<^verbatim>\<open>DELETE\<close> under \<^verbatim>\<open>http://localhost:8081/api/notes\<close>); it filters the list by a
  search term, shows one \<^verbatim>\<open>NoteCard\<close> per note, opens \<^verbatim>\<open>NoteEditor\<close> to create or
  edit a note and \<^verbatim>\<open>ShareModal\<close> to show a share link, and reports what happened in a
  notification that a timer clears after 3000 ms. The children keep no shared state:
  they call back into \<^verbatim>\<open>NotesApp\<close>.

  \<^bold>\<open>The theories\<close>, in the order they build on each other:
  \<^item> \<open>Notes_Prelude\<close>: the names of the base types, the fact collections
    (\<open>js_defs\<close>, \<open>model_defs\<close>, \<open>toast_defs\<close>, \<open>view_defs\<close>, \<open>handler_defs\<close>,
    \<open>inv_defs\<close>) and the list lemmas that the components share.
  \<^item> \<open>JS_String\<close>: the string operations of the JavaScript engine that the code
    calls (\<^verbatim>\<open>toLowerCase\<close>, \<^verbatim>\<open>includes\<close>, \<^verbatim>\<open>trim\<close>), written from their ECMAScript
    definition, and the two language constructs the code applies to strings, truthiness
    and the \<^verbatim>\<open>||\<close> default.
  \<^item> \<open>Note_Model\<close>: the records \<open>noteData\<close> and \<open>Note\<close>, the predicate of the search
    filter (\<open>matches\<close>, \<open>filter_notes\<close>), the list that \<^verbatim>\<open>deleteNote\<close> stores
    (\<open>without_id\<close>) and unique identifiers; as vocabulary of the statements, the
    lookup of a note by identifier (\<open>lookup_note\<close>) and the occurrence of a term in a text
    up to the case of letters (\<open>occurs_up_to_case\<close>).
  \<^item> \<open>Notification\<close>: \<^verbatim>\<open>showNotification\<close>, the timer queue of the browser, the
    passing of time (\<open>elapse\<close>) and the toast; the invariant \<open>timers_ok\<close>.
  \<^item> \<open>Note_Card\<close>, \<open>Note_Editor\<close>, \<open>Share_Modal\<close>: the three child components, each
    with its view record, its events and the callbacks they produce.
  \<^item> \<open>App_State\<close>: the state of \<^verbatim>\<open>NotesApp\<close> (its \<^verbatim>\<open>useState\<close> variables) and
    of the platform (requests in flight with their continuations, clipboard, origin).
  \<^item> \<open>App_Handlers\<close>: \<^verbatim>\<open>fetchNotes\<close>, \<^verbatim>\<open>saveNote\<close>, \<^verbatim>\<open>deleteNote\<close> and
    \<^verbatim>\<open>copyShareLink\<close>, one definition per stretch of code between two \<^verbatim>\<open>await\<close>s,
    with the state after every outcome.
  \<^item> \<open>App_Machine\<close>: the rendered tree (\<open>render\<close>), the events, the code each event
    runs (\<open>handle\<close>), React's commit (\<open>commit\<close>), the guard of each event (\<open>enabled\<close>),
    steps, runs and reachable states, and the case rule \<open>step_cases\<close>.
  \<^item> \<open>App_Invariants\<close>: the invariants of the reachable states, each proved for
    every handler and continuation, then for a step, then by rule induction on \<open>reach\<close>.
  \<^item> \<open>Scenarios\<close>: two notes and three states of a session with them, reached by
    enabled events, on which the properties are instantiated.
  \<^item> \<open>App_Flows\<close>: what a user operation does from its click to the last answer of
    the store (save, delete, two overlapping deletes, a double click on save), and how
    the editor is mounted, kept and torn down.
  \<^item> \<open>Note_Store\<close>: the store behind the four requests, modelled from the HTTP contract
    of the design document because the service is not part of the sources.
  \<^item> \<open>Client_Store\<close>: client and store as one system, its refinement of the client
    alone, and the operations followed from the click to what the store holds, those
    that the store refuses included.
  \<^item> \<open>Sequential_Use\<close>: sessions in which the user waits for the answers before the
    next action (\<open>session\<close>), and the agreement of screen and store along them
    (\<open>agree\<close>).
  \<^item> this theory: the properties of all reachable states and of the rendered list.

  \<^bold>\<open>What the lemmas show.\<close> The search filter finds exactly the notes in which the
  term occurs up to the case of letters, and the save guard lets through exactly the
  titles with a code unit that is not white space; both are stated on code units,
  without the string operations. Each handler has one lemma per branch (ok, status not
  ok, rejected promise, body that does not parse) and frame lemmas for the fields it
  leaves alone. The
  invariant \<open>app_inv\<close> holds in every reachable state whatever the store answers;
  unique identifiers are preserved if the store sends them. The flows compose handler,
  commit and continuation into one statement per user operation; with the store, an
  operation that succeeds leaves screen and store in agreement and one that the store
  refuses leaves the whole system as it was, so that in sequential use every action
  runs to its end and the screen never falls behind the store. Four behaviours differ
  from what the design document says or are not covered by it, and each is a theorem: a
  status that is not ok is never reported; a notification that replaces another is
  dismissed by the older timer; overlapping deletes bring a deleted note back; the draft
  of an open editor survives a change of the note being edited.

  \<^bold>\<open>How the model corresponds to the code.\<close> A state variable of a component is a
  record field with the variable's name; a setter \<^verbatim>\<open>setX\<close> is the definition \<open>setX\<close>.
  An object literal is a record, a string-valued tag is a datatype, a callback prop is
  a constructor of a callback datatype that the parent interprets. Asynchronous code is
  split at its \<^verbatim>\<open>await\<close>s: what runs at the call ends by putting a request and a
  continuation into \<open>inflight\<close>; what runs afterwards is a \<open>_resume\<close> definition applied
  to the outcome. The variables that a closure captured at the call (\<^verbatim>\<open>editingNote\<close>
  in \<^verbatim>\<open>saveNote\<close>, \<^verbatim>\<open>id\<close> and \<^verbatim>\<open>notes\<close> in \<^verbatim>\<open>deleteNote\<close>) travel with the
  continuation, so that code that runs later reads what the closure holds and not what
  the state has become. Promises settle in any order, and anything can happen between a
  call and its continuation: the event \<open>Settled i out\<close> settles the \<open>i\<close>-th call in
  flight with any outcome. Time is the event \<open>Elapsed d\<close>.

  \<^bold>\<open>Where the model stands for the platform.\<close> Some definitions describe what the
  browser, the JavaScript engine or React do when the code calls them, not lines of
  \<^verbatim>\<open>App.js\<close>: the string operations of \<open>JS_String\<close>; \<open>fetch\<close>, \<open>take_inflight\<close> and
  \<open>settle\<close> (promises); \<open>setTimeout\<close>, \<open>due\<close> and \<open>elapse\<close> (timers); \<open>writeText\<close>
  (the clipboard); \<open>commit\<close> (React creates the state variables of \<^verbatim>\<open>NoteEditor\<close> when
  the expression \<^verbatim>\<open>(isCreating || editingNote) && <NoteEditor .../>\<close> starts to render
  the component and drops them when it stops); \<open>step\<close>, \<open>run\<close> and \<open>reach\<close> (the event
  loop: one enabled event after the other). The properties are stated on the
  definitions that translate code (handlers, continuations, views, guards); the platform
  definitions say under which assumptions.

  \<^bold>\<open>Bounds and assumptions.\<close>
  \<^item> Strings are lists of code units below 256; there \<^verbatim>\<open>toLowerCase\<close> and \<^verbatim>\<open>trim\<close>
    are exact (theory \<open>JS_String\<close>).
  \<^item> A note identifier is held as the string that a template literal makes of it.
  \<^item> The clipboard of the browser is absent, denies the write or grants it
    (\<open>clipboard_access\<close>, chosen by the environment at each click on the copy button).
    Where \<^verbatim>\<open>navigator.clipboard\<close> is absent the call in \<^verbatim>\<open>copyShareLink\<close> throws
    and the handler ends there; an exception in an event handler leaves the state and
    the rendered tree as they are.
  \<^item> A response body that parses is a list of notes with string fields; any other
    JSON value is outside the model.
  \<^item> State changes of one handler or continuation are applied together and the tree
    is rendered before the next event; the intermediate renders of an unbatched React
    would see the same final state.
  \<^item> Timers fire at their deadline, before any later event.
  \<^item> Natural numbers count milliseconds and positions; nothing in the code computes
    with bounded integers.
  \<^item> The store is not in the sources. The client is verified against every outcome
    of every request (theories up to \<open>App_Flows\<close>); theory \<open>Note_Store\<close> adds a store
    that follows the contract of the design document, with decimal numerals of a counter
    as identifiers, and theory \<open>Client_Store\<close> shows that the client with this store
    is one of the behaviours already covered. In the closed system a request is served
    in one step, requests are served and answers delivered in any order, and any call
    can be lost.
  There is no fuel: every definition is a total function. All recursion is structural
  except \<open>decimal\<close> (theory \<open>Note_Store\<close>), which recurs on \<open>n div 10\<close> for \<open>n \<ge> 10\<close>.

  \<^bold>\<open>Not modelled.\<close> The style sheet and the icons; the date format of
  \<^verbatim>\<open>toLocaleDateString\<close> (a parameter of the card); the serialisation of the request
  body by \<^verbatim>\<open>JSON.stringify\<close> (the body is the record itself); the page that a share
  link leads to.
\<close>

section \<open>Properties of the reachable states\<close>

text \<open>
  C1 (invariant). Whatever the user does and whatever the store answers, the state of
  \<^verbatim>\<open>NotesApp\<close> satisfies \<open>app_inv\<close>: the timer queue is ordered with deadlines
  within the next 3000 ms and a visible notification has a timer that will clear it; the
  editor's state variables exist exactly while \<^verbatim>\<open>isCreating || editingNote\<close> holds; the
  spinner shows only while the first \<^verbatim>\<open>fetchNotes\<close> is in flight, and then the list is
  empty and no delete is pending; the note of the share
  modal was public when its card was clicked; and every call in flight carries the
  request its function built, a save request with a title that is not blank.
\<close>

theorem reachable_invariant: "reach env org s \<Longrightarrow> app_inv s"
  by (rule reach_app_inv)

theorem reachable_invariant_witness: "reachable home loaded \<and> app_inv loaded"
  using reachable_invariant [OF reachable_loaded] reachable_loaded by simp

text \<open>
  C5 (invariant). If every list that the store sends has unique identifiers, then the
  list of \<^verbatim>\<open>NotesApp\<close> has unique identifiers in every reachable state, and so has
  the filtered list whose identifiers are the keys of the rendered cards; looking up
  the identifier of a note of the list finds that note.
\<close>

theorem reachable_unique_ids:
  assumes "reach unique_event org s"
  shows "unique_ids (note_list s) \<and> unique_ids (filteredNotes s) \<and>
         (\<forall>n \<in> set (note_list s). lookup_note (note_list s) (note_id n) = Some n)"
proof -
  from assms have "unique_ids (note_list s)" using reach_ids_ok by (simp add: ids_ok_def)
  then show ?thesis
    by (simp add: filteredNotes_def unique_ids_filter_notes lookup_note_unique)
qed

theorem reachable_unique_ids_witness:
  "unique_ids [groceries, recipe] \<and> lookup_note [groceries, recipe] ''2'' = Some recipe"
  using reachable_unique_ids [OF unique_loaded] by auto

text \<open>
  C7 (liveness). No notification outlives its time: in every reachable state, once
  3000 ms or more have passed without a new notification, the toast is gone and no timer
  is left.
\<close>

theorem notification_dismissed:
  assumes "reach env org s" and "timeout_ms \<le> d"
  shows "notification (fire (Elapsed d) s) = None \<and> timers (fire (Elapsed d) s) = [] \<and>
         v_toast (render fmt (fire (Elapsed d) s)) = None"
proof -
  from assms(1) have "timers_ok s" using reach_app_inv by (simp add: app_inv_def)
  then show ?thesis
    using elapse_late_clears [of s d] assms(2) by (simp add: fire_def render_def toast_view_def)
qed

theorem notification_dismissed_witness:
  "notification load_failed \<noteq> None \<and> notification (fire (Elapsed 3000) load_failed) = None"
  using notification_dismissed [OF reachable_load_failed, of 3000] by (simp add: timeout_ms_def)

text \<open>
  C8 (functional). What the list area shows once the notes have loaded: one card per
  note whose lower-cased title or content contains the lower-cased search term in the
  sense of ECMAScript's \<^verbatim>\<open>includes\<close>, in the order of the list; with an empty
  search term, one card per note. The empty state is shown exactly when there is no
  card.
\<close>

theorem search_view:
  assumes "\<not> loading s"
  shows "v_cards (render fmt s) =
           map (NoteCard fmt)
             (filter (\<lambda>n. includes_spec (toLowerCase (title n)) (toLowerCase (searchTerm s)) \<or>
                          includes_spec (toLowerCase (content n)) (toLowerCase (searchTerm s)))
                (note_list s)) \<and>
         (searchTerm s = [] \<longrightarrow> v_cards (render fmt s) = map (NoteCard fmt) (note_list s)) \<and>
         (v_empty (render fmt s) \<longleftrightarrow> v_cards (render fmt s) = [])"
  using assms filter_notes_spec [of "searchTerm s" "note_list s"]
  by (simp add: render_def filteredNotes_def)

theorem search_view_witness:
  "map card_title (v_cards (render (\<lambda>d. d) (fire (SearchInput ''PAN'') loaded))) = [''Recipe'']"
proof -
  have "\<And>s t. includes_spec s t = includes_str s t"
    by (simp add: includes_str_sublist includes_spec_sublist)
  then show ?thesis
    using search_view [of "fire (SearchInput ''PAN'') loaded" "\<lambda>d. d"]
    by (simp add: fire_def setter_defs js_defs groceries_def recipe_def NoteCard_def)
qed

text \<open>
  C28 (safety). The spinner belongs to the first load only. While it shows, the list is
  empty, no card is rendered and no delete is in flight; once it is gone it never
  comes back, also not during the reload after a save.
\<close>

theorem spinner_only_at_start:
  assumes "reach env org s"
  shows "(loading s \<longrightarrow> note_list s = [] \<and> v_cards (render fmt s) = [] \<and>
            FetchNotes \<in> set (continuations s)) \<and>
         (\<not> loading s \<longrightarrow> (\<forall>es t. run es s = Some t \<longrightarrow> \<not> loading t))"
proof -
  from assms have "loading_waits s" and "loading_blank s"
    using reach_app_inv by (simp_all add: app_inv_def)
  then show ?thesis
    by (auto simp: loading_waits_def loading_blank_def render_def dest: run_loading_off)
qed

theorem spinner_only_at_start_witness:
  "run [NewNoteClick, EditorEvent (TitleInput ''Tasks'')] loaded = Some drafting \<and>
   \<not> loading loaded \<and> \<not> loading drafting"
proof -
  have "run [NewNoteClick, EditorEvent (TitleInput ''Tasks'')] loaded = Some drafting"
    by (simp add: drafting_def fire_def editor_commit editor_open_def setter_defs)
  then show ?thesis
    using spinner_only_at_start [OF reachable_loaded, of "\<lambda>d. d"] by simp
qed

text \<open>
  C38 (functional). The empty state does not tell an empty list from a search without
  a match: when no note matches the search term, "No notes yet! Create your first
  note" and its button are shown although the list has notes.
\<close>

theorem empty_state_on_no_match:
  assumes "\<not> loading s" and "\<forall>n \<in> set (note_list s). \<not> matches (searchTerm s) n"
  shows "v_empty (render fmt s) \<and> v_cards (render fmt s) = [] \<and> enabled s EmptyCreateClick"
  using assms by (simp add: render_def filteredNotes_def filter_notes_def)

theorem empty_state_on_no_match_witness:
  "note_list (fire (SearchInput ''zzz'') loaded) = [groceries, recipe] \<and>
   v_empty (render (\<lambda>d. d) (fire (SearchInput ''zzz'') loaded))"
proof -
  have "\<not> matches ''zzz'' groceries" and "\<not> matches ''zzz'' recipe"
    by (simp_all add: matches_def js_defs groceries_def recipe_def)
  then show ?thesis
    using empty_state_on_no_match [of "fire (SearchInput ''zzz'') loaded" "\<lambda>d. d"]
    by (simp add: fire_def setter_defs)
qed

end
